theory Spec2Isabelle
  imports Main "HOL-Library.Word"
begin

unbundle bit_operations_syntax

section \<open>CiA 402 state machine (soem\_interface\_backup.c, lines 20--155)\<close>

text \<open>
  The enumeration \<^verbatim>\<open>cia402_state_t\<close> is declared in \<^verbatim>\<open>soem_interface.h\<close>; its eight
  enumerators are the ones the source file names.
\<close>

datatype cia402_state =
    CIA402_STATE_NOT_READY
  | CIA402_STATE_SWITCH_ON_DISABLED
  | CIA402_STATE_READY_TO_SWITCH_ON
  | CIA402_STATE_SWITCHED_ON
  | CIA402_STATE_OPERATION_ENABLED
  | CIA402_STATE_QUICK_STOP_ACTIVE
  | CIA402_STATE_FAULT_REACTION_ACTIVE
  | CIA402_STATE_FAULT

definition CIA402_STATUSWORD_FAULT :: "16 word" where
  "CIA402_STATUSWORD_FAULT = 0x0008"

definition CIA402_CONTROLWORD_FAULT_RESET :: "16 word" where
  "CIA402_CONTROLWORD_FAULT_RESET = 0x0080"

text \<open>\<^verbatim>\<open>get_cia402_state\<close>, lines 89--109: the switch on the masked statusword, in the
  order of its case labels, and the default branch testing the fault bit of the
  unmasked statusword.\<close>

definition get_cia402_state :: "16 word \<Rightarrow> cia402_state" where
  "get_cia402_state statusword =
     (let state_bits = statusword AND 0x006F in
      if state_bits = 0x0000 then CIA402_STATE_NOT_READY
      else if state_bits = 0x0040 then CIA402_STATE_SWITCH_ON_DISABLED
      else if state_bits = 0x0021 then CIA402_STATE_READY_TO_SWITCH_ON
      else if state_bits = 0x0023 then CIA402_STATE_SWITCHED_ON
      else if state_bits = 0x0027 then CIA402_STATE_OPERATION_ENABLED
      else if state_bits = 0x0007 then CIA402_STATE_QUICK_STOP_ACTIVE
      else if state_bits = 0x000F then CIA402_STATE_FAULT_REACTION_ACTIVE
      else if state_bits = 0x0008 then CIA402_STATE_FAULT
      else if statusword AND CIA402_STATUSWORD_FAULT \<noteq> 0 then CIA402_STATE_FAULT
      else CIA402_STATE_NOT_READY)"

text \<open>\<^verbatim>\<open>get_cia402_controlword_for_transition\<close>, lines 125--155. A case that does not
  return falls out of the switch to the final \<^verbatim>\<open>return 0x0006\<close>.\<close>

definition get_cia402_controlword_for_transition ::
  "cia402_state \<Rightarrow> cia402_state \<Rightarrow> 16 word" where
  "get_cia402_controlword_for_transition current_state target_state =
     (case current_state of
        CIA402_STATE_NOT_READY \<Rightarrow>
          (if target_state = CIA402_STATE_READY_TO_SWITCH_ON then 0x0006 else 0x0006)
      | CIA402_STATE_SWITCH_ON_DISABLED \<Rightarrow>
          (if target_state = CIA402_STATE_READY_TO_SWITCH_ON then 0x0006 else 0x0006)
      | CIA402_STATE_READY_TO_SWITCH_ON \<Rightarrow>
          (if target_state = CIA402_STATE_SWITCHED_ON then 0x0007 else 0x0006)
      | CIA402_STATE_SWITCHED_ON \<Rightarrow>
          (if target_state = CIA402_STATE_OPERATION_ENABLED then 0x000F else 0x0006)
      | CIA402_STATE_FAULT \<Rightarrow> 0x0080
      | _ \<Rightarrow> 0x0006)"

text \<open>The controlword selection inlined in \<^verbatim>\<open>perform_cia402_transition_to_operational\<close>,
  lines 384--408: the fault test first, then the switch with its default.\<close>

definition transition_controlword :: "cia402_state \<Rightarrow> 16 word" where
  "transition_controlword s =
     (if s = CIA402_STATE_FAULT then CIA402_CONTROLWORD_FAULT_RESET
      else (case s of
              CIA402_STATE_NOT_READY \<Rightarrow> 0x0006
            | CIA402_STATE_SWITCH_ON_DISABLED \<Rightarrow> 0x0006
            | CIA402_STATE_READY_TO_SWITCH_ON \<Rightarrow> 0x0007
            | CIA402_STATE_SWITCHED_ON \<Rightarrow> 0x000F
            | CIA402_STATE_QUICK_STOP_ACTIVE \<Rightarrow> 0x0006
            | _ \<Rightarrow> 0x0006))"

text \<open>The decoder as the specification words it: a table on the masked statusword, and
  for a pattern outside the table the fault bit (bit 3) decides.\<close>

definition decode_table :: "(16 word \<times> cia402_state) list" where
  "decode_table =
     [(0x00, CIA402_STATE_NOT_READY),
      (0x40, CIA402_STATE_SWITCH_ON_DISABLED),
      (0x21, CIA402_STATE_READY_TO_SWITCH_ON),
      (0x23, CIA402_STATE_SWITCHED_ON),
      (0x27, CIA402_STATE_OPERATION_ENABLED),
      (0x07, CIA402_STATE_QUICK_STOP_ACTIVE),
      (0x0F, CIA402_STATE_FAULT_REACTION_ACTIVE),
      (0x08, CIA402_STATE_FAULT)]"

definition decode_spec :: "16 word \<Rightarrow> cia402_state" where
  "decode_spec statusword =
     (case map_of decode_table (statusword AND 0x6F) of
        Some s \<Rightarrow> s
      | None \<Rightarrow> (if bit statusword 3 then CIA402_STATE_FAULT else CIA402_STATE_NOT_READY))"

section \<open>The SOEM library, as the source uses it\<close>

text \<open>
  The EtherCAT master library (\<^verbatim>\<open>ethercat.h\<close>, \<^verbatim>\<open>ethercattype.h\<close>) is an external
  collaborator. Its state constants and timeouts are the library's; the functions the
  source calls are a record of operations over an arbitrary library state \<open>'d\<close> (the bus,
  the drive and the library's own memory), so every result below holds for each behaviour
  of the drive.
\<close>

definition EC_STATE_INIT :: "16 word" where "EC_STATE_INIT = 0x01"
definition EC_STATE_PRE_OP :: "16 word" where "EC_STATE_PRE_OP = 0x02"
definition EC_STATE_BOOT :: "16 word" where "EC_STATE_BOOT = 0x03"
definition EC_STATE_SAFE_OP :: "16 word" where "EC_STATE_SAFE_OP = 0x04"
definition EC_STATE_OPERATIONAL :: "16 word" where "EC_STATE_OPERATIONAL = 0x08"

definition EC_TIMEOUTRET :: nat where "EC_TIMEOUTRET = 2000"
definition EC_TIMEOUTRXM :: nat where "EC_TIMEOUTRXM = 700000"
definition EC_TIMEOUTSTATE :: nat where "EC_TIMEOUTSTATE = 2000000"

text \<open>The fields of \<^verbatim>\<open>ec_slave[i]\<close> the source reads and writes.\<close>

record ec_slavet =
  state :: "16 word"
  ALstatuscode :: "16 word"

text \<open>
  Modelled from the spec: the process-image structs \<^verbatim>\<open>somanet_rx_pdo_enhanced_t\<close> and
  \<^verbatim>\<open>somanet_tx_pdo_enhanced_t\<close> are declared in \<^verbatim>\<open>soem_interface.h\<close>. The records hold the
  fields the source accesses, with the widths of section 6 of the specification (the
  velocity field, which that section does not list, is taken as 32 bits like the position).
\<close>

record somanet_rx_pdo_enhanced_t =
  controlword :: "16 word"
  modes_of_operation :: "8 word"
  target_torque :: "16 word"

record somanet_tx_pdo_enhanced_t =
  statusword :: "16 word"
  position_actual_value :: "32 word"
  velocity_actual_value :: "32 word"

text \<open>
  Every call into the library, and every \<^verbatim>\<open>usleep\<close>, is recorded in a trace in call order.
  An SDO transfer carries its slave, index, subindex, size in bytes and (for a write) the
  value; \<open>Writestate\<close> carries the state that \<^verbatim>\<open>ec_slave[slave].state\<close> holds at the call.
\<close>

datatype event =
    SDOwrite "16 word" "16 word" "8 word" nat "32 word"
  | SDOread "16 word" "16 word" "8 word" nat
  | Writestate "16 word" "16 word"
  | Statecheck "16 word" "16 word" nat
  | Send_processdata "somanet_rx_pdo_enhanced_t option"
  | Receive_processdata nat
  | Usleep nat

record 'd soem_lib =
  ec_SDOwrite :: "16 word \<Rightarrow> 16 word \<Rightarrow> 8 word \<Rightarrow> nat \<Rightarrow> 32 word \<Rightarrow> 'd \<Rightarrow> int \<times> 'd"
  ec_SDOread :: "16 word \<Rightarrow> 16 word \<Rightarrow> 8 word \<Rightarrow> nat \<Rightarrow> 'd \<Rightarrow> (int \<times> 32 word) \<times> 'd"
  ec_writestate :: "16 word \<Rightarrow> 16 word \<Rightarrow> 'd \<Rightarrow> 'd"
  ec_statecheck :: "16 word \<Rightarrow> 16 word \<Rightarrow> nat \<Rightarrow> ec_slavet \<Rightarrow> 'd \<Rightarrow> (int \<times> ec_slavet) \<times> 'd"
  ec_send_processdata :: "somanet_rx_pdo_enhanced_t option \<Rightarrow> 'd \<Rightarrow> 'd"
  ec_receive_processdata :: "nat \<Rightarrow> 'd \<Rightarrow> (int \<times> somanet_tx_pdo_enhanced_t) \<times> 'd"

text \<open>
  Single-precision arithmetic is a parameter: the product, the constant \<^verbatim>\<open>1000.0f\<close>, the
  cast \<^verbatim>\<open>(int16_t)\<close> of a float and the cast \<^verbatim>\<open>(float)\<close> of a 32-bit field.
\<close>

record 'f float_ops =
  f_mul :: "'f \<Rightarrow> 'f \<Rightarrow> 'f"
  f_1000 :: 'f
  f_to_int16 :: "'f \<Rightarrow> 16 word"
  f_of_int32 :: "32 word \<Rightarrow> 'f"

section \<open>Program state\<close>

text \<open>
  The globals of the source file (lines 39--86), the library's \<^verbatim>\<open>ec_slave\<close> array, and the
  library state. A null \<^verbatim>\<open>somanet_outputs\<close> or \<^verbatim>\<open>somanet_inputs\<close> pointer is \<open>None\<close>; otherwise
  the option holds the struct the pointer refers to.
\<close>

record ('d, 'f) world =
  lib :: 'd
  ec_slave :: "16 word \<Rightarrow> ec_slavet"
  somanet_outputs :: "somanet_rx_pdo_enhanced_t option"
  somanet_inputs :: "somanet_tx_pdo_enhanced_t option"
  wkc :: int
  expectedWKC :: int
  communication_ok :: int
  target_torque_f :: 'f
  current_position_f :: 'f
  current_velocity_f :: 'f
  current_cia402_state :: cia402_state
  current_statusword :: "16 word"
  current_controlword :: "16 word"
  trace :: "event list"

definition usleep :: "nat \<Rightarrow> ('d, 'f) world \<Rightarrow> ('d, 'f) world" where
  "usleep us w = w\<lparr>trace := trace w @ [Usleep us]\<rparr>"

text \<open>\<^verbatim>\<open>is_slave_operational\<close>, lines 250--253.\<close>

definition is_slave_operational :: "16 word \<Rightarrow> ('d, 'f) world \<Rightarrow> bool" where
  "is_slave_operational slave_idx w =
     (let actual_state = state (ec_slave w slave_idx) AND 0x0F
      in actual_state = EC_STATE_OPERATIONAL)"

text \<open>\<^verbatim>\<open>soem_interface_write_sdo\<close>, lines 269--277, and \<^verbatim>\<open>soem_interface_read_sdo\<close>,
  lines 279--288 (complete access is always FALSE and the timeout always EC\_TIMEOUTRXM).
  The read returns the buffer with the status.\<close>

definition soem_interface_write_sdo ::
  "'d soem_lib \<Rightarrow> 16 word \<Rightarrow> 16 word \<Rightarrow> 8 word \<Rightarrow> nat \<Rightarrow> 32 word \<Rightarrow>
     ('d, 'f) world \<Rightarrow> int \<times> ('d, 'f) world" where
  "soem_interface_write_sdo L slave_idx index subindex data_size data w =
     (case ec_SDOwrite L slave_idx index subindex data_size data (lib w) of
        (wkc_sdo, d) \<Rightarrow>
          (if wkc_sdo = 0 then -1 else 0,
           w\<lparr>lib := d, trace := trace w @ [SDOwrite slave_idx index subindex data_size data]\<rparr>))"

definition soem_interface_read_sdo ::
  "'d soem_lib \<Rightarrow> 16 word \<Rightarrow> 16 word \<Rightarrow> 8 word \<Rightarrow> nat \<Rightarrow>
     ('d, 'f) world \<Rightarrow> (int \<times> 32 word) \<times> ('d, 'f) world" where
  "soem_interface_read_sdo L slave_idx index subindex data_size w =
     (case ec_SDOread L slave_idx index subindex data_size (lib w) of
        ((wkc_sdo, data), d) \<Rightarrow>
          ((if wkc_sdo = 0 then -1 else 0, data),
           w\<lparr>lib := d, trace := trace w @ [SDOread slave_idx index subindex data_size]\<rparr>))"

text \<open>The two library calls on the slave state: \<^verbatim>\<open>ec_writestate\<close> sends the state field of
  the slave's entry, \<^verbatim>\<open>ec_statecheck\<close> polls the slave and refreshes the entry.\<close>

definition do_writestate :: "'d soem_lib \<Rightarrow> 16 word \<Rightarrow> ('d, 'f) world \<Rightarrow> ('d, 'f) world" where
  "do_writestate L slave_idx w =
     w\<lparr>lib := ec_writestate L slave_idx (state (ec_slave w slave_idx)) (lib w),
       trace := trace w @ [Writestate slave_idx (state (ec_slave w slave_idx))]\<rparr>"

definition do_statecheck ::
  "'d soem_lib \<Rightarrow> 16 word \<Rightarrow> 16 word \<Rightarrow> nat \<Rightarrow> ('d, 'f) world \<Rightarrow> int \<times> ('d, 'f) world" where
  "do_statecheck L slave_idx reqstate timeout w =
     (case ec_statecheck L slave_idx reqstate timeout (ec_slave w slave_idx) (lib w) of
        ((r, entry), d) \<Rightarrow>
          (r, w\<lparr>lib := d, ec_slave := (ec_slave w)(slave_idx := entry),
                trace := trace w @ [Statecheck slave_idx reqstate timeout]\<rparr>))"

definition set_slave_state :: "16 word \<Rightarrow> 16 word \<Rightarrow> ('d, 'f) world \<Rightarrow> ('d, 'f) world" where
  "set_slave_state slave_idx s w =
     w\<lparr>ec_slave := (ec_slave w)(slave_idx := (ec_slave w slave_idx)\<lparr>state := s\<rparr>)\<rparr>"

section \<open>Slave state controller (lines 291--355)\<close>

text \<open>Lines 299--316 of one attempt: clear the AL status code, request the state, settle,
  check. The flag is the condition of the \<^verbatim>\<open>if\<close> on line 312.\<close>

definition request_state ::
  "'d soem_lib \<Rightarrow> 16 word \<Rightarrow> 16 word \<Rightarrow> ('d, 'f) world \<Rightarrow> bool \<times> ('d, 'f) world" where
  "request_state L slave_idx desired_state w =
     (let w1 = w\<lparr>ec_slave := (ec_slave w)(slave_idx := (ec_slave w slave_idx)\<lparr>ALstatuscode := 0\<rparr>)\<rparr>;
          w2 = set_slave_state slave_idx desired_state w1;
          w3 = do_writestate L slave_idx w2;
          w4 = usleep 20000 w3
      in case do_statecheck L slave_idx desired_state EC_TIMEOUTSTATE w4 of
           (wkc_state, w5) \<Rightarrow>
             (wkc_state > 0 \<and> state (ec_slave w5 slave_idx) AND 0x0F = desired_state, w5))"

text \<open>Lines 322--343: the intermediate SAFE\_OP transition. The flag tells whether the
  block returned 0 from the function.\<close>

definition try_intermediate_safe_op ::
  "'d soem_lib \<Rightarrow> 16 word \<Rightarrow> 16 word \<Rightarrow> ('d, 'f) world \<Rightarrow> bool \<times> ('d, 'f) world" where
  "try_intermediate_safe_op L slave_idx desired_state w =
     (if desired_state = EC_STATE_OPERATIONAL
         \<and> state (ec_slave w slave_idx) AND 0x0F = EC_STATE_PRE_OP
      then
        (let w1 = set_slave_state slave_idx EC_STATE_SAFE_OP w;
             w2 = do_writestate L slave_idx w1;
             w3 = usleep 200000 w2
         in case do_statecheck L slave_idx EC_STATE_SAFE_OP (EC_TIMEOUTSTATE * 2) w3 of
              (r1, w4) \<Rightarrow>
                if r1 > 0 then
                  (let w5 = set_slave_state slave_idx EC_STATE_OPERATIONAL w4;
                       w6 = do_writestate L slave_idx w5;
                       w7 = usleep 200000 w6
                   in case do_statecheck L slave_idx EC_STATE_OPERATIONAL (EC_TIMEOUTSTATE * 2) w7 of
                        (r2, w8) \<Rightarrow> (r2 > 0, w8))
                else (False, w4))
      else (False, w))"

text \<open>One pass of the body of the \<^verbatim>\<open>while\<close> loop up to line 343.\<close>

definition set_state_attempt ::
  "'d soem_lib \<Rightarrow> 16 word \<Rightarrow> 16 word \<Rightarrow> ('d, 'f) world \<Rightarrow> bool \<times> ('d, 'f) world" where
  "set_state_attempt L slave_idx desired_state w =
     (case request_state L slave_idx desired_state w of
        (ok, w5) \<Rightarrow>
          if ok then (True, w5) else try_intermediate_safe_op L slave_idx desired_state w5)"

definition max_retries :: nat where "max_retries = 5"

text \<open>The \<^verbatim>\<open>while (retry_count < max_retries)\<close> loop, from a given \<^verbatim>\<open>retry_count\<close>.\<close>

function set_state_loop ::
  "'d soem_lib \<Rightarrow> 16 word \<Rightarrow> 16 word \<Rightarrow> nat \<Rightarrow> ('d, 'f) world \<Rightarrow> int \<times> ('d, 'f) world" where
  "set_state_loop L slave_idx desired_state retry_count w =
     (if retry_count < max_retries then
        (case set_state_attempt L slave_idx desired_state w of
           (True, w') \<Rightarrow> (0, w')
         | (False, w') \<Rightarrow>
             set_state_loop L slave_idx desired_state (retry_count + 1)
               (if retry_count + 1 < max_retries then usleep 50000 w' else w'))
      else (-1, w))"
  by pat_completeness auto
termination
  by (relation "measure (\<lambda>(L, slave_idx, desired_state, retry_count, w). max_retries - retry_count)")
     auto

definition soem_interface_set_ethercat_state ::
  "'d soem_lib \<Rightarrow> 16 word \<Rightarrow> 16 word \<Rightarrow> ('d, 'f) world \<Rightarrow> int \<times> ('d, 'f) world" where
  "soem_interface_set_ethercat_state L slave_idx desired_state w =
     set_state_loop L slave_idx desired_state 0 w"

section \<open>Drive to Operation Enabled (lines 358--427)\<close>

definition do_send_processdata :: "'d soem_lib \<Rightarrow> ('d, 'f) world \<Rightarrow> ('d, 'f) world" where
  "do_send_processdata L w =
     w\<lparr>lib := ec_send_processdata L (somanet_outputs w) (lib w),
       trace := trace w @ [Send_processdata (somanet_outputs w)]\<rparr>"

text \<open>\<^verbatim>\<open>ec_receive_processdata\<close> refreshes the input image the pointer refers to and returns
  the working counter.\<close>

definition do_receive_processdata ::
  "'d soem_lib \<Rightarrow> nat \<Rightarrow> ('d, 'f) world \<Rightarrow> int \<times> ('d, 'f) world" where
  "do_receive_processdata L timeout w =
     (case ec_receive_processdata L timeout (lib w) of
        ((r, img), d) \<Rightarrow>
          (r, w\<lparr>lib := d, somanet_inputs := map_option (\<lambda>_. img) (somanet_inputs w),
                trace := trace w @ [Receive_processdata timeout]\<rparr>))"

text \<open>The body of the \<^verbatim>\<open>while (attempt < max_attempts)\<close> loop, lines 365--422: \<open>Inl\<close> is a
  \<^verbatim>\<open>return\<close> with its value, \<open>Inr\<close> the state at the end of the pass.\<close>

definition cia402_transition_attempt ::
  "'d soem_lib \<Rightarrow> ('d, 'f) world \<Rightarrow> int \<times> ('d, 'f) world + ('d, 'f) world" where
  "cia402_transition_attempt L w =
     (case somanet_inputs w of
        None \<Rightarrow> Inl (-1, w)
      | Some inputs \<Rightarrow>
          (let w1 = w\<lparr>current_statusword := statusword inputs\<rparr>;
               w2 = w1\<lparr>current_cia402_state := get_cia402_state (current_statusword w1)\<rparr>
           in if current_cia402_state w2 = CIA402_STATE_OPERATION_ENABLED then Inl (0, w2)
              else
                (let w3 = w2\<lparr>current_controlword :=
                              transition_controlword (current_cia402_state w2)\<rparr>;
                     w4 = (case somanet_outputs w3 of
                             None \<Rightarrow> w3
                           | Some outputs \<Rightarrow>
                               w3\<lparr>somanet_outputs :=
                                    Some (outputs\<lparr>controlword := current_controlword w3\<rparr>)\<rparr>);
                     w5 = do_send_processdata L w4
                 in case do_receive_processdata L EC_TIMEOUTRET w5 of
                      (r, w6) \<Rightarrow> Inr (usleep 5000 (w6\<lparr>wkc := r\<rparr>)))))"

definition max_attempts :: nat where "max_attempts = 50"

function transition_loop ::
  "'d soem_lib \<Rightarrow> nat \<Rightarrow> ('d, 'f) world \<Rightarrow> int \<times> ('d, 'f) world" where
  "transition_loop L attempt w =
     (if attempt < max_attempts then
        (case cia402_transition_attempt L w of
           Inl res \<Rightarrow> res
         | Inr w' \<Rightarrow> transition_loop L (attempt + 1) w')
      else (-1, w))"
  by pat_completeness auto
termination
  by (relation "measure (\<lambda>(L, attempt, w). max_attempts - attempt)") auto

definition perform_cia402_transition_to_operational ::
  "'d soem_lib \<Rightarrow> 16 word \<Rightarrow> ('d, 'f) world \<Rightarrow> int \<times> ('d, 'f) world" where
  "perform_cia402_transition_to_operational L slave_idx w = transition_loop L 0 w"

section \<open>Cyclic exchange loop (lines 430--510)\<close>

text \<open>Lines 449--462: the output image is written only through a non-null pointer.\<close>

definition update_outputs :: "'f float_ops \<Rightarrow> ('d, 'f) world \<Rightarrow> ('d, 'f) world" where
  "update_outputs F w =
     (case somanet_outputs w of
        None \<Rightarrow> w
      | Some outputs \<Rightarrow>
          (let o1 = (if current_cia402_state w = CIA402_STATE_OPERATION_ENABLED
                     then outputs\<lparr>target_torque :=
                            f_to_int16 F (f_mul F (target_torque_f w) (f_1000 F))\<rparr>
                     else outputs\<lparr>target_torque := 0\<rparr>);
               o2 = o1\<lparr>controlword := current_controlword w\<rparr>;
               o3 = o2\<lparr>modes_of_operation := 4\<rparr>
           in w\<lparr>somanet_outputs := Some o3\<rparr>))"

text \<open>Lines 477--485.\<close>

definition update_inputs :: "'f float_ops \<Rightarrow> ('d, 'f) world \<Rightarrow> ('d, 'f) world" where
  "update_inputs F w =
     (case somanet_inputs w of
        None \<Rightarrow> w
      | Some inputs \<Rightarrow>
          (let w1 = w\<lparr>current_statusword := statusword inputs\<rparr>;
               w2 = w1\<lparr>current_cia402_state := get_cia402_state (current_statusword w1)\<rparr>;
               w3 = w2\<lparr>current_position_f := f_of_int32 F (position_actual_value inputs)\<rparr>
           in w3\<lparr>current_velocity_f := f_of_int32 F (velocity_actual_value inputs)\<rparr>))"

text \<open>Lines 474--498: the classification of the working counter. The flag is the local
  \<^verbatim>\<open>state_machine_initialized\<close>.\<close>

definition classify_wkc ::
  "'d soem_lib \<Rightarrow> 'f float_ops \<Rightarrow> 16 word \<Rightarrow> bool \<times> ('d, 'f) world \<Rightarrow> bool \<times> ('d, 'f) world" where
  "classify_wkc L F slave_idx sw =
     (case sw of (state_machine_initialized, w) \<Rightarrow>
        if wkc w \<ge> expectedWKC w then
          (let w1 = update_inputs F (w\<lparr>communication_ok := 1\<rparr>)
           in if \<not> state_machine_initialized \<and> somanet_inputs w1 \<noteq> None
                 \<and> somanet_outputs w1 \<noteq> None
              then (case perform_cia402_transition_to_operational L slave_idx w1 of
                      (rc, w2) \<Rightarrow> (if rc = 0 then True else state_machine_initialized, w2))
              else (state_machine_initialized, w1))
        else (state_machine_initialized, w\<lparr>communication_ok := 0\<rparr>))"

text \<open>One pass of the body of \<^verbatim>\<open>while (ecat_thread_running)\<close>, lines 448--505.\<close>

definition ecat_loop_iteration ::
  "'d soem_lib \<Rightarrow> 'f float_ops \<Rightarrow> 16 word \<Rightarrow> bool \<times> ('d, 'f) world \<Rightarrow> bool \<times> ('d, 'f) world" where
  "ecat_loop_iteration L F slave_idx sw =
     (case sw of (state_machine_initialized, w) \<Rightarrow>
        (let w1 = update_outputs F w;
             w2 = do_send_processdata L w1
         in case do_receive_processdata L EC_TIMEOUTRET w2 of
              (r, w3) \<Rightarrow>
                (let w4 = usleep 5000 (w3\<lparr>wkc := r\<rparr>)
                 in case classify_wkc L F slave_idx (state_machine_initialized, w4) of
                      (smi, w5) \<Rightarrow>
                        (let w6 = (if \<not> is_slave_operational slave_idx w5
                                   then snd (do_statecheck L slave_idx EC_STATE_OPERATIONAL
                                               EC_TIMEOUTSTATE w5)
                                   else w5)
                         in (smi, usleep 1000 w6)))))"

text \<open>
  The loop \<^verbatim>\<open>while (ecat_thread_running)\<close> of lines 447--506, entered once the master is
  initialised. \<^verbatim>\<open>ecat_thread_running\<close> is a volatile flag and \<^verbatim>\<open>target_torque_f\<close> a
  mutex-protected global, both written by other threads; the list gives, for each test of
  the loop condition, the flag observed there and the setpoint the pass then reads. \<open>None\<close>
  means the observations ended with the thread still asked to run. The loop has no
  \<^verbatim>\<open>break\<close> and no \<^verbatim>\<open>return\<close>: only the flag ends it.
\<close>

fun ecat_loop ::
  "'d soem_lib \<Rightarrow> 'f float_ops \<Rightarrow> 16 word \<Rightarrow> (bool \<times> 'f) list \<Rightarrow> bool \<times> ('d, 'f) world \<Rightarrow>
     (bool \<times> ('d, 'f) world) option" where
  "ecat_loop L F slave_idx [] sw = None"
| "ecat_loop L F slave_idx ((ecat_thread_running, torque) # env) sw =
     (if ecat_thread_running
      then ecat_loop L F slave_idx env
             (ecat_loop_iteration L F slave_idx (fst sw, (snd sw)\<lparr>target_torque_f := torque\<rparr>))
      else Some sw)"

text \<open>Line 837 of \<^verbatim>\<open>soem_interface_init_enhanced\<close>: the fields are 16-bit and the
  arithmetic is done in \<^verbatim>\<open>int\<close>, where it cannot overflow.\<close>

definition expected_wkc :: "16 word \<Rightarrow> 16 word \<Rightarrow> int" where
  "expected_wkc outputsWKC inputsWKC = (uint outputsWKC * 2) + uint inputsWKC"

text \<open>The telemetry getters, lines 918--944.\<close>

definition soem_interface_get_current_position :: "('d, 'f) world \<Rightarrow> 'f" where
  "soem_interface_get_current_position w = current_position_f w"

definition soem_interface_get_current_velocity :: "('d, 'f) world \<Rightarrow> 'f" where
  "soem_interface_get_current_velocity w = current_velocity_f w"

definition soem_interface_get_communication_status :: "('d, 'f) world \<Rightarrow> int" where
  "soem_interface_get_communication_status w = communication_ok w"

definition soem_interface_get_cia402_state :: "('d, 'f) world \<Rightarrow> cia402_state" where
  "soem_interface_get_cia402_state w = current_cia402_state w"

definition soem_interface_get_statusword :: "('d, 'f) world \<Rightarrow> 16 word" where
  "soem_interface_get_statusword w = current_statusword w"

section \<open>PDO mapping configuration (lines 545--649)\<close>

text \<open>The comparison loop of lines 570--580, from index \<open>i\<close>. The index is a \<^verbatim>\<open>uint8_t\<close> below
  \<^verbatim>\<open>current_num_objects\<close>, so neither \<^verbatim>\<open>i + 1\<close> nor \<^verbatim>\<open>i++\<close> wraps.\<close>

function check_mapping_entries ::
  "'d soem_lib \<Rightarrow> 16 word \<Rightarrow> 16 word \<Rightarrow> 32 word list \<Rightarrow> 8 word \<Rightarrow> nat \<Rightarrow>
     ('d, 'f) world \<Rightarrow> bool \<times> ('d, 'f) world" where
  "check_mapping_entries L slave_idx pdo_map_idx mapped_objects current_num_objects i w =
     (if i < unat current_num_objects then
        (case soem_interface_read_sdo L slave_idx pdo_map_idx (of_nat (i + 1)) 4 w of
           ((rc, current_object), w') \<Rightarrow>
             if rc = 0 then
               (if current_object \<noteq> mapped_objects ! i then (False, w')
                else check_mapping_entries L slave_idx pdo_map_idx mapped_objects
                       current_num_objects (i + 1) w')
             else (False, w'))
      else (True, w))"
  by pat_completeness auto
termination
  by (relation "measure (\<lambda>(L, slave_idx, pdo_map_idx, mapped_objects, current_num_objects, i, w).
                  unat current_num_objects - i)") auto

text \<open>Step 1, lines 562--587: the flag tells whether the function returns 0 on line 585.
  A failed read of the entry count skips the comparison.\<close>

definition current_mapping_matches ::
  "'d soem_lib \<Rightarrow> 16 word \<Rightarrow> 16 word \<Rightarrow> 32 word list \<Rightarrow> 8 word \<Rightarrow>
     ('d, 'f) world \<Rightarrow> bool \<times> ('d, 'f) world" where
  "current_mapping_matches L slave_idx pdo_map_idx mapped_objects num_mapped_objects w =
     (case soem_interface_read_sdo L slave_idx pdo_map_idx 0x00 1 w of
        ((rc, data), w1) \<Rightarrow>
          if rc = 0 then
            (let current_num_objects = (ucast data :: 8 word) in
             if current_num_objects = num_mapped_objects
             then check_mapping_entries L slave_idx pdo_map_idx mapped_objects
                    current_num_objects 0 w1
             else (False, w1))
          else (False, w1))"

text \<open>The write loop of step 4, lines 607--614, from index \<open>i\<close>: 0 when the loop runs to
  its end, -1 when it returns.\<close>

function write_mapping_objects ::
  "'d soem_lib \<Rightarrow> 16 word \<Rightarrow> 16 word \<Rightarrow> 32 word list \<Rightarrow> 8 word \<Rightarrow> nat \<Rightarrow>
     ('d, 'f) world \<Rightarrow> int \<times> ('d, 'f) world" where
  "write_mapping_objects L slave_idx pdo_map_idx mapped_objects num_mapped_objects i w =
     (if i < unat num_mapped_objects then
        (case soem_interface_write_sdo L slave_idx pdo_map_idx (of_nat (i + 1)) 4
                (mapped_objects ! i) w of
           (rc, w') \<Rightarrow>
             if rc \<noteq> 0 then (-1, w')
             else write_mapping_objects L slave_idx pdo_map_idx mapped_objects
                    num_mapped_objects (i + 1) (usleep 20000 w'))
      else (0, w))"
  by pat_completeness auto
termination
  by (relation "measure (\<lambda>(L, slave_idx, pdo_map_idx, mapped_objects, num_mapped_objects, i, w).
                  unat num_mapped_objects - i)") auto

definition zero_val :: "32 word" where "zero_val = 0"
definition original_assign_val :: "32 word" where "original_assign_val = 1"

text \<open>Step 7, lines 632--648.\<close>

definition verify_pdo_mapping ::
  "'d soem_lib \<Rightarrow> 16 word \<Rightarrow> 16 word \<Rightarrow> 8 word \<Rightarrow> ('d, 'f) world \<Rightarrow> int \<times> ('d, 'f) world" where
  "verify_pdo_mapping L slave_idx pdo_map_idx num_mapped_objects w =
     (case soem_interface_read_sdo L slave_idx pdo_map_idx 0x00 1 w of
        ((rc, data), w1) \<Rightarrow>
          if rc = 0 then
            (let verified_num_objects = (ucast data :: 8 word) in
             if verified_num_objects = num_mapped_objects then (0, w1) else (-1, w1))
          else (-1, w1))"

text \<open>Steps 2--7, lines 589--648.\<close>

definition rewrite_pdo_mapping ::
  "'d soem_lib \<Rightarrow> 16 word \<Rightarrow> 16 word \<Rightarrow> 16 word \<Rightarrow> 32 word list \<Rightarrow> 8 word \<Rightarrow>
     ('d, 'f) world \<Rightarrow> int \<times> ('d, 'f) world" where
  "rewrite_pdo_mapping L slave_idx pdo_assign_idx pdo_map_idx mapped_objects num_mapped_objects w =
     (case soem_interface_write_sdo L slave_idx pdo_assign_idx 0x00 1 zero_val w of
        (rc2, w2) \<Rightarrow>
     if rc2 \<noteq> 0 then (-1, w2) else
     (case soem_interface_write_sdo L slave_idx pdo_map_idx 0x00 1 zero_val (usleep 50000 w2) of
        (rc3, w3) \<Rightarrow>
     if rc3 \<noteq> 0 then (-1, w3) else
     (case write_mapping_objects L slave_idx pdo_map_idx mapped_objects num_mapped_objects 0
             (usleep 50000 w3) of
        (rc4, w4) \<Rightarrow>
     if rc4 \<noteq> 0 then (-1, w4) else
     (case soem_interface_write_sdo L slave_idx pdo_map_idx 0x00 1 (ucast num_mapped_objects) w4 of
        (rc5, w5) \<Rightarrow>
     if rc5 \<noteq> 0 then (-1, w5) else
     (case soem_interface_write_sdo L slave_idx pdo_assign_idx 0x00 1 original_assign_val
             (usleep 50000 w5) of
        (rc6, w6) \<Rightarrow>
     if rc6 \<noteq> 0 then (-1, w6) else
     verify_pdo_mapping L slave_idx pdo_map_idx num_mapped_objects (usleep 50000 w6))))))"

definition soem_interface_configure_pdo_mapping_enhanced ::
  "'d soem_lib \<Rightarrow> 16 word \<Rightarrow> 16 word \<Rightarrow> 16 word \<Rightarrow> 32 word list \<Rightarrow> 8 word \<Rightarrow>
     ('d, 'f) world \<Rightarrow> int \<times> ('d, 'f) world" where
  "soem_interface_configure_pdo_mapping_enhanced L slave_idx pdo_assign_idx pdo_map_idx
       mapped_objects num_mapped_objects w =
     (case soem_interface_set_ethercat_state L slave_idx EC_STATE_PRE_OP w of
        (rc, w1) \<Rightarrow>
          if rc \<noteq> 0 then (-1, w1)
          else
            (case current_mapping_matches L slave_idx pdo_map_idx mapped_objects
                    num_mapped_objects (usleep 100000 w1) of
               (mapping_matches, w2) \<Rightarrow>
                 if mapping_matches then (0, w2)
                 else rewrite_pdo_mapping L slave_idx pdo_assign_idx pdo_map_idx
                        mapped_objects num_mapped_objects w2))"

text \<open>The two mapping lists of lines 49--61.\<close>

definition rxpdo_mapping :: "32 word list" where
  "rxpdo_mapping = [0x60400010, 0x60600008, 0x60710010, 0x607A0020]"

definition txpdo_mapping :: "32 word list" where
  "txpdo_mapping = [0x60410010, 0x60610008, 0x60640020, 0x60770010]"

section \<open>Specification-level definitions and observations on traces\<close>

text \<open>The transition planner as the specification words it: the command for each state,
  \<open>None\<close> where no command is needed.\<close>

definition next_command_spec :: "cia402_state \<Rightarrow> 16 word option" where
  "next_command_spec s =
     (if s = CIA402_STATE_FAULT then Some 0x80
      else if s \<in> {CIA402_STATE_NOT_READY, CIA402_STATE_SWITCH_ON_DISABLED,
                    CIA402_STATE_QUICK_STOP_ACTIVE} then Some 0x06
      else if s = CIA402_STATE_READY_TO_SWITCH_ON then Some 0x07
      else if s = CIA402_STATE_SWITCHED_ON then Some 0x0F
      else if s = CIA402_STATE_OPERATION_ENABLED then None
      else Some 0x06)"

text \<open>Observations on a trace: the process-data receptions, and the output images that
  were sent.\<close>

fun is_receive :: "event \<Rightarrow> bool" where
  "is_receive (Receive_processdata t) = True"
| "is_receive e = False"

fun sent_images :: "event list \<Rightarrow> somanet_rx_pdo_enhanced_t option list" where
  "sent_images [] = []"
| "sent_images (Send_processdata img # evs) = img # sent_images evs"
| "sent_images (e # evs) = sent_images evs"

text \<open>The working counter and the input image that one pass of the cyclic loop receives
  from its exchange.\<close>

definition received_wkc :: "'d soem_lib \<Rightarrow> 'f float_ops \<Rightarrow> ('d, 'f) world \<Rightarrow> int" where
  "received_wkc L F w =
     fst (do_receive_processdata L EC_TIMEOUTRET (do_send_processdata L (update_outputs F w)))"

definition received_inputs ::
  "'d soem_lib \<Rightarrow> 'f float_ops \<Rightarrow> ('d, 'f) world \<Rightarrow> somanet_tx_pdo_enhanced_t option" where
  "received_inputs L F w =
     somanet_inputs (snd (do_receive_processdata L EC_TIMEOUTRET
                            (do_send_processdata L (update_outputs F w))))"

text \<open>Kinds of events, and counts on a trace: the attempts of a state transition (each
  attempt makes one check with the timeout EC\_TIMEOUTSTATE; the checks of the intermediate
  transition use twice that timeout) and the requests of a given state.\<close>

fun is_SDOwrite :: "event \<Rightarrow> bool" where
  "is_SDOwrite (SDOwrite slave index subindex sz v) = True"
| "is_SDOwrite e = False"

fun is_SDO :: "event \<Rightarrow> bool" where
  "is_SDO (SDOwrite slave index subindex sz v) = True"
| "is_SDO (SDOread slave index subindex sz) = True"
| "is_SDO e = False"

fun is_state_request :: "event \<Rightarrow> bool" where
  "is_state_request (Writestate slave s) = True"
| "is_state_request (Statecheck slave s timeout) = True"
| "is_state_request e = False"

definition attempts_of :: "16 word \<Rightarrow> 16 word \<Rightarrow> event list \<Rightarrow> nat" where
  "attempts_of slave_idx desired_state evs =
     length (filter (\<lambda>e. e = Statecheck slave_idx desired_state EC_TIMEOUTSTATE) evs)"

definition requests_of :: "16 word \<Rightarrow> 16 word \<Rightarrow> event list \<Rightarrow> nat" where
  "requests_of slave_idx s evs = length (filter (\<lambda>e. e = Writestate slave_idx s) evs)"

text \<open>The value \<^verbatim>\<open>ec_statecheck\<close> returns for the intermediate SAFE\_OP request made from
  a state, and the events of one attempt as the specification describes them: the request,
  the settle interval and the check; then, only after a failed check with OPERATIONAL
  requested and PRE\_OP observed, one request of SAFE\_OP; then, only if its check
  succeeds, one more request of OPERATIONAL.\<close>

definition safe_op_check :: "'d soem_lib \<Rightarrow> 16 word \<Rightarrow> ('d, 'f) world \<Rightarrow> int" where
  "safe_op_check L slave_idx w =
     fst (do_statecheck L slave_idx EC_STATE_SAFE_OP (EC_TIMEOUTSTATE * 2)
            (usleep 200000 (do_writestate L slave_idx
               (set_slave_state slave_idx EC_STATE_SAFE_OP w))))"

definition attempt_events ::
  "'d soem_lib \<Rightarrow> 16 word \<Rightarrow> 16 word \<Rightarrow> ('d, 'f) world \<Rightarrow> event list" where
  "attempt_events L slave_idx desired_state w =
     [Writestate slave_idx desired_state, Usleep 20000,
      Statecheck slave_idx desired_state EC_TIMEOUTSTATE]
     @ (if \<not> fst (request_state L slave_idx desired_state w)
           \<and> desired_state = EC_STATE_OPERATIONAL
           \<and> state (ec_slave (snd (request_state L slave_idx desired_state w)) slave_idx) AND 0x0F
               = EC_STATE_PRE_OP
        then [Writestate slave_idx EC_STATE_SAFE_OP, Usleep 200000,
              Statecheck slave_idx EC_STATE_SAFE_OP (EC_TIMEOUTSTATE * 2)]
             @ (if safe_op_check L slave_idx (snd (request_state L slave_idx desired_state w)) > 0
                then [Writestate slave_idx EC_STATE_OPERATIONAL, Usleep 200000,
                      Statecheck slave_idx EC_STATE_OPERATIONAL (EC_TIMEOUTSTATE * 2)]
                else [])
        else [])"

text \<open>
  The retry discipline as the specification gives it. \<open>attempt_start\<close> is the state in which
  attempt k (counted from 0) starts when the attempts before it have failed: a failed
  attempt is followed by a pause of 50 ms and by the next attempt. \<open>run_events\<close> lists the
  events of the attempts 0 to n with the pauses between them. \<open>final_op_check\<close> is the value
  \<^verbatim>\<open>ec_statecheck\<close> returns for the second request of OPERATIONAL, made after the
  intermediate SAFE\_OP request from a state. \<open>attempt_succeeds\<close> is the outcome of one
  attempt: its first check confirms the requested state, or that check failed with
  OPERATIONAL requested and PRE\_OP observed and both checks of the escalation returned a
  positive value.
\<close>

fun attempt_start ::
  "'d soem_lib \<Rightarrow> 16 word \<Rightarrow> 16 word \<Rightarrow> ('d, 'f) world \<Rightarrow> nat \<Rightarrow> ('d, 'f) world" where
  "attempt_start L slave_idx desired_state w 0 = w"
| "attempt_start L slave_idx desired_state w (Suc k) =
     usleep 50000 (snd (set_state_attempt L slave_idx desired_state
                          (attempt_start L slave_idx desired_state w k)))"

fun run_events ::
  "'d soem_lib \<Rightarrow> 16 word \<Rightarrow> 16 word \<Rightarrow> ('d, 'f) world \<Rightarrow> nat \<Rightarrow> event list" where
  "run_events L slave_idx desired_state w 0 = attempt_events L slave_idx desired_state w"
| "run_events L slave_idx desired_state w (Suc n) =
     run_events L slave_idx desired_state w n @ [Usleep 50000]
     @ attempt_events L slave_idx desired_state (attempt_start L slave_idx desired_state w (Suc n))"

definition final_op_check :: "'d soem_lib \<Rightarrow> 16 word \<Rightarrow> ('d, 'f) world \<Rightarrow> int" where
  "final_op_check L slave_idx w =
     fst (do_statecheck L slave_idx EC_STATE_OPERATIONAL (EC_TIMEOUTSTATE * 2)
            (usleep 200000 (do_writestate L slave_idx
               (set_slave_state slave_idx EC_STATE_OPERATIONAL
                  (snd (do_statecheck L slave_idx EC_STATE_SAFE_OP (EC_TIMEOUTSTATE * 2)
                          (usleep 200000 (do_writestate L slave_idx
                             (set_slave_state slave_idx EC_STATE_SAFE_OP w)))))))))"

definition attempt_succeeds ::
  "'d soem_lib \<Rightarrow> 16 word \<Rightarrow> 16 word \<Rightarrow> ('d, 'f) world \<Rightarrow> bool" where
  "attempt_succeeds L slave_idx desired_state w =
     (fst (request_state L slave_idx desired_state w)
      \<or> (desired_state = EC_STATE_OPERATIONAL
         \<and> state (ec_slave (snd (request_state L slave_idx desired_state w)) slave_idx) AND 0x0F
             = EC_STATE_PRE_OP
         \<and> safe_op_check L slave_idx (snd (request_state L slave_idx desired_state w)) > 0
         \<and> final_op_check L slave_idx (snd (request_state L slave_idx desired_state w)) > 0))"

text \<open>
  The rewrite of a mapping as the specification gives it: an ordered list of SDO writes,
  each with the pause that follows it, performed in order up to the first write that fails;
  then the entry count is read back and compared. A step is the index, subindex, size and
  value of the write, and the pause in microseconds. The list is: 0 to the assignment
  object, 0 to the entry count of the mapping object, the entries to subindices 1 to N, N to
  the entry count, and 1 to the assignment object.
\<close>

type_synonym write_step = "(16 word \<times> 8 word \<times> nat \<times> 32 word) \<times> nat"

fun run_write_steps ::
  "'d soem_lib \<Rightarrow> 16 word \<Rightarrow> write_step list \<Rightarrow> ('d, 'f) world \<Rightarrow> bool \<times> ('d, 'f) world" where
  "run_write_steps L slave_idx [] w = (True, w)"
| "run_write_steps L slave_idx (((index, subindex, sz, v), pause) # steps) w =
     (case soem_interface_write_sdo L slave_idx index subindex sz v w of
        (rc, w') \<Rightarrow>
          if rc \<noteq> 0 then (False, w')
          else run_write_steps L slave_idx steps (usleep pause w'))"

definition mapping_write_steps ::
  "16 word \<Rightarrow> 16 word \<Rightarrow> 32 word list \<Rightarrow> 8 word \<Rightarrow> write_step list" where
  "mapping_write_steps pdo_assign_idx pdo_map_idx mapped_objects n =
     [((pdo_assign_idx, 0, 1, 0), 50000), ((pdo_map_idx, 0, 1, 0), 50000)]
     @ map (\<lambda>i. ((pdo_map_idx, of_nat (i + 1), 4, mapped_objects ! i), 20000)) [0..<unat n]
     @ [((pdo_map_idx, 0, 1, ucast n), 50000), ((pdo_assign_idx, 0, 1, 1), 50000)]"

definition step_event :: "16 word \<Rightarrow> write_step \<Rightarrow> event" where
  "step_event slave_idx st =
     (case st of ((index, subindex, sz, v), pause) \<Rightarrow> SDOwrite slave_idx index subindex sz v)"

definition read_back_count ::
  "'d soem_lib \<Rightarrow> 16 word \<Rightarrow> 16 word \<Rightarrow> 8 word \<Rightarrow> ('d, 'f) world \<Rightarrow> int \<times> ('d, 'f) world" where
  "read_back_count L slave_idx pdo_map_idx n w =
     (case ec_SDOread L slave_idx pdo_map_idx 0 1 (lib w) of
        ((wkc_sdo, data), d) \<Rightarrow>
          (if wkc_sdo \<noteq> 0 \<and> ucast data = n then 0 else -1,
           w\<lparr>lib := d, trace := trace w @ [SDOread slave_idx pdo_map_idx 0 1]\<rparr>))"

definition negotiate_rewrite_spec ::
  "'d soem_lib \<Rightarrow> 16 word \<Rightarrow> 16 word \<Rightarrow> 16 word \<Rightarrow> 32 word list \<Rightarrow> 8 word \<Rightarrow>
     ('d, 'f) world \<Rightarrow> int \<times> ('d, 'f) world" where
  "negotiate_rewrite_spec L slave_idx pdo_assign_idx pdo_map_idx mapped_objects n w =
     (case run_write_steps L slave_idx
             (mapping_write_steps pdo_assign_idx pdo_map_idx mapped_objects n) w of
        (True, w') \<Rightarrow> read_back_count L slave_idx pdo_map_idx n w'
      | (False, w') \<Rightarrow> (-1, w'))"

section \<open>Reference drives and a sample state\<close>

text \<open>
  Two behaviours of the library for evaluating the model on concrete inputs. \<open>od_lib\<close> is a
  drive that stores what is written to its object dictionary, reports it back, and reaches
  every requested state. \<open>fixed_lib\<close> answers every call with a fixed result: the working
  counter of SDO transfers, the value \<^verbatim>\<open>ec_statecheck\<close> returns, the state the slave reports,
  the working counter of the process-data exchange and the input image. \<open>int_float_ops\<close>
  stands in for the float operations with integers. \<open>rejecting_lib\<close> is the
  object-dictionary drive with every SDO write refused: the working counter is 0 and the
  dictionary keeps its content.
\<close>

record od_drive =
  od :: "16 word \<times> 8 word \<Rightarrow> 32 word"
  al_state :: "16 word"
  input_image :: somanet_tx_pdo_enhanced_t

definition od_lib :: "od_drive soem_lib" where
  "od_lib =
     \<lparr>ec_SDOwrite = (\<lambda>slave index subindex size v d. (1, d\<lparr>od := (od d)((index, subindex) := v)\<rparr>)),
      ec_SDOread = (\<lambda>slave index subindex size d. ((1, od d (index, subindex)), d)),
      ec_writestate = (\<lambda>slave s d. d\<lparr>al_state := s\<rparr>),
      ec_statecheck = (\<lambda>slave reqstate timeout entry d.
         ((uint (al_state d), entry\<lparr>state := al_state d\<rparr>), d)),
      ec_send_processdata = (\<lambda>img d. d),
      ec_receive_processdata = (\<lambda>timeout d. ((3, input_image d), d))\<rparr>"

definition rejecting_lib :: "od_drive soem_lib" where
  "rejecting_lib = od_lib\<lparr>ec_SDOwrite := (\<lambda>slave index subindex sz v d. (0, d))\<rparr>"

definition fixed_lib ::
  "int \<Rightarrow> int \<Rightarrow> 16 word \<Rightarrow> int \<Rightarrow> somanet_tx_pdo_enhanced_t \<Rightarrow> unit soem_lib" where
  "fixed_lib sdo_wkc check_ret al pd_wkc img =
     \<lparr>ec_SDOwrite = (\<lambda>slave index subindex size v d. (sdo_wkc, d)),
      ec_SDOread = (\<lambda>slave index subindex size d. ((sdo_wkc, 0), d)),
      ec_writestate = (\<lambda>slave s d. d),
      ec_statecheck = (\<lambda>slave reqstate timeout entry d. ((check_ret, entry\<lparr>state := al\<rparr>), d)),
      ec_send_processdata = (\<lambda>img d. d),
      ec_receive_processdata = (\<lambda>timeout d. ((pd_wkc, img), d))\<rparr>"

definition int_float_ops :: "int float_ops" where
  "int_float_ops = \<lparr>f_mul = (*), f_1000 = 1000, f_to_int16 = word_of_int, f_of_int32 = sint\<rparr>"

definition image0 :: "16 word \<Rightarrow> somanet_tx_pdo_enhanced_t" where
  "image0 sw = \<lparr>statusword = sw, position_actual_value = 0, velocity_actual_value = 0\<rparr>"

text \<open>\<open>settling_lib n\<close> counts the state checks made so far: a check fails, reporting INIT,
  until \<open>n\<close> checks have been made, and from then on succeeds, reporting the requested
  state.\<close>

definition settling_lib :: "nat \<Rightarrow> nat soem_lib" where
  "settling_lib n =
     \<lparr>ec_SDOwrite = (\<lambda>slave index subindex sz v c. (1, c)),
      ec_SDOread = (\<lambda>slave index subindex sz c. ((1, 0), c)),
      ec_writestate = (\<lambda>slave s c. c),
      ec_statecheck = (\<lambda>slave reqstate timeout entry c.
         ((if n \<le> c then 1 else 0,
           entry\<lparr>state := (if n \<le> c then reqstate else EC_STATE_INIT)\<rparr>), c + 1)),
      ec_send_processdata = (\<lambda>img c. c),
      ec_receive_processdata = (\<lambda>timeout c. ((3, image0 0), c))\<rparr>"

definition world0 :: "'d \<Rightarrow> ('d, int) world" where
  "world0 d =
     \<lparr>lib = d,
      ec_slave = (\<lambda>slave. \<lparr>state = EC_STATE_INIT, ALstatuscode = 0\<rparr>),
      somanet_outputs = Some \<lparr>controlword = 6, modes_of_operation = 4, target_torque = 0\<rparr>,
      somanet_inputs = Some (image0 0x0040),
      wkc = 0, expectedWKC = 3, communication_ok = 0,
      target_torque_f = 0, current_position_f = 0, current_velocity_f = 0,
      current_cia402_state = CIA402_STATE_NOT_READY,
      current_statusword = 0, current_controlword = 0,
      trace = []\<rparr>"

text \<open>A reference drive whose RxPDO assignment object holds 2 and whose mapping object is
  empty; the content of an object dictionary after a list of writes; and what a successful
  negotiation leaves in the object dictionary.\<close>

fun store_steps ::
  "(16 word \<times> 8 word \<Rightarrow> 32 word) \<Rightarrow> write_step list \<Rightarrow> (16 word \<times> 8 word \<Rightarrow> 32 word)" where
  "store_steps f [] = f"
| "store_steps f (((index, subindex, sz, v), pause) # steps) =
     store_steps (f((index, subindex) := v)) steps"

definition drive0 :: od_drive where
  "drive0 = \<lparr>od = (\<lambda>key. if key = (0x1C12, 0) then 2 else 0), al_state = EC_STATE_INIT,
             input_image = image0 0\<rparr>"

text \<open>A start inside PRE\_OP: the drive reports PRE\_OP, the slave entry holds PRE\_OP and
  the AL status code 0x1B left by an earlier fault.\<close>

definition world_pre_op :: "(od_drive, int) world" where
  "world_pre_op =
     (world0 (drive0\<lparr>al_state := EC_STATE_PRE_OP\<rparr>))
       \<lparr>ec_slave := (\<lambda>slave. \<lparr>state = EC_STATE_PRE_OP, ALstatuscode = 0x1B\<rparr>)\<rparr>"

definition mapping_stored ::
  "(16 word \<times> 8 word \<Rightarrow> 32 word) \<Rightarrow> 16 word \<Rightarrow> 32 word list \<Rightarrow> 8 word \<Rightarrow> bool" where
  "mapping_stored f m ms n =
     ((ucast (f (m, 0)) :: 8 word) = n
      \<and> (\<forall>j. 0 \<le> j \<and> j < unat n \<longrightarrow> f (m, of_nat (j + 1)) = ms ! j))"

section \<open>Status decoder\<close>

lemma fault_bit_test: "(w AND CIA402_STATUSWORD_FAULT \<noteq> 0) = bit w 3" for w :: "16 word"
  using bit_iff_and_push_bit_not_eq_0 [of w 3]
  by (simp add: CIA402_STATUSWORD_FAULT_def)

text \<open>
  C2. For every 16-bit statusword the decoder masks the input with 0x6F and follows the
  fixed table (0x00 NotReady, 0x40 SwitchOnDisabled, 0x21 ReadyToSwitchOn, 0x23 SwitchedOn,
  0x27 OperationEnabled, 0x07 QuickStopActive, 0x0F FaultReactionActive, 0x08 Fault); a
  masked pattern outside the table decodes to Fault when bit 3 is set and to NotReady
  otherwise. The decoder is a function of the statusword alone.
\<close>

theorem get_cia402_state_decodes_table:
  "get_cia402_state sw = decode_spec sw"
  unfolding get_cia402_state_def decode_spec_def decode_table_def Let_def fault_bit_test
  by simp

lemma decode_examples:
  "get_cia402_state 0x0231 = CIA402_STATE_READY_TO_SWITCH_ON"
  "get_cia402_state 0x0040 = CIA402_STATE_SWITCH_ON_DISABLED"
  "get_cia402_state 0x0027 = CIA402_STATE_OPERATION_ENABLED"
  "get_cia402_state 0x0008 = CIA402_STATE_FAULT"
  by (simp_all add: get_cia402_state_def CIA402_STATUSWORD_FAULT_def)

theorem get_cia402_state_decodes_table_witness:
  "get_cia402_state 0x0231 = CIA402_STATE_READY_TO_SWITCH_ON
   \<and> decode_spec 0x0231 = CIA402_STATE_READY_TO_SWITCH_ON"
  using get_cia402_state_decodes_table [of "0x0231"] by (simp add: decode_examples)

section \<open>Effects of the primitive operations\<close>

declare transition_loop.simps [simp del]

lemma usleep_simps [simp]:
  "trace (usleep n w) = trace w @ [Usleep n]"
  "lib (usleep n w) = lib w"
  "ec_slave (usleep n w) = ec_slave w"
  "somanet_outputs (usleep n w) = somanet_outputs w"
  "somanet_inputs (usleep n w) = somanet_inputs w"
  "wkc (usleep n w) = wkc w"
  "expectedWKC (usleep n w) = expectedWKC w"
  "communication_ok (usleep n w) = communication_ok w"
  "target_torque_f (usleep n w) = target_torque_f w"
  "current_position_f (usleep n w) = current_position_f w"
  "current_velocity_f (usleep n w) = current_velocity_f w"
  "current_cia402_state (usleep n w) = current_cia402_state w"
  "current_statusword (usleep n w) = current_statusword w"
  "current_controlword (usleep n w) = current_controlword w"
  by (simp_all add: usleep_def)

lemma send_simps [simp]:
  "trace (do_send_processdata L w) = trace w @ [Send_processdata (somanet_outputs w)]"
  "ec_slave (do_send_processdata L w) = ec_slave w"
  "somanet_outputs (do_send_processdata L w) = somanet_outputs w"
  "somanet_inputs (do_send_processdata L w) = somanet_inputs w"
  "wkc (do_send_processdata L w) = wkc w"
  "expectedWKC (do_send_processdata L w) = expectedWKC w"
  "communication_ok (do_send_processdata L w) = communication_ok w"
  "target_torque_f (do_send_processdata L w) = target_torque_f w"
  "current_position_f (do_send_processdata L w) = current_position_f w"
  "current_velocity_f (do_send_processdata L w) = current_velocity_f w"
  "current_cia402_state (do_send_processdata L w) = current_cia402_state w"
  "current_statusword (do_send_processdata L w) = current_statusword w"
  "current_controlword (do_send_processdata L w) = current_controlword w"
  by (simp_all add: do_send_processdata_def)

lemma receive_simps [simp]:
  "trace (snd (do_receive_processdata L t w)) = trace w @ [Receive_processdata t]"
  "ec_slave (snd (do_receive_processdata L t w)) = ec_slave w"
  "somanet_outputs (snd (do_receive_processdata L t w)) = somanet_outputs w"
  "(somanet_inputs (snd (do_receive_processdata L t w)) = None) = (somanet_inputs w = None)"
  "wkc (snd (do_receive_processdata L t w)) = wkc w"
  "expectedWKC (snd (do_receive_processdata L t w)) = expectedWKC w"
  "communication_ok (snd (do_receive_processdata L t w)) = communication_ok w"
  "target_torque_f (snd (do_receive_processdata L t w)) = target_torque_f w"
  "current_position_f (snd (do_receive_processdata L t w)) = current_position_f w"
  "current_velocity_f (snd (do_receive_processdata L t w)) = current_velocity_f w"
  "current_cia402_state (snd (do_receive_processdata L t w)) = current_cia402_state w"
  "current_statusword (snd (do_receive_processdata L t w)) = current_statusword w"
  "current_controlword (snd (do_receive_processdata L t w)) = current_controlword w"
  by (simp_all add: do_receive_processdata_def split: prod.splits)

lemma statecheck_simps [simp]:
  "trace (snd (do_statecheck L s q t w)) = trace w @ [Statecheck s q t]"
  "somanet_outputs (snd (do_statecheck L s q t w)) = somanet_outputs w"
  "somanet_inputs (snd (do_statecheck L s q t w)) = somanet_inputs w"
  "wkc (snd (do_statecheck L s q t w)) = wkc w"
  "expectedWKC (snd (do_statecheck L s q t w)) = expectedWKC w"
  "communication_ok (snd (do_statecheck L s q t w)) = communication_ok w"
  "target_torque_f (snd (do_statecheck L s q t w)) = target_torque_f w"
  "current_position_f (snd (do_statecheck L s q t w)) = current_position_f w"
  "current_velocity_f (snd (do_statecheck L s q t w)) = current_velocity_f w"
  "current_cia402_state (snd (do_statecheck L s q t w)) = current_cia402_state w"
  "current_statusword (snd (do_statecheck L s q t w)) = current_statusword w"
  "current_controlword (snd (do_statecheck L s q t w)) = current_controlword w"
  by (simp_all add: do_statecheck_def split: prod.splits)

lemma update_outputs_simps [simp]:
  "trace (update_outputs F w) = trace w"
  "lib (update_outputs F w) = lib w"
  "ec_slave (update_outputs F w) = ec_slave w"
  "somanet_inputs (update_outputs F w) = somanet_inputs w"
  "wkc (update_outputs F w) = wkc w"
  "expectedWKC (update_outputs F w) = expectedWKC w"
  "communication_ok (update_outputs F w) = communication_ok w"
  "target_torque_f (update_outputs F w) = target_torque_f w"
  "current_position_f (update_outputs F w) = current_position_f w"
  "current_velocity_f (update_outputs F w) = current_velocity_f w"
  "current_cia402_state (update_outputs F w) = current_cia402_state w"
  "current_statusword (update_outputs F w) = current_statusword w"
  "current_controlword (update_outputs F w) = current_controlword w"
  by (simp_all add: update_outputs_def Let_def split: option.splits)

lemma update_outputs_torque:
  "map_option target_torque (somanet_outputs (update_outputs F w)) =
     map_option (\<lambda>_. if current_cia402_state w = CIA402_STATE_OPERATION_ENABLED
                       then f_to_int16 F (f_mul F (target_torque_f w) (f_1000 F)) else 0)
       (somanet_outputs w)"
  by (simp add: update_outputs_def Let_def split: option.splits)

lemma update_inputs_simps [simp]:
  "trace (update_inputs F w) = trace w"
  "lib (update_inputs F w) = lib w"
  "ec_slave (update_inputs F w) = ec_slave w"
  "somanet_inputs (update_inputs F w) = somanet_inputs w"
  "somanet_outputs (update_inputs F w) = somanet_outputs w"
  "wkc (update_inputs F w) = wkc w"
  "expectedWKC (update_inputs F w) = expectedWKC w"
  "communication_ok (update_inputs F w) = communication_ok w"
  "target_torque_f (update_inputs F w) = target_torque_f w"
  "current_controlword (update_inputs F w) = current_controlword w"
  by (simp_all add: update_inputs_def Let_def split: option.splits)

lemma update_inputs_fields:
  "somanet_inputs w = Some inputs \<Longrightarrow>
     current_statusword (update_inputs F w) = statusword inputs
     \<and> current_cia402_state (update_inputs F w) = get_cia402_state (statusword inputs)
     \<and> current_position_f (update_inputs F w) = f_of_int32 F (position_actual_value inputs)
     \<and> current_velocity_f (update_inputs F w) = f_of_int32 F (velocity_actual_value inputs)"
  by (simp add: update_inputs_def Let_def)

lemma sent_images_append [simp]: "sent_images (xs @ ys) = sent_images xs @ sent_images ys"
  by (induction xs rule: sent_images.induct) simp_all

section \<open>Transition planner\<close>

lemma transition_controlword_spec:
  "s \<noteq> CIA402_STATE_OPERATION_ENABLED \<Longrightarrow> next_command_spec s = Some (transition_controlword s)"
  by (cases s) (simp_all add: next_command_spec_def transition_controlword_def
      CIA402_CONTROLWORD_FAULT_RESET_def)

lemma attempt_enabled:
  assumes "somanet_inputs w = Some inputs"
    and "get_cia402_state (statusword inputs) = CIA402_STATE_OPERATION_ENABLED"
  shows "cia402_transition_attempt L w =
           Inl (0, w\<lparr>current_statusword := statusword inputs,
                     current_cia402_state := CIA402_STATE_OPERATION_ENABLED\<rparr>)"
  using assms by (simp add: cia402_transition_attempt_def Let_def)

lemma attempt_command:
  assumes "somanet_inputs w = Some inputs"
    and "get_cia402_state (statusword inputs) \<noteq> CIA402_STATE_OPERATION_ENABLED"
  shows "\<exists>w'. cia402_transition_attempt L w = Inr w'
           \<and> current_controlword w' = transition_controlword (get_cia402_state (statusword inputs))
           \<and> somanet_outputs w' =
               map_option (\<lambda>outputs. outputs\<lparr>controlword :=
                   transition_controlword (get_cia402_state (statusword inputs))\<rparr>) (somanet_outputs w)
           \<and> trace w' = trace w @ [Send_processdata (somanet_outputs w'),
                 Receive_processdata EC_TIMEOUTRET, Usleep 5000]
           \<and> current_cia402_state w' = get_cia402_state (statusword inputs)
           \<and> current_statusword w' = statusword inputs
           \<and> expectedWKC w' = expectedWKC w \<and> communication_ok w' = communication_ok w
           \<and> current_position_f w' = current_position_f w
           \<and> current_velocity_f w' = current_velocity_f w
           \<and> target_torque_f w' = target_torque_f w
           \<and> ec_slave w' = ec_slave w
           \<and> (somanet_inputs w' \<noteq> None)"
  using assms
  by (cases "somanet_outputs w")
     (auto simp add: cia402_transition_attempt_def Let_def do_receive_processdata_def
       split: prod.splits)

text \<open>
  C3. For every CiA402 state decoded from the input image, one pass of the drive-to-enabled
  loop emits the controlword of the transition graph: Fault gives FaultReset (0x80);
  NotReady, SwitchOnDisabled and QuickStopActive give Shutdown (0x06); ReadyToSwitchOn gives
  SwitchOn (0x07); SwitchedOn gives EnableOperation (0x0F); every other state but
  OperationEnabled gives Shutdown (0x06). The controlword is stored, written to the output
  image and sent in one exchange. For OperationEnabled the pass returns success and emits
  nothing. The separate function \<^verbatim>\<open>get_cia402_controlword_for_transition\<close> gives the same
  controlwords for Fault, NotReady, SwitchOnDisabled, QuickStopActive and
  FaultReactionActive whatever its target, and for ReadyToSwitchOn and SwitchedOn when the
  target is the next state of the graph.
\<close>

theorem transition_attempt_follows_graph:
  assumes "somanet_inputs w = Some inputs"
  shows "(case next_command_spec (get_cia402_state (statusword inputs)) of
            None \<Rightarrow>
              (\<exists>w'. cia402_transition_attempt L w = Inl (0, w')
                 \<and> current_controlword w' = current_controlword w
                 \<and> somanet_outputs w' = somanet_outputs w \<and> trace w' = trace w)
          | Some cw \<Rightarrow>
              (\<exists>w'. cia402_transition_attempt L w = Inr w'
                 \<and> current_controlword w' = cw
                 \<and> somanet_outputs w' =
                     map_option (\<lambda>outputs. outputs\<lparr>controlword := cw\<rparr>) (somanet_outputs w)
                 \<and> trace w' = trace w @ [Send_processdata (somanet_outputs w'),
                       Receive_processdata EC_TIMEOUTRET, Usleep 5000]))
         \<and> get_cia402_controlword_for_transition CIA402_STATE_FAULT t = 0x80
         \<and> get_cia402_controlword_for_transition CIA402_STATE_NOT_READY t = 0x06
         \<and> get_cia402_controlword_for_transition CIA402_STATE_SWITCH_ON_DISABLED t = 0x06
         \<and> get_cia402_controlword_for_transition CIA402_STATE_QUICK_STOP_ACTIVE t = 0x06
         \<and> get_cia402_controlword_for_transition CIA402_STATE_FAULT_REACTION_ACTIVE t = 0x06
         \<and> get_cia402_controlword_for_transition CIA402_STATE_READY_TO_SWITCH_ON
              CIA402_STATE_SWITCHED_ON = 0x07
         \<and> get_cia402_controlword_for_transition CIA402_STATE_SWITCHED_ON
              CIA402_STATE_OPERATION_ENABLED = 0x0F"
proof -
  let ?s = "get_cia402_state (statusword inputs)"
  have planner: "(case next_command_spec ?s of
            None \<Rightarrow>
              (\<exists>w'. cia402_transition_attempt L w = Inl (0, w')
                 \<and> current_controlword w' = current_controlword w
                 \<and> somanet_outputs w' = somanet_outputs w \<and> trace w' = trace w)
          | Some cw \<Rightarrow>
              (\<exists>w'. cia402_transition_attempt L w = Inr w'
                 \<and> current_controlword w' = cw
                 \<and> somanet_outputs w' =
                     map_option (\<lambda>outputs. outputs\<lparr>controlword := cw\<rparr>) (somanet_outputs w)
                 \<and> trace w' = trace w @ [Send_processdata (somanet_outputs w'),
                       Receive_processdata EC_TIMEOUTRET, Usleep 5000]))"
  proof (cases "?s = CIA402_STATE_OPERATION_ENABLED")
    case True
    then show ?thesis
      using attempt_enabled [OF assms True, of L] by (simp add: next_command_spec_def)
  next
    case False
    from attempt_command [OF assms False, of L] obtain w' where
      "cia402_transition_attempt L w = Inr w'"
      "current_controlword w' = transition_controlword ?s"
      "somanet_outputs w' = map_option (\<lambda>outputs. outputs\<lparr>controlword :=
                   transition_controlword ?s\<rparr>) (somanet_outputs w)"
      "trace w' = trace w @ [Send_processdata (somanet_outputs w'),
                 Receive_processdata EC_TIMEOUTRET, Usleep 5000]"
      by blast
    then show ?thesis
      by (simp add: transition_controlword_spec [OF False])
  qed
  show ?thesis
    using planner by (simp add: get_cia402_controlword_for_transition_def)
qed

theorem transition_attempt_follows_graph_witness:
  "\<exists>w'. cia402_transition_attempt (fixed_lib 1 1 8 3 (image0 0x0231))
           ((world0 ())\<lparr>somanet_inputs := Some (image0 0x0231)\<rparr>) = Inr w'
       \<and> current_controlword w' = 0x07
       \<and> map_option controlword (somanet_outputs w') = Some 0x07"
proof -
  have "somanet_inputs ((world0 ())\<lparr>somanet_inputs := Some (image0 0x0231)\<rparr>) = Some (image0 0x0231)"
    by simp
  from transition_attempt_follows_graph [OF this,
      where L = "fixed_lib 1 1 8 3 (image0 0x0231)" and t = CIA402_STATE_FAULT]
  have "\<exists>w'. cia402_transition_attempt (fixed_lib 1 1 8 3 (image0 0x0231))
           ((world0 ())\<lparr>somanet_inputs := Some (image0 0x0231)\<rparr>) = Inr w'
         \<and> current_controlword w' = 0x07
         \<and> somanet_outputs w' = map_option (\<lambda>outputs. outputs\<lparr>controlword := 0x07\<rparr>)
               (somanet_outputs ((world0 ())\<lparr>somanet_inputs := Some (image0 0x0231)\<rparr>))"
    by (auto simp add: image0_def decode_examples next_command_spec_def)
  then show ?thesis
    by (auto simp add: world0_def)
qed

section \<open>Drive to Operation Enabled\<close>

lemma attempt_Inl:
  assumes "cia402_transition_attempt L w = Inl (r, w')"
  shows "(r = -1 \<and> w' = w \<and> somanet_inputs w = None)
       \<or> (r = 0 \<and> (\<exists>inputs. somanet_inputs w = Some inputs
              \<and> get_cia402_state (statusword inputs) = CIA402_STATE_OPERATION_ENABLED
              \<and> w' = w\<lparr>current_statusword := statusword inputs,
                     current_cia402_state := CIA402_STATE_OPERATION_ENABLED\<rparr>))"
proof (cases "somanet_inputs w")
  case None
  with assms show ?thesis by (simp add: cia402_transition_attempt_def)
next
  case (Some inputs)
  show ?thesis
  proof (cases "get_cia402_state (statusword inputs) = CIA402_STATE_OPERATION_ENABLED")
    case True
    from attempt_enabled [OF Some True, of L] assms Some True show ?thesis by simp
  next
    case False
    from attempt_command [OF Some False, of L] assms show ?thesis by auto
  qed
qed

lemma attempt_Inr:
  assumes "cia402_transition_attempt L w = Inr w1"
  shows "\<exists>inputs. somanet_inputs w = Some inputs
           \<and> get_cia402_state (statusword inputs) \<noteq> CIA402_STATE_OPERATION_ENABLED
           \<and> current_controlword w1 = transition_controlword (get_cia402_state (statusword inputs))
           \<and> somanet_outputs w1 =
               map_option (\<lambda>outputs. outputs\<lparr>controlword :=
                   transition_controlword (get_cia402_state (statusword inputs))\<rparr>) (somanet_outputs w)
           \<and> trace w1 = trace w @ [Send_processdata (somanet_outputs w1),
                 Receive_processdata EC_TIMEOUTRET, Usleep 5000]
           \<and> expectedWKC w1 = expectedWKC w \<and> communication_ok w1 = communication_ok w
           \<and> current_position_f w1 = current_position_f w
           \<and> current_velocity_f w1 = current_velocity_f w
           \<and> target_torque_f w1 = target_torque_f w
           \<and> ec_slave w1 = ec_slave w
           \<and> somanet_inputs w1 \<noteq> None"
proof (cases "somanet_inputs w")
  case None
  with assms show ?thesis by (simp add: cia402_transition_attempt_def)
next
  case (Some inputs)
  show ?thesis
  proof (cases "get_cia402_state (statusword inputs) = CIA402_STATE_OPERATION_ENABLED")
    case True
    from attempt_enabled [OF Some True, of L] assms show ?thesis by simp
  next
    case False
    from attempt_command [OF Some False, of L] assms Some False show ?thesis by auto
  qed
qed

lemma transition_loop_frame:
  "transition_loop L a w = (r, w') \<Longrightarrow>
     expectedWKC w' = expectedWKC w \<and> communication_ok w' = communication_ok w
     \<and> current_position_f w' = current_position_f w
     \<and> current_velocity_f w' = current_velocity_f w
     \<and> target_torque_f w' = target_torque_f w
     \<and> ec_slave w' = ec_slave w
     \<and> map_option target_torque (somanet_outputs w') = map_option target_torque (somanet_outputs w)
     \<and> (r = 0 \<or> r = -1)"
proof (induction L a w rule: transition_loop.induct)
  case (1 L attempt w)
  show ?case
  proof (cases "attempt < max_attempts")
    case False
    with "1.prems" show ?thesis by (simp add: transition_loop.simps)
  next
    case True
    show ?thesis
    proof (cases "cia402_transition_attempt L w")
      case (Inl res)
      with True "1.prems" have "cia402_transition_attempt L w = Inl (r, w')"
        by (simp add: transition_loop.simps)
      from attempt_Inl [OF this] show ?thesis by auto
    next
      case (Inr w1)
      with True "1.prems" have run: "transition_loop L (attempt + 1) w1 = (r, w')"
        by (simp add: transition_loop.simps)
      from attempt_Inr [OF Inr] "1.IH" [OF True Inr run] show ?thesis
        by (auto simp: option.map_comp comp_def)
    qed
  qed
qed

lemma transition_loop_trace:
  "transition_loop L a w = (r, w') \<Longrightarrow>
     \<exists>evs. trace w' = trace w @ evs
       \<and> length (filter is_receive evs) \<le> max_attempts - a
       \<and> length (filter (\<lambda>e. e = Usleep 5000) evs) = length (filter is_receive evs)
       \<and> length (sent_images evs) = length (filter is_receive evs)
       \<and> (r = -1 \<and> somanet_inputs w \<noteq> None \<longrightarrow> length (filter is_receive evs) = max_attempts - a)
       \<and> list_all (\<lambda>img. map_option target_torque img = map_option target_torque (somanet_outputs w))
            (sent_images evs)"
proof (induction L a w rule: transition_loop.induct)
  case (1 L attempt w)
  show ?case
  proof (cases "attempt < max_attempts")
    case False
    with "1.prems" show ?thesis by (simp add: transition_loop.simps)
  next
    case True
    show ?thesis
    proof (cases "cia402_transition_attempt L w")
      case (Inl res)
      with True "1.prems" have "cia402_transition_attempt L w = Inl (r, w')"
        by (simp add: transition_loop.simps)
      from attempt_Inl [OF this] show ?thesis by auto
    next
      case (Inr w1)
      with True "1.prems" have run: "transition_loop L (attempt + 1) w1 = (r, w')"
        by (simp add: transition_loop.simps)
      from "1.IH" [OF True Inr run] obtain evs where evs:
        "trace w' = trace w1 @ evs"
        "length (filter is_receive evs) \<le> max_attempts - (attempt + 1)"
        "length (filter (\<lambda>e. e = Usleep 5000) evs) = length (filter is_receive evs)"
        "length (sent_images evs) = length (filter is_receive evs)"
        "r = -1 \<and> somanet_inputs w1 \<noteq> None \<longrightarrow> length (filter is_receive evs) = max_attempts - (attempt + 1)"
        "list_all (\<lambda>img. map_option target_torque img = map_option target_torque (somanet_outputs w1))
            (sent_images evs)"
        by blast
      from attempt_Inr [OF Inr] obtain inputs where a:
        "somanet_inputs w = Some inputs"
        "somanet_outputs w1 =
               map_option (\<lambda>outputs. outputs\<lparr>controlword :=
                   transition_controlword (get_cia402_state (statusword inputs))\<rparr>) (somanet_outputs w)"
        "trace w1 = trace w @ [Send_processdata (somanet_outputs w1),
                 Receive_processdata EC_TIMEOUTRET, Usleep 5000]"
        "somanet_inputs w1 \<noteq> None"
        by blast
      have tq: "map_option target_torque (somanet_outputs w1) = map_option target_torque (somanet_outputs w)"
        using a(2) by (simp add: option.map_comp comp_def)
      let ?evs = "[Send_processdata (somanet_outputs w1),
                 Receive_processdata EC_TIMEOUTRET, Usleep 5000] @ evs"
      have "trace w' = trace w @ ?evs" using evs(1) a(3) by simp
      moreover have "length (filter is_receive ?evs) \<le> max_attempts - attempt"
        using evs(2) True by simp
      moreover have "length (filter (\<lambda>e. e = Usleep 5000) ?evs) = length (filter is_receive ?evs)"
        using evs(3) by simp
      moreover have "length (sent_images ?evs) = length (filter is_receive ?evs)"
        using evs(4) by simp
      moreover have "r = -1 \<and> somanet_inputs w \<noteq> None \<longrightarrow> length (filter is_receive ?evs) = max_attempts - attempt"
        using evs(5) a(4) True by auto
      moreover have "list_all (\<lambda>img. map_option target_torque img = map_option target_torque (somanet_outputs w))
            (sent_images ?evs)"
        using evs(6) tq by simp
      ultimately show ?thesis by blast
    qed
  qed
qed

lemma transition_loop_success:
  "transition_loop L a w = (0, w') \<Longrightarrow>
     current_cia402_state w' = CIA402_STATE_OPERATION_ENABLED
     \<and> (\<exists>inputs. somanet_inputs w' = Some inputs \<and> current_statusword w' = statusword inputs
          \<and> get_cia402_state (statusword inputs) = CIA402_STATE_OPERATION_ENABLED)"
proof (induction L a w rule: transition_loop.induct)
  case (1 L attempt w)
  show ?case
  proof (cases "attempt < max_attempts")
    case False
    with "1.prems" show ?thesis by (simp add: transition_loop.simps)
  next
    case True
    show ?thesis
    proof (cases "cia402_transition_attempt L w")
      case (Inl res)
      with True "1.prems" have "cia402_transition_attempt L w = Inl (0, w')"
        by (simp add: transition_loop.simps)
      from attempt_Inl [OF this] show ?thesis by auto
    next
      case (Inr w1)
      with True "1.prems" have run: "transition_loop L (attempt + 1) w1 = (0, w')"
        by (simp add: transition_loop.simps)
      from "1.IH" [OF True Inr run] show ?thesis .
    qed
  qed
qed

lemma transition_loop_immediate:
  assumes "attempt < max_attempts" and "somanet_inputs w = Some inputs"
    and "get_cia402_state (statusword inputs) = CIA402_STATE_OPERATION_ENABLED"
  shows "transition_loop L attempt w =
           (0, w\<lparr>current_statusword := statusword inputs,
                 current_cia402_state := CIA402_STATE_OPERATION_ENABLED\<rparr>)"
  using assms attempt_enabled [OF assms(2,3), of L]
  by (simp add: transition_loop.simps)

text \<open>
  C8. The drive-to-operation-enabled phase is a total function: it returns 0 or -1. It
  performs at most 50 process-data exchanges, each followed by one sleep of 5000
  microseconds. When it returns 0 the decoded state is OperationEnabled, and from any
  attempt below the bound it returns 0 at once, without an exchange, when the input image
  decodes to OperationEnabled. When it returns -1 with an input image available it has
  performed exactly 50 exchanges.
\<close>

theorem drive_to_operation_enabled_terminates:
  assumes run: "perform_cia402_transition_to_operational L slave_idx w = (r, w')"
  shows "(r = 0 \<or> r = -1)
       \<and> (\<exists>evs. trace w' = trace w @ evs
            \<and> length (filter is_receive evs) \<le> 50
            \<and> length (filter (\<lambda>e. e = Usleep 5000) evs) = length (filter is_receive evs)
            \<and> (r = -1 \<and> somanet_inputs w \<noteq> None \<longrightarrow> length (filter is_receive evs) = 50))
       \<and> (r = 0 \<longrightarrow> current_cia402_state w' = CIA402_STATE_OPERATION_ENABLED
            \<and> (\<exists>inputs. somanet_inputs w' = Some inputs
                 \<and> get_cia402_state (statusword inputs) = CIA402_STATE_OPERATION_ENABLED))
       \<and> (\<forall>attempt v inputs. attempt < 50 \<and> somanet_inputs v = Some inputs
              \<and> get_cia402_state (statusword inputs) = CIA402_STATE_OPERATION_ENABLED
            \<longrightarrow> fst (transition_loop L attempt v) = 0
              \<and> trace (snd (transition_loop L attempt v)) = trace v)"
proof -
  from run have loop: "transition_loop L 0 w = (r, w')"
    by (simp add: perform_cia402_transition_to_operational_def)
  have a: "r = 0 \<or> r = -1" using transition_loop_frame [OF loop] by simp
  from transition_loop_trace [OF loop] have b:
    "\<exists>evs. trace w' = trace w @ evs
            \<and> length (filter is_receive evs) \<le> 50
            \<and> length (filter (\<lambda>e. e = Usleep 5000) evs) = length (filter is_receive evs)
            \<and> (r = -1 \<and> somanet_inputs w \<noteq> None \<longrightarrow> length (filter is_receive evs) = 50)"
    by (auto simp add: max_attempts_def)
  have c: "r = 0 \<longrightarrow> current_cia402_state w' = CIA402_STATE_OPERATION_ENABLED
            \<and> (\<exists>inputs. somanet_inputs w' = Some inputs
                 \<and> get_cia402_state (statusword inputs) = CIA402_STATE_OPERATION_ENABLED)"
    using transition_loop_success [of L 0 w w'] loop by auto
  have d: "\<forall>attempt v inputs. attempt < 50 \<and> somanet_inputs v = Some inputs
              \<and> get_cia402_state (statusword inputs) = CIA402_STATE_OPERATION_ENABLED
            \<longrightarrow> fst (transition_loop L attempt v) = 0
              \<and> trace (snd (transition_loop L attempt v)) = trace v"
    by (auto simp add: transition_loop_immediate max_attempts_def)
  from a b c d show ?thesis by blast
qed

lemma fixed_lib_attempt:
  assumes "somanet_inputs w = Some img"
    and "get_cia402_state (statusword img) \<noteq> CIA402_STATE_OPERATION_ENABLED"
  shows "\<exists>w1. cia402_transition_attempt (fixed_lib a b c d img) w = Inr w1
           \<and> somanet_inputs w1 = Some img"
  using assms
  by (simp add: cia402_transition_attempt_def Let_def do_receive_processdata_def
      do_send_processdata_def fixed_lib_def usleep_def split: option.splits)

lemma fixed_lib_never_enabled:
  "L = fixed_lib a b c d img \<Longrightarrow> somanet_inputs w = Some img \<Longrightarrow>
     get_cia402_state (statusword img) \<noteq> CIA402_STATE_OPERATION_ENABLED \<Longrightarrow>
     fst (transition_loop L n w) = -1"
proof (induction L n w rule: transition_loop.induct)
  case (1 L attempt w)
  show ?case
  proof (cases "attempt < max_attempts")
    case False
    then show ?thesis by (simp add: transition_loop.simps)
  next
    case True
    from fixed_lib_attempt [OF "1.prems"(2,3), of a b c d] "1.prems"(1) obtain w1 where
      w1: "cia402_transition_attempt L w = Inr w1" "somanet_inputs w1 = Some img"
      by auto
    from "1.IH" [OF True w1(1) "1.prems"(1) w1(2) "1.prems"(3)] True w1(1) show ?thesis
      by (simp add: transition_loop.simps)
  qed
qed

theorem drive_to_operation_enabled_terminates_witness:
  "fst (perform_cia402_transition_to_operational (fixed_lib 1 1 8 3 (image0 0x0040)) 1 (world0 ()))
     = -1
   \<and> (\<exists>evs. trace (snd (perform_cia402_transition_to_operational
                 (fixed_lib 1 1 8 3 (image0 0x0040)) 1 (world0 ()))) = evs
         \<and> length (filter is_receive evs) = 50
         \<and> length (filter (\<lambda>e. e = Usleep 5000) evs) = 50)
   \<and> fst (perform_cia402_transition_to_operational (fixed_lib 1 1 8 3 (image0 0x0040)) 1
       ((world0 ())\<lparr>somanet_inputs := Some (image0 0x0027)\<rparr>)) = 0"
proof -
  let ?L = "fixed_lib 1 1 8 3 (image0 0x0040)"
  let ?run = "perform_cia402_transition_to_operational ?L 1 (world0 ())"
  have inp: "somanet_inputs (world0 ()) = Some (image0 0x0040)"
    by (simp add: world0_def)
  have dec: "get_cia402_state (statusword (image0 0x0040)) \<noteq> CIA402_STATE_OPERATION_ENABLED"
    "get_cia402_state (statusword (image0 0x0027)) = CIA402_STATE_OPERATION_ENABLED"
    by (simp_all add: image0_def decode_examples)
  have r: "fst ?run = -1"
    using fixed_lib_never_enabled [OF refl inp dec(1), of 1 1 8 3 0]
    by (simp add: perform_cia402_transition_to_operational_def)
  have run: "?run = (fst ?run, snd ?run)" by simp
  have tr: "trace (world0 ()) = []" by (simp add: world0_def)
  have inp2: "somanet_inputs ((world0 ())\<lparr>somanet_inputs := Some (image0 0x0027)\<rparr>)
                = Some (image0 0x0027)" by simp
  note main = drive_to_operation_enabled_terminates [OF run]
  from main r inp tr have counts:
    "\<exists>evs. trace (snd ?run) = evs \<and> length (filter is_receive evs) = 50
        \<and> length (filter (\<lambda>e. e = Usleep 5000) evs) = 50"
    by auto
  from main have "(0::nat) < 50 \<and> somanet_inputs ((world0 ())\<lparr>somanet_inputs := Some (image0 0x0027)\<rparr>)
                = Some (image0 0x0027)
       \<and> get_cia402_state (statusword (image0 0x0027)) = CIA402_STATE_OPERATION_ENABLED
     \<longrightarrow> fst (transition_loop ?L 0 ((world0 ())\<lparr>somanet_inputs := Some (image0 0x0027)\<rparr>)) = 0"
    by blast
  with dec(2) inp2 have "fst (transition_loop ?L 0
      ((world0 ())\<lparr>somanet_inputs := Some (image0 0x0027)\<rparr>)) = 0"
    by simp
  with r counts show ?thesis
    by (simp add: perform_cia402_transition_to_operational_def)
qed

section \<open>Cyclic exchange loop\<close>

lemma classify_wkc_degraded:
  assumes "wkc w < expectedWKC w"
  shows "classify_wkc L F slave_idx (smi, w) = (smi, w\<lparr>communication_ok := 0\<rparr>)"
  using assms by (simp add: classify_wkc_def)

lemma classify_wkc_ok:
  assumes "expectedWKC w \<le> wkc w" and "classify_wkc L F slave_idx (smi, w) = (smi', w')"
  shows "communication_ok w' = 1 \<and> expectedWKC w' = expectedWKC w
     \<and> target_torque_f w' = target_torque_f w
     \<and> map_option target_torque (somanet_outputs w') = map_option target_torque (somanet_outputs w)
     \<and> (\<forall>inputs. somanet_inputs w = Some inputs \<longrightarrow>
           current_position_f w' = f_of_int32 F (position_actual_value inputs)
         \<and> current_velocity_f w' = f_of_int32 F (velocity_actual_value inputs))
     \<and> (\<exists>evs. trace w' = trace w @ evs
           \<and> list_all (\<lambda>img. map_option target_torque img = map_option target_torque (somanet_outputs w))
                (sent_images evs))"
proof -
  let ?w1 = "update_inputs F (w\<lparr>communication_ok := 1\<rparr>)"
  show ?thesis
  proof (cases "\<not> smi \<and> somanet_inputs ?w1 \<noteq> None \<and> somanet_outputs ?w1 \<noteq> None")
    case False
    with assms have "w' = ?w1"
      by (auto simp add: classify_wkc_def Let_def)
    then show ?thesis
      using update_inputs_fields [of "w\<lparr>communication_ok := 1\<rparr>" _ F] by simp
  next
    case True
    obtain rc w2 where run: "perform_cia402_transition_to_operational L slave_idx ?w1 = (rc, w2)"
      by (cases "perform_cia402_transition_to_operational L slave_idx ?w1")
    with True assms have w': "w' = w2"
      by (auto simp add: classify_wkc_def Let_def)
    from run have loop: "transition_loop L 0 ?w1 = (rc, w2)"
      by (simp add: perform_cia402_transition_to_operational_def)
    from transition_loop_frame [OF loop] transition_loop_trace [OF loop] w'
    show ?thesis
      using update_inputs_fields [of "w\<lparr>communication_ok := 1\<rparr>" _ F] by auto
  qed
qed

lemma classify_wkc_sends:
  assumes "classify_wkc L F slave_idx (smi, w) = (smi', w')"
  shows "map_option target_torque (somanet_outputs w') = map_option target_torque (somanet_outputs w)
     \<and> expectedWKC w' = expectedWKC w
     \<and> communication_ok w' = (if wkc w < expectedWKC w then 0 else 1)
     \<and> (\<exists>evs. trace w' = trace w @ evs
           \<and> list_all (\<lambda>img. map_option target_torque img = map_option target_torque (somanet_outputs w))
                (sent_images evs))"
proof (cases "wkc w < expectedWKC w")
  case True
  with assms classify_wkc_degraded [OF True, of L F slave_idx smi] show ?thesis by auto
next
  case False
  then have "expectedWKC w \<le> wkc w" by simp
  from classify_wkc_ok [OF this assms] False show ?thesis by auto
qed

lemma iteration_unfold:
  assumes "ecat_loop_iteration L F slave_idx (smi, w) = (smi', w')"
  obtains w3 w4 w5 w6 where
    "do_receive_processdata L EC_TIMEOUTRET (do_send_processdata L (update_outputs F w))
       = (received_wkc L F w, w3)"
    "w4 = usleep 5000 (w3\<lparr>wkc := received_wkc L F w\<rparr>)"
    "classify_wkc L F slave_idx (smi, w4) = (smi', w5)"
    "w6 = w5 \<or> w6 = snd (do_statecheck L slave_idx EC_STATE_OPERATIONAL EC_TIMEOUTSTATE w5)"
    "w' = usleep 1000 w6"
proof -
  obtain r w3 where rcv:
    "do_receive_processdata L EC_TIMEOUTRET (do_send_processdata L (update_outputs F w)) = (r, w3)"
    by (cases "do_receive_processdata L EC_TIMEOUTRET (do_send_processdata L (update_outputs F w))")
  then have r: "r = received_wkc L F w" by (simp add: received_wkc_def)
  obtain s5 w5 where cl:
    "classify_wkc L F slave_idx (smi, usleep 5000 (w3\<lparr>wkc := r\<rparr>)) = (s5, w5)"
    by (cases "classify_wkc L F slave_idx (smi, usleep 5000 (w3\<lparr>wkc := r\<rparr>))")
  let ?w6 = "if \<not> is_slave_operational slave_idx w5
             then snd (do_statecheck L slave_idx EC_STATE_OPERATIONAL EC_TIMEOUTSTATE w5) else w5"
  from assms rcv cl have "smi' = s5" "w' = usleep 1000 ?w6"
    by (simp_all add: ecat_loop_iteration_def Let_def)
  with rcv cl r that [of w3 "usleep 5000 (w3\<lparr>wkc := r\<rparr>)" w5 ?w6] show thesis
    by (cases "is_slave_operational slave_idx w5") simp_all
qed

lemma received_wkc_fixed [simp]: "received_wkc (fixed_lib a b c d img) F w = d"
  by (simp add: received_wkc_def do_receive_processdata_def fixed_lib_def)

lemma received_inputs_fixed [simp]:
  "received_inputs (fixed_lib a b c d img) F w = map_option (\<lambda>_. img) (somanet_inputs w)"
  by (simp add: received_inputs_def do_receive_processdata_def fixed_lib_def)

text \<open>
  C1. Safety interlock. In every pass of the cyclic loop with an output image, the
  target-torque field of the output image is 0 whenever the CiA402 state at the start of
  the pass is not OperationEnabled, whatever the setpoint; in OperationEnabled it is the
  16-bit cast of the setpoint multiplied by 1000. Every output image sent during the pass
  carries that value, and the image keeps it at the end of the pass.
\<close>

theorem torque_interlock:
  assumes out: "somanet_outputs w = Some outputs"
    and run: "ecat_loop_iteration L F slave_idx (smi, w) = (smi', w')"
  shows "map_option target_torque (somanet_outputs w') =
           Some (if current_cia402_state w = CIA402_STATE_OPERATION_ENABLED
                 then f_to_int16 F (f_mul F (target_torque_f w) (f_1000 F)) else 0)
       \<and> (\<exists>evs. trace w' = trace w @ evs \<and> sent_images evs \<noteq> []
            \<and> list_all (\<lambda>img. map_option target_torque img =
                  Some (if current_cia402_state w = CIA402_STATE_OPERATION_ENABLED
                        then f_to_int16 F (f_mul F (target_torque_f w) (f_1000 F)) else 0))
                (sent_images evs))"
proof -
  let ?t = "if current_cia402_state w = CIA402_STATE_OPERATION_ENABLED
            then f_to_int16 F (f_mul F (target_torque_f w) (f_1000 F)) else 0"
  let ?w1 = "update_outputs F w"
  have t1: "map_option target_torque (somanet_outputs ?w1) = Some ?t"
    using out by (simp add: update_outputs_torque)
  from run obtain w3 w4 w5 w6 where steps:
    "do_receive_processdata L EC_TIMEOUTRET (do_send_processdata L ?w1) = (received_wkc L F w, w3)"
    "w4 = usleep 5000 (w3\<lparr>wkc := received_wkc L F w\<rparr>)"
    "classify_wkc L F slave_idx (smi, w4) = (smi', w5)"
    "w6 = w5 \<or> w6 = snd (do_statecheck L slave_idx EC_STATE_OPERATIONAL EC_TIMEOUTSTATE w5)"
    "w' = usleep 1000 w6"
    by (rule iteration_unfold)
  have w3: "w3 = snd (do_receive_processdata L EC_TIMEOUTRET (do_send_processdata L ?w1))"
    using steps(1) by simp
  have o4: "somanet_outputs w4 = somanet_outputs ?w1"
    and tr4: "trace w4 = trace w @ [Send_processdata (somanet_outputs ?w1),
                Receive_processdata EC_TIMEOUTRET, Usleep 5000]"
    unfolding steps(2) w3 by simp_all
  from classify_wkc_sends [OF steps(3)] obtain evs where c:
    "map_option target_torque (somanet_outputs w5) = map_option target_torque (somanet_outputs w4)"
    "trace w5 = trace w4 @ evs"
    "list_all (\<lambda>img. map_option target_torque img = map_option target_torque (somanet_outputs w4))
       (sent_images evs)"
    by blast
  have "\<exists>evs6. somanet_outputs w6 = somanet_outputs w5 \<and> trace w6 = trace w5 @ evs6
           \<and> sent_images evs6 = []"
  proof (rule disjE [OF steps(4)])
    assume "w6 = w5"
    then show ?thesis by simp
  next
    assume "w6 = snd (do_statecheck L slave_idx EC_STATE_OPERATIONAL EC_TIMEOUTSTATE w5)"
    then have "somanet_outputs w6 = somanet_outputs w5 \<and> trace w6 = trace w5 @
        [Statecheck slave_idx EC_STATE_OPERATIONAL EC_TIMEOUTSTATE]
           \<and> sent_images [Statecheck slave_idx EC_STATE_OPERATIONAL EC_TIMEOUTSTATE] = []"
      by simp
    then show ?thesis by blast
  qed
  then obtain evs6 where w6:
    "somanet_outputs w6 = somanet_outputs w5" "trace w6 = trace w5 @ evs6" "sent_images evs6 = []"
    by blast
  let ?evs = "[Send_processdata (somanet_outputs ?w1), Receive_processdata EC_TIMEOUTRET,
               Usleep 5000] @ evs @ evs6 @ [Usleep 1000]"
  have "trace w' = trace w @ ?evs"
    using steps(5) w6(2) c(2) tr4 by simp
  moreover have "sent_images ?evs \<noteq> []" by simp
  moreover have "list_all (\<lambda>img. map_option target_torque img = Some ?t) (sent_images ?evs)"
    using c(3) w6(3) t1 o4 by simp
  moreover have "map_option target_torque (somanet_outputs w') = Some ?t"
    using steps(5) w6(1) c(1) o4 t1 by simp
  ultimately show ?thesis by blast
qed

theorem torque_interlock_witness:
  "map_option target_torque (somanet_outputs (snd (ecat_loop_iteration
       (fixed_lib 1 1 8 3 (image0 0x0027)) int_float_ops 1
       (True, (world0 ())\<lparr>current_cia402_state := CIA402_STATE_OPERATION_ENABLED,
                          target_torque_f := 2\<rparr>)))) = Some 2000
   \<and> map_option target_torque (somanet_outputs (snd (ecat_loop_iteration
       (fixed_lib 1 1 8 3 (image0 0x0027)) int_float_ops 1
       (True, (world0 ())\<lparr>current_cia402_state := CIA402_STATE_SWITCHED_ON,
                          target_torque_f := 2\<rparr>)))) = Some 0"
proof -
  let ?L = "fixed_lib 1 1 8 3 (image0 0x0027)"
  let ?a = "(world0 ())\<lparr>current_cia402_state := CIA402_STATE_OPERATION_ENABLED,
                          target_torque_f := 2\<rparr>"
  let ?b = "(world0 ())\<lparr>current_cia402_state := CIA402_STATE_SWITCHED_ON,
                          target_torque_f := 2\<rparr>"
  let ?o = "\<lparr>controlword = 6, modes_of_operation = 4, target_torque = 0\<rparr>"
  have a: "somanet_outputs ?a = Some ?o" and b: "somanet_outputs ?b = Some ?o"
    by (simp_all add: world0_def)
  have ra: "ecat_loop_iteration ?L int_float_ops 1 (True, ?a) =
              (fst (ecat_loop_iteration ?L int_float_ops 1 (True, ?a)),
               snd (ecat_loop_iteration ?L int_float_ops 1 (True, ?a)))"
    and rb: "ecat_loop_iteration ?L int_float_ops 1 (True, ?b) =
              (fst (ecat_loop_iteration ?L int_float_ops 1 (True, ?b)),
               snd (ecat_loop_iteration ?L int_float_ops 1 (True, ?b)))"
    by simp_all
  from torque_interlock [OF a ra] torque_interlock [OF b rb] show ?thesis
    by (simp add: int_float_ops_def world0_def)
qed

lemma ecat_loop_stops_on_flag:
  "(ecat_loop L F slave_idx env sw \<noteq> None) = (\<exists>x \<in> set env. \<not> fst x)"
  by (induction L F slave_idx env sw rule: ecat_loop.induct) auto

text \<open>
  C9. Working-counter classification. With the expected value computed as
  2 * outputsWKC + inputsWKC, a pass whose exchange returns a working counter below the
  expected value ends with communication-ok 0, and one whose working counter is at least the
  expected value ends with communication-ok 1. The pass leaves the expected value as it
  was. The loop goes on to its next pass in either case: it stops only where the
  thread-running flag is observed false.
\<close>

theorem wkc_classification:
  assumes run: "ecat_loop_iteration L F slave_idx (smi, w) = (smi', w')"
    and expected: "expectedWKC w = expected_wkc outputsWKC inputsWKC"
  shows "communication_ok w' =
           (if received_wkc L F w < 2 * uint outputsWKC + uint inputsWKC then 0 else 1)
       \<and> expectedWKC w' = expected_wkc outputsWKC inputsWKC
       \<and> ecat_loop L F slave_idx ((True, target_torque_f w) # env) (smi, w) =
           ecat_loop L F slave_idx env (smi', w')
       \<and> (ecat_loop L F slave_idx env (smi', w') \<noteq> None) = (\<exists>x \<in> set env. \<not> fst x)"
proof -
  let ?w1 = "update_outputs F w"
  from run obtain w3 w4 w5 w6 where steps:
    "do_receive_processdata L EC_TIMEOUTRET (do_send_processdata L ?w1) = (received_wkc L F w, w3)"
    "w4 = usleep 5000 (w3\<lparr>wkc := received_wkc L F w\<rparr>)"
    "classify_wkc L F slave_idx (smi, w4) = (smi', w5)"
    "w6 = w5 \<or> w6 = snd (do_statecheck L slave_idx EC_STATE_OPERATIONAL EC_TIMEOUTSTATE w5)"
    "w' = usleep 1000 w6"
    by (rule iteration_unfold)
  have w3: "w3 = snd (do_receive_processdata L EC_TIMEOUTRET (do_send_processdata L ?w1))"
    using steps(1) by simp
  have w4: "wkc w4 = received_wkc L F w" "expectedWKC w4 = expectedWKC w"
    unfolding steps(2) w3 by simp_all
  from classify_wkc_sends [OF steps(3)] have c:
    "expectedWKC w5 = expectedWKC w4"
    "communication_ok w5 = (if wkc w4 < expectedWKC w4 then 0 else 1)"
    by simp_all
  from steps(4) have w6: "expectedWKC w6 = expectedWKC w5" "communication_ok w6 = communication_ok w5"
    by auto
  have "communication_ok w' = (if received_wkc L F w < expectedWKC w then 0 else 1)"
    using steps(5) w6 c w4 by simp
  moreover have "expectedWKC w' = expectedWKC w"
    using steps(5) w6 c w4 by simp
  moreover have "w\<lparr>target_torque_f := target_torque_f w\<rparr> = w" by simp
  ultimately show ?thesis
    using expected run ecat_loop_stops_on_flag [of L F slave_idx env "(smi', w')"]
    by (simp add: expected_wkc_def mult.commute)
qed

theorem wkc_classification_witness:
  "communication_ok (snd (ecat_loop_iteration (fixed_lib 1 1 8 2 (image0 0x0027)) int_float_ops 1
       (True, (world0 ())\<lparr>communication_ok := 1\<rparr>))) = 0
   \<and> communication_ok (snd (ecat_loop_iteration (fixed_lib 1 1 8 3 (image0 0x0027)) int_float_ops 1
       (True, world0 ()))) = 1
   \<and> ecat_loop (fixed_lib 1 1 8 2 (image0 0x0027)) int_float_ops 1 [(True, 0)]
       (True, (world0 ())\<lparr>communication_ok := 1\<rparr>) = None"
proof -
  let ?L2 = "fixed_lib 1 1 8 2 (image0 0x0027)"
  let ?L3 = "fixed_lib 1 1 8 3 (image0 0x0027)"
  let ?a = "(world0 ())\<lparr>communication_ok := 1\<rparr>"
  have e: "expectedWKC ?a = expected_wkc 1 1" "expectedWKC (world0 ()) = expected_wkc 1 1"
    "target_torque_f ?a = 0"
    by (simp_all add: world0_def expected_wkc_def)
  have ra: "ecat_loop_iteration ?L2 int_float_ops 1 (True, ?a) =
              (fst (ecat_loop_iteration ?L2 int_float_ops 1 (True, ?a)),
               snd (ecat_loop_iteration ?L2 int_float_ops 1 (True, ?a)))"
    and rb: "ecat_loop_iteration ?L3 int_float_ops 1 (True, world0 ()) =
              (fst (ecat_loop_iteration ?L3 int_float_ops 1 (True, world0 ())),
               snd (ecat_loop_iteration ?L3 int_float_ops 1 (True, world0 ())))"
    by simp_all
  from wkc_classification [OF ra e(1), of "[]"] wkc_classification [OF rb e(2), of "[]"] e(3)
  show ?thesis by simp
qed

text \<open>
  C10. On a pass whose working counter is below the expected value the statusword, the
  CiA402 state, the position and the velocity that the getters return are those of before
  the pass, and the communication status is 0. On a pass whose working counter reaches the
  expected value the communication status is 1 and the position and velocity are those of
  the received input image.
\<close>

theorem degraded_cycle_keeps_telemetry:
  assumes run: "ecat_loop_iteration L F slave_idx (smi, w) = (smi', w')"
  shows "(received_wkc L F w < expectedWKC w \<longrightarrow>
            soem_interface_get_statusword w' = soem_interface_get_statusword w
          \<and> soem_interface_get_cia402_state w' = soem_interface_get_cia402_state w
          \<and> soem_interface_get_current_position w' = soem_interface_get_current_position w
          \<and> soem_interface_get_current_velocity w' = soem_interface_get_current_velocity w
          \<and> soem_interface_get_communication_status w' = 0)
       \<and> (expectedWKC w \<le> received_wkc L F w \<longrightarrow>
            soem_interface_get_communication_status w' = 1
          \<and> (\<forall>inputs. received_inputs L F w = Some inputs \<longrightarrow>
                soem_interface_get_current_position w' = f_of_int32 F (position_actual_value inputs)
              \<and> soem_interface_get_current_velocity w' = f_of_int32 F (velocity_actual_value inputs)))"
proof -
  let ?w1 = "update_outputs F w"
  from run obtain w3 w4 w5 w6 where steps:
    "do_receive_processdata L EC_TIMEOUTRET (do_send_processdata L ?w1) = (received_wkc L F w, w3)"
    "w4 = usleep 5000 (w3\<lparr>wkc := received_wkc L F w\<rparr>)"
    "classify_wkc L F slave_idx (smi, w4) = (smi', w5)"
    "w6 = w5 \<or> w6 = snd (do_statecheck L slave_idx EC_STATE_OPERATIONAL EC_TIMEOUTSTATE w5)"
    "w' = usleep 1000 w6"
    by (rule iteration_unfold)
  have w3: "w3 = snd (do_receive_processdata L EC_TIMEOUTRET (do_send_processdata L ?w1))"
    using steps(1) by simp
  have w4: "wkc w4 = received_wkc L F w" "expectedWKC w4 = expectedWKC w"
    "current_statusword w4 = current_statusword w"
    "current_cia402_state w4 = current_cia402_state w"
    "current_position_f w4 = current_position_f w"
    "current_velocity_f w4 = current_velocity_f w"
    "somanet_inputs w4 = received_inputs L F w"
    unfolding steps(2) w3 by (simp_all add: received_inputs_def)
  from steps(4) have w6:
    "communication_ok w6 = communication_ok w5"
    "current_statusword w6 = current_statusword w5"
    "current_cia402_state w6 = current_cia402_state w5"
    "current_position_f w6 = current_position_f w5"
    "current_velocity_f w6 = current_velocity_f w5"
    by auto
  have degraded: ?thesis if low: "received_wkc L F w < expectedWKC w"
  proof -
    from low w4 have "wkc w4 < expectedWKC w4" by simp
    from classify_wkc_degraded [OF this, of L F slave_idx smi] steps(3)
    have "w5 = w4\<lparr>communication_ok := 0\<rparr>" by simp
    with w6 w4 steps(5) low show ?thesis
      by (simp add: soem_interface_get_statusword_def soem_interface_get_cia402_state_def
          soem_interface_get_current_position_def soem_interface_get_current_velocity_def
          soem_interface_get_communication_status_def)
  qed
  have good: ?thesis if ok: "expectedWKC w \<le> received_wkc L F w"
  proof -
    from ok w4 have "expectedWKC w4 \<le> wkc w4" by simp
    from classify_wkc_ok [OF this steps(3)] w6 w4 steps(5) ok show ?thesis
      by (simp add: soem_interface_get_current_position_def
          soem_interface_get_current_velocity_def soem_interface_get_communication_status_def)
  qed
  show ?thesis
    using degraded good by (cases "received_wkc L F w < expectedWKC w") simp_all
qed

theorem degraded_cycle_keeps_telemetry_witness:
  "soem_interface_get_statusword (snd (ecat_loop_iteration
       (fixed_lib 1 1 8 2 (image0 0x0027)) int_float_ops 1 (True, world0 ()))) = 0
   \<and> soem_interface_get_cia402_state (snd (ecat_loop_iteration
       (fixed_lib 1 1 8 2 (image0 0x0027)) int_float_ops 1 (True, world0 ())))
       = CIA402_STATE_NOT_READY
   \<and> soem_interface_get_communication_status (snd (ecat_loop_iteration
       (fixed_lib 1 1 8 2 (image0 0x0027)) int_float_ops 1 (True, world0 ()))) = 0
   \<and> soem_interface_get_current_position (snd (ecat_loop_iteration
       (fixed_lib 1 1 8 3 \<lparr>statusword = 0x0027, position_actual_value = 5,
          velocity_actual_value = 7\<rparr>) int_float_ops 1 (True, world0 ()))) = 5"
proof -
  let ?L2 = "fixed_lib 1 1 8 2 (image0 0x0027)"
  let ?L3 = "fixed_lib 1 1 8 3 \<lparr>statusword = 0x0027, position_actual_value = 5,
          velocity_actual_value = 7\<rparr>"
  have ra: "ecat_loop_iteration ?L2 int_float_ops 1 (True, world0 ()) =
              (fst (ecat_loop_iteration ?L2 int_float_ops 1 (True, world0 ())),
               snd (ecat_loop_iteration ?L2 int_float_ops 1 (True, world0 ())))"
    and rb: "ecat_loop_iteration ?L3 int_float_ops 1 (True, world0 ()) =
              (fst (ecat_loop_iteration ?L3 int_float_ops 1 (True, world0 ())),
               snd (ecat_loop_iteration ?L3 int_float_ops 1 (True, world0 ())))"
    by simp_all
  from degraded_cycle_keeps_telemetry [OF ra] degraded_cycle_keeps_telemetry [OF rb]
  show ?thesis
    by (simp add: world0_def int_float_ops_def soem_interface_get_statusword_def
        soem_interface_get_cia402_state_def image0_def)
qed

section \<open>Slave state controller\<close>

declare set_state_loop.simps [simp del]

lemma set_slave_state_simps [simp]:
  "trace (set_slave_state s x w) = trace w"
  "lib (set_slave_state s x w) = lib w"
  "state (ec_slave (set_slave_state s x w) s) = x"
  "somanet_outputs (set_slave_state s x w) = somanet_outputs w"
  "somanet_inputs (set_slave_state s x w) = somanet_inputs w"
  by (simp_all add: set_slave_state_def)

lemma writestate_simps [simp]:
  "trace (do_writestate L s w) = trace w @ [Writestate s (state (ec_slave w s))]"
  "ec_slave (do_writestate L s w) = ec_slave w"
  "somanet_outputs (do_writestate L s w) = somanet_outputs w"
  "somanet_inputs (do_writestate L s w) = somanet_inputs w"
  by (simp_all add: do_writestate_def)

lemma request_state_unfold:
  "request_state L s d w =
     (let w4 = usleep 20000 (do_writestate L s (set_slave_state s d
                 (w\<lparr>ec_slave := (ec_slave w)(s := (ec_slave w s)\<lparr>ALstatuscode := 0\<rparr>)\<rparr>)));
          res = do_statecheck L s d EC_TIMEOUTSTATE w4
      in (fst res > 0 \<and> state (ec_slave (snd res) s) AND 0x0F = d, snd res))"
  by (simp add: request_state_def Let_def split: prod.splits)

lemma request_state_trace:
  "trace (snd (request_state L s d w)) =
     trace w @ [Writestate s d, Usleep 20000, Statecheck s d EC_TIMEOUTSTATE]"
  by (simp add: request_state_unfold Let_def)

lemma request_state_frame [simp]:
  "somanet_outputs (snd (request_state L s d w)) = somanet_outputs w"
  "somanet_inputs (snd (request_state L s d w)) = somanet_inputs w"
  by (simp_all add: request_state_unfold Let_def)

lemma try_intermediate_unfold:
  "try_intermediate_safe_op L s d w =
     (if d = EC_STATE_OPERATIONAL \<and> state (ec_slave w s) AND 0x0F = EC_STATE_PRE_OP
      then
        (let r1 = do_statecheck L s EC_STATE_SAFE_OP (EC_TIMEOUTSTATE * 2)
                    (usleep 200000 (do_writestate L s (set_slave_state s EC_STATE_SAFE_OP w)))
         in if fst r1 > 0 then
              (let r2 = do_statecheck L s EC_STATE_OPERATIONAL (EC_TIMEOUTSTATE * 2)
                          (usleep 200000 (do_writestate L s
                             (set_slave_state s EC_STATE_OPERATIONAL (snd r1))))
               in (fst r2 > 0, snd r2))
            else (False, snd r1))
      else (False, w))"
  by (simp add: try_intermediate_safe_op_def Let_def split: prod.splits)

lemma try_intermediate_trace:
  "trace (snd (try_intermediate_safe_op L s d w)) =
     trace w @
       (if d = EC_STATE_OPERATIONAL \<and> state (ec_slave w s) AND 0x0F = EC_STATE_PRE_OP
        then [Writestate s EC_STATE_SAFE_OP, Usleep 200000,
              Statecheck s EC_STATE_SAFE_OP (EC_TIMEOUTSTATE * 2)]
             @ (if safe_op_check L s w > 0
                then [Writestate s EC_STATE_OPERATIONAL, Usleep 200000,
                      Statecheck s EC_STATE_OPERATIONAL (EC_TIMEOUTSTATE * 2)]
                else [])
        else [])"
  by (simp add: try_intermediate_unfold safe_op_check_def Let_def)

lemma try_intermediate_frame [simp]:
  "somanet_outputs (snd (try_intermediate_safe_op L s d w)) = somanet_outputs w"
  "somanet_inputs (snd (try_intermediate_safe_op L s d w)) = somanet_inputs w"
  by (simp_all add: try_intermediate_unfold Let_def)

lemma set_state_attempt_unfold:
  "set_state_attempt L s d w =
     (if fst (request_state L s d w) then (True, snd (request_state L s d w))
      else try_intermediate_safe_op L s d (snd (request_state L s d w)))"
  by (simp add: set_state_attempt_def split: prod.splits)

lemma set_state_attempt_trace:
  "trace (snd (set_state_attempt L s d w)) = trace w @ attempt_events L s d w"
  by (simp add: set_state_attempt_unfold attempt_events_def request_state_trace
      try_intermediate_trace)

lemma set_state_attempt_frame [simp]:
  "somanet_outputs (snd (set_state_attempt L s d w)) = somanet_outputs w"
  "somanet_inputs (snd (set_state_attempt L s d w)) = somanet_inputs w"
  by (simp_all add: set_state_attempt_unfold)

lemma timeout_doubled: "EC_TIMEOUTSTATE * 2 \<noteq> EC_TIMEOUTSTATE"
  by (simp add: EC_TIMEOUTSTATE_def)

lemma ec_states_distinct:
  "EC_STATE_SAFE_OP \<noteq> EC_STATE_OPERATIONAL" "EC_STATE_OPERATIONAL \<noteq> EC_STATE_SAFE_OP"
  "EC_STATE_PRE_OP \<noteq> EC_STATE_OPERATIONAL" "EC_STATE_PRE_OP \<noteq> EC_STATE_SAFE_OP"
  by (simp_all add: EC_STATE_SAFE_OP_def EC_STATE_OPERATIONAL_def EC_STATE_PRE_OP_def)

lemma attempt_events_counts:
  "length (filter (\<lambda>e. e = Statecheck s d EC_TIMEOUTSTATE) (attempt_events L s d w)) = 1"
  "length (filter (\<lambda>e. e = Writestate s EC_STATE_PRE_OP) (attempt_events L s d w))
     = (if d = EC_STATE_PRE_OP then 1 else 0)"
  "d = EC_STATE_OPERATIONAL \<Longrightarrow>
     length (filter (\<lambda>e. e = Writestate s EC_STATE_SAFE_OP) (attempt_events L s d w)) \<le> 1"
  "d = EC_STATE_OPERATIONAL \<Longrightarrow>
     length (filter (\<lambda>e. e = Writestate s EC_STATE_OPERATIONAL) (attempt_events L s d w)) \<le> 2"
  using timeout_doubled ec_states_distinct
  by (auto simp add: attempt_events_def)

lemma counts_append [simp]:
  "attempts_of s d (xs @ ys) = attempts_of s d xs + attempts_of s d ys"
  "requests_of s d (xs @ ys) = requests_of s d xs + requests_of s d ys"
  by (simp_all add: attempts_of_def requests_of_def)

lemma counts_pause [simp]:
  "attempts_of s d [Usleep n] = 0" "requests_of s d [Usleep n] = 0"
  "attempts_of s d [] = 0" "requests_of s d [] = 0"
  by (simp_all add: attempts_of_def requests_of_def)

lemma attempt_events_counts':
  "attempts_of s d (attempt_events L s d w) = 1"
  "d = EC_STATE_OPERATIONAL \<Longrightarrow> requests_of s EC_STATE_SAFE_OP (attempt_events L s d w) \<le> 1"
  "d = EC_STATE_OPERATIONAL \<Longrightarrow> requests_of s EC_STATE_OPERATIONAL (attempt_events L s d w) \<le> 2"
  using attempt_events_counts [where s = s and d = d and L = L and w = w]
  by (simp_all add: attempts_of_def requests_of_def)

lemma attempt_events_plain:
  "d \<noteq> EC_STATE_OPERATIONAL \<Longrightarrow>
     attempt_events L s d w = [Writestate s d, Usleep 20000, Statecheck s d EC_TIMEOUTSTATE]"
  by (simp add: attempt_events_def)

lemma attempt_events_no_sdo: "list_all (\<lambda>e. \<not> is_SDO e) (attempt_events L s d w)"
  by (simp add: attempt_events_def)

lemma set_state_loop_step:
  assumes "k < max_retries"
  shows "set_state_loop L s d k w =
           (if fst (set_state_attempt L s d w) then (0, snd (set_state_attempt L s d w))
            else set_state_loop L s d (k + 1)
                   (if k + 1 < max_retries then usleep 50000 (snd (set_state_attempt L s d w))
                    else snd (set_state_attempt L s d w)))"
  using assms
  by (subst set_state_loop.simps) (simp split: prod.splits bool.splits)

lemma set_state_loop_props:
  "set_state_loop L s d k w = (r, w') \<Longrightarrow>
     (r = 0 \<or> r = -1)
     \<and> somanet_outputs w' = somanet_outputs w \<and> somanet_inputs w' = somanet_inputs w
     \<and> (\<exists>evs. trace w' = trace w @ evs
           \<and> attempts_of s d evs \<le> max_retries - k
           \<and> (r = -1 \<longrightarrow> attempts_of s d evs = max_retries - k)
           \<and> (k < max_retries \<longrightarrow> 1 \<le> attempts_of s d evs)
           \<and> (d = EC_STATE_OPERATIONAL \<longrightarrow>
                 requests_of s EC_STATE_SAFE_OP evs \<le> attempts_of s d evs
               \<and> requests_of s EC_STATE_OPERATIONAL evs \<le> 2 * attempts_of s d evs)
           \<and> (d \<noteq> EC_STATE_OPERATIONAL \<longrightarrow>
                 set evs \<subseteq> {Writestate s d, Usleep 20000, Statecheck s d EC_TIMEOUTSTATE,
                              Usleep 50000})
           \<and> list_all (\<lambda>e. \<not> is_SDO e) evs)"
proof (induction L s d k w rule: set_state_loop.induct)
  case (1 L s d k w)
  show ?case
  proof (cases "k < max_retries")
    case False
    with "1.prems" show ?thesis by (simp add: set_state_loop.simps)
  next
    case True
    let ?a = "set_state_attempt L s d w"
    let ?ev = "attempt_events L s d w"
    have tr: "trace (snd ?a) = trace w @ ?ev" by (rule set_state_attempt_trace)
    show ?thesis
    proof (cases "fst ?a")
      case ok: True
      with True "1.prems" have res: "r = 0" "w' = snd ?a"
        by (simp_all add: set_state_loop_step)
      have "trace w' = trace w @ ?ev" using res tr by simp
      moreover have "attempts_of s d ?ev \<le> max_retries - k"
        using True by (simp add: attempt_events_counts')
      moreover have "d = EC_STATE_OPERATIONAL \<longrightarrow>
                 requests_of s EC_STATE_SAFE_OP ?ev \<le> attempts_of s d ?ev
               \<and> requests_of s EC_STATE_OPERATIONAL ?ev \<le> 2 * attempts_of s d ?ev"
        using attempt_events_counts' [where s = s and d = d and L = L and w = w] by auto
      moreover have "d \<noteq> EC_STATE_OPERATIONAL \<longrightarrow>
                 set ?ev \<subseteq> {Writestate s d, Usleep 20000, Statecheck s d EC_TIMEOUTSTATE,
                              Usleep 50000}"
        by (auto simp add: attempt_events_plain)
      ultimately show ?thesis
        using res attempt_events_no_sdo [of L s d w]
        by (intro conjI exI [of _ ?ev]) (simp_all add: attempt_events_counts')
    next
      case failed: False
      let ?w1 = "if k + 1 < max_retries then usleep 50000 (snd ?a) else snd ?a"
      let ?pause = "if k + 1 < max_retries then [Usleep 50000] else []"
      have sp: "(?a = (fst ?a, snd ?a))" by simp
      from failed True "1.prems" have run: "set_state_loop L s d (k + 1) ?w1 = (r, w')"
        by (simp add: set_state_loop_step)
      have pa: "set_state_attempt L s d w = (False, snd ?a)"
        using failed by (metis prod.collapse)
      from "1.IH" [OF True pa [symmetric] refl run] obtain evs where ih:
        "r = 0 \<or> r = -1"
        "somanet_outputs w' = somanet_outputs ?w1" "somanet_inputs w' = somanet_inputs ?w1"
        "trace w' = trace ?w1 @ evs"
        "attempts_of s d evs \<le> max_retries - (k + 1)"
        "r = -1 \<longrightarrow> attempts_of s d evs = max_retries - (k + 1)"
        "d = EC_STATE_OPERATIONAL \<longrightarrow>
                 requests_of s EC_STATE_SAFE_OP evs \<le> attempts_of s d evs
               \<and> requests_of s EC_STATE_OPERATIONAL evs \<le> 2 * attempts_of s d evs"
        "d \<noteq> EC_STATE_OPERATIONAL \<longrightarrow>
                 set evs \<subseteq> {Writestate s d, Usleep 20000, Statecheck s d EC_TIMEOUTSTATE,
                              Usleep 50000}"
        "list_all (\<lambda>e. \<not> is_SDO e) evs"
        by blast
      let ?evs = "?ev @ ?pause @ evs"
      have t1: "trace ?w1 = trace (snd ?a) @ ?pause" by simp
      have "trace w' = trace w @ ?evs" using ih(4) t1 tr by simp
      moreover have "attempts_of s d ?evs \<le> max_retries - k"
        using ih(5) True by (auto simp add: attempt_events_counts')
      moreover have "r = -1 \<longrightarrow> attempts_of s d ?evs = max_retries - k"
        using ih(6) True by (auto simp add: attempt_events_counts')
      moreover have "1 \<le> attempts_of s d ?evs"
        by (simp add: attempt_events_counts')
      moreover have "d = EC_STATE_OPERATIONAL \<longrightarrow>
                 requests_of s EC_STATE_SAFE_OP ?evs \<le> attempts_of s d ?evs
               \<and> requests_of s EC_STATE_OPERATIONAL ?evs \<le> 2 * attempts_of s d ?evs"
        using ih(7) attempt_events_counts' [where s = s and d = d and L = L and w = w] by auto
      moreover have "d \<noteq> EC_STATE_OPERATIONAL \<longrightarrow>
                 set ?evs \<subseteq> {Writestate s d, Usleep 20000, Statecheck s d EC_TIMEOUTSTATE,
                              Usleep 50000}"
        using ih(8) by (auto simp add: attempt_events_plain)
      moreover have "list_all (\<lambda>e. \<not> is_SDO e) ?evs"
        using ih(9) attempt_events_no_sdo [of L s d w] by simp
      moreover have "somanet_outputs w' = somanet_outputs w" "somanet_inputs w' = somanet_inputs w"
        using ih(2,3) by simp_all
      ultimately show ?thesis using ih(1) by blast
    qed
  qed
qed

lemma attempt_succeeds_eq:
  "fst (set_state_attempt L s d v) = attempt_succeeds L s d v"
  by (simp only: set_state_attempt_unfold try_intermediate_unfold attempt_succeeds_def
      safe_op_check_def final_op_check_def Let_def) auto

lemma attempt_start_shift:
  "attempt_start L s d w (Suc m) =
     attempt_start L s d (usleep 50000 (snd (set_state_attempt L s d w))) m"
  by (induction m) simp_all

lemma run_events_shift:
  "run_events L s d w (Suc m) =
     attempt_events L s d w @ [Usleep 50000]
     @ run_events L s d (usleep 50000 (snd (set_state_attempt L s d w))) m"
proof (induction m)
  case 0
  show ?case by simp
next
  case (Suc m)
  have "run_events L s d w (Suc (Suc m)) =
          run_events L s d w (Suc m) @ [Usleep 50000]
          @ attempt_events L s d (attempt_start L s d w (Suc (Suc m)))"
    by (rule run_events.simps(2))
  also have "attempt_start L s d w (Suc (Suc m)) =
          attempt_start L s d (usleep 50000 (snd (set_state_attempt L s d w))) (Suc m)"
    by (rule attempt_start_shift)
  finally show ?case unfolding Suc.IH by simp
qed

lemma counts_pause_Cons [simp]:
  "attempts_of s d (Usleep n # xs) = attempts_of s d xs"
  "requests_of s d (Usleep n # xs) = requests_of s d xs"
  by (simp_all add: attempts_of_def requests_of_def)

lemma run_events_attempts:
  "attempts_of s d (run_events L s d w n) = n + 1"
  by (induction n) (simp_all add: attempt_events_counts' del: attempt_start.simps)

lemma run_events_safe_op_requests:
  assumes op: "d = EC_STATE_OPERATIONAL"
  shows "requests_of s EC_STATE_SAFE_OP (run_events L s d w n) \<le> n + 1"
proof (induction n)
  case 0
  from attempt_events_counts'(2) [OF op, where s = s and L = L and w = w]
  show ?case by simp
next
  case (Suc n)
  from Suc attempt_events_counts'(2)
             [OF op, where s = s and L = L and w = "attempt_start L s d w (Suc n)"]
  show ?case by (simp del: attempt_start.simps)
qed

lemma run_events_operational_requests:
  assumes op: "d = EC_STATE_OPERATIONAL"
  shows "requests_of s EC_STATE_OPERATIONAL (run_events L s d w n) \<le> 2 * (n + 1)"
proof (induction n)
  case 0
  from attempt_events_counts'(3) [OF op, where s = s and L = L and w = w]
  show ?case by simp
next
  case (Suc n)
  from Suc attempt_events_counts'(3)
             [OF op, where s = s and L = L and w = "attempt_start L s d w (Suc n)"]
  show ?case by (simp del: attempt_start.simps)
qed

lemma set_state_loop_retries:
  fixes w :: "('d, 'f) world"
  shows "k < max_retries \<Longrightarrow> set_state_loop L s d k w = (r, w') \<Longrightarrow>
     \<exists>n. k + n < max_retries
        \<and> (\<forall>j<n. \<not> fst (set_state_attempt L s d (attempt_start L s d w j)))
        \<and> (r = 0 \<longleftrightarrow> fst (set_state_attempt L s d (attempt_start L s d w n)))
        \<and> (r = -1 \<longleftrightarrow> \<not> fst (set_state_attempt L s d (attempt_start L s d w n)))
        \<and> (\<not> fst (set_state_attempt L s d (attempt_start L s d w n)) \<longrightarrow> k + n + 1 = max_retries)
        \<and> w' = snd (set_state_attempt L s d (attempt_start L s d w n))
        \<and> trace w' = trace w @ run_events L s d w n"
proof (induction L s d k w rule: set_state_loop.induct)
  case (1 L s d k w)
  let ?a = "set_state_attempt L s d w"
  have tr: "trace (snd ?a) = trace w @ attempt_events L s d w" by (rule set_state_attempt_trace)
  note True = "1.prems"(1)
  show ?case
  proof (cases "fst ?a")
    case ok: True
    with True "1.prems"(2) have res: "r = 0" "w' = snd ?a"
      by (simp_all add: set_state_loop_step)
    show ?thesis
      using res ok tr True by (intro exI [where x = 0]) simp
  next
    case failed: False
    have pa: "set_state_attempt L s d w = (False, snd ?a)"
      using failed by (metis prod.collapse)
    show ?thesis
    proof (cases "k + 1 < max_retries")
      case last: False
      have stop: "set_state_loop L s d (k + 1) v = (-1, v)" for v
        using last by (subst set_state_loop.simps) simp
      from failed True last "1.prems"(2) have "set_state_loop L s d (k + 1) (snd ?a) = (r, w')"
        by (simp add: set_state_loop_step)
      then have res: "r = -1" "w' = snd ?a"
        unfolding stop by simp_all
      from last True have "k + 1 = max_retries" by simp
      then show ?thesis
        using res failed tr True by (intro exI [where x = 0]) simp
    next
      case more: True
      define w1 where "w1 = usleep 50000 (snd ?a)"
      have w1: "(if k + 1 < max_retries then usleep 50000 (snd ?a) else snd ?a) = w1"
        using more by (simp add: w1_def)
      from failed True more "1.prems"(2) have run: "set_state_loop L s d (k + 1) w1 = (r, w')"
        by (simp add: set_state_loop_step w1_def)
      define ok where "ok = (\<lambda>(v::('d, 'f) world) j. fst (set_state_attempt L s d (attempt_start L s d v j)))"
      have sh: "attempt_start L s d w (Suc j) = attempt_start L s d w1 j" for j
        unfolding w1_def by (rule attempt_start_shift)
      have rs: "run_events L s d w (Suc j) =
                  attempt_events L s d w @ [Usleep 50000] @ run_events L s d w1 j" for j
        unfolding w1_def by (rule run_events_shift)
      from "1.IH" [OF True pa [symmetric] refl, unfolded w1, OF more run]
      obtain n where ih:
        "k + 1 + n < max_retries"
        "\<forall>j<n. \<not> ok w1 j"
        "r = 0 \<longleftrightarrow> ok w1 n"
        "r = -1 \<longleftrightarrow> \<not> ok w1 n"
        "\<not> ok w1 n \<longrightarrow> k + 1 + n + 1 = max_retries"
        "w' = snd (set_state_attempt L s d (attempt_start L s d w1 n))"
        "trace w' = trace w1 @ run_events L s d w1 n"
        unfolding ok_def by blast
      have ok0: "\<not> ok w 0" using failed by (simp add: ok_def)
      have okS: "ok w (Suc j) = ok w1 j" for j unfolding ok_def sh ..
      have a: "\<forall>j<Suc n. \<not> ok w j"
      proof (intro allI impI)
        fix j assume "j < Suc n"
        then show "\<not> ok w j" using ok0 okS ih(2) by (cases j) simp_all
      qed
      have t1: "trace w1 = trace w @ attempt_events L s d w @ [Usleep 50000]"
        by (simp add: w1_def tr)
      have b: "trace w' = trace w @ run_events L s d w (Suc n)"
        unfolding rs ih(7) t1 by simp
      have c: "w' = snd (set_state_attempt L s d (attempt_start L s d w (Suc n)))"
        unfolding sh by (rule ih(6))
      have d: "k + Suc n < max_retries" using ih(1) by simp
      have e: "\<not> ok w (Suc n) \<longrightarrow> k + Suc n + 1 = max_retries"
        using ih(5) unfolding okS by simp
      have f: "r = 0 \<longleftrightarrow> ok w (Suc n)" "r = -1 \<longleftrightarrow> \<not> ok w (Suc n)"
        using ih(3,4) unfolding okS by simp_all
      have "k + Suc n < max_retries
        \<and> (\<forall>j<Suc n. \<not> ok w j)
        \<and> (r = 0 \<longleftrightarrow> ok w (Suc n))
        \<and> (r = -1 \<longleftrightarrow> \<not> ok w (Suc n))
        \<and> (\<not> ok w (Suc n) \<longrightarrow> k + Suc n + 1 = max_retries)
        \<and> w' = snd (set_state_attempt L s d (attempt_start L s d w (Suc n)))
        \<and> trace w' = trace w @ run_events L s d w (Suc n)"
        using a b c d e f by simp
      then show ?thesis unfolding ok_def by (rule exI [where x = "Suc n"])
    qed
  qed
qed


text \<open>
  C7 (amended). The slave-state controller makes n + 1 attempts for some n below 5. Every
  attempt but the last fails, and each failed attempt is followed by a pause of 50 ms and
  the next attempt. The controller returns 0 exactly when the last attempt succeeds, and
  -1 exactly when the last attempt fails, which happens only when it is the fifth; the
  final state is the one the last attempt leaves. An attempt is: request the state, wait
  20 ms, check. It succeeds when that check confirms the requested state. When the check
  fails while OPERATIONAL is requested and the slave is observed in PRE\_OP, the attempt
  goes on with exactly one request of SAFE\_OP and its check and, only if that check
  succeeds, exactly one more request of OPERATIONAL and its check, and it succeeds when
  both checks return a positive value; in every other case the attempt ends, failed,
  after its first check. So one attempt requests SAFE\_OP at most once and OPERATIONAL at
  most twice, never a third time.
\<close>

theorem set_state_retries_and_escalation:
  assumes run: "soem_interface_set_ethercat_state L slave_idx desired_state w = (r, w')"
  shows "(r = 0 \<or> r = -1)
       \<and> (\<exists>n<5.
             (\<forall>k<n. \<not> attempt_succeeds L slave_idx desired_state
                         (attempt_start L slave_idx desired_state w k))
           \<and> (r = 0 \<longleftrightarrow> attempt_succeeds L slave_idx desired_state
                          (attempt_start L slave_idx desired_state w n))
           \<and> (r = -1 \<longleftrightarrow> \<not> attempt_succeeds L slave_idx desired_state
                              (attempt_start L slave_idx desired_state w n) \<and> n = 4)
           \<and> w' = snd (set_state_attempt L slave_idx desired_state
                         (attempt_start L slave_idx desired_state w n))
           \<and> trace w' = trace w @ run_events L slave_idx desired_state w n
           \<and> attempts_of slave_idx desired_state (run_events L slave_idx desired_state w n)
               = n + 1
           \<and> (desired_state = EC_STATE_OPERATIONAL \<longrightarrow>
                 requests_of slave_idx EC_STATE_SAFE_OP
                    (run_events L slave_idx desired_state w n) \<le> n + 1
               \<and> requests_of slave_idx EC_STATE_OPERATIONAL
                    (run_events L slave_idx desired_state w n) \<le> 2 * (n + 1)))
       \<and> (\<forall>v. (fst (set_state_attempt L slave_idx desired_state v)
                 \<longleftrightarrow> attempt_succeeds L slave_idx desired_state v)
              \<and> trace (snd (set_state_attempt L slave_idx desired_state v)) =
                  trace v @
                  [Writestate slave_idx desired_state, Usleep 20000,
                   Statecheck slave_idx desired_state EC_TIMEOUTSTATE]
                  @ (if \<not> fst (request_state L slave_idx desired_state v)
                        \<and> desired_state = EC_STATE_OPERATIONAL
                        \<and> state (ec_slave (snd (request_state L slave_idx desired_state v))
                                   slave_idx) AND 0x0F = EC_STATE_PRE_OP
                     then [Writestate slave_idx EC_STATE_SAFE_OP, Usleep 200000,
                           Statecheck slave_idx EC_STATE_SAFE_OP (EC_TIMEOUTSTATE * 2)]
                          @ (if safe_op_check L slave_idx
                                  (snd (request_state L slave_idx desired_state v)) > 0
                             then [Writestate slave_idx EC_STATE_OPERATIONAL, Usleep 200000,
                                   Statecheck slave_idx EC_STATE_OPERATIONAL
                                     (EC_TIMEOUTSTATE * 2)]
                             else [])
                     else []))"
proof -
  define ok where
    "ok = (\<lambda>k. attempt_succeeds L slave_idx desired_state
                 (attempt_start L slave_idx desired_state w k))"
  define evs where "evs = (\<lambda>n. run_events L slave_idx desired_state w n)"
  from run have loop: "set_state_loop L slave_idx desired_state 0 w = (r, w')"
    by (simp add: soem_interface_set_ethercat_state_def)
  have five: "0 < max_retries" by (simp add: max_retries_def)
  from set_state_loop_retries [OF five loop] obtain n where n:
    "n < 5" "\<forall>j<n. \<not> ok j" "r = 0 \<longleftrightarrow> ok n" "r = -1 \<longleftrightarrow> \<not> ok n" "\<not> ok n \<longrightarrow> n = 4"
    "w' = snd (set_state_attempt L slave_idx desired_state
                 (attempt_start L slave_idx desired_state w n))"
    "trace w' = trace w @ evs n"
    unfolding ok_def evs_def attempt_succeeds_eq max_retries_def by auto
  have res: "r = 0 \<or> r = -1" using n(3,4) by blast
  have fail: "r = -1 \<longleftrightarrow> \<not> ok n \<and> n = 4" using n(4,5) by blast
  have cnt: "attempts_of slave_idx desired_state (evs n) = n + 1"
    unfolding evs_def by (rule run_events_attempts)
  have esc: "desired_state = EC_STATE_OPERATIONAL \<longrightarrow>
                 requests_of slave_idx EC_STATE_SAFE_OP (evs n) \<le> n + 1
               \<and> requests_of slave_idx EC_STATE_OPERATIONAL (evs n) \<le> 2 * (n + 1)"
    unfolding evs_def
    using run_events_safe_op_requests run_events_operational_requests by blast
  have "n < 5 \<and> (\<forall>k<n. \<not> ok k) \<and> (r = 0 \<longleftrightarrow> ok n) \<and> (r = -1 \<longleftrightarrow> \<not> ok n \<and> n = 4)
        \<and> w' = snd (set_state_attempt L slave_idx desired_state
                      (attempt_start L slave_idx desired_state w n))
        \<and> trace w' = trace w @ evs n
        \<and> attempts_of slave_idx desired_state (evs n) = n + 1
        \<and> (desired_state = EC_STATE_OPERATIONAL \<longrightarrow>
                 requests_of slave_idx EC_STATE_SAFE_OP (evs n) \<le> n + 1
               \<and> requests_of slave_idx EC_STATE_OPERATIONAL (evs n) \<le> 2 * (n + 1))"
    using n(1,2,3,6,7) fail cnt esc by simp
  then have runs: "\<exists>n. n < 5 \<and> (\<forall>k<n. \<not> ok k) \<and> (r = 0 \<longleftrightarrow> ok n)
        \<and> (r = -1 \<longleftrightarrow> \<not> ok n \<and> n = 4)
        \<and> w' = snd (set_state_attempt L slave_idx desired_state
                      (attempt_start L slave_idx desired_state w n))
        \<and> trace w' = trace w @ evs n
        \<and> attempts_of slave_idx desired_state (evs n) = n + 1
        \<and> (desired_state = EC_STATE_OPERATIONAL \<longrightarrow>
                 requests_of slave_idx EC_STATE_SAFE_OP (evs n) \<le> n + 1
               \<and> requests_of slave_idx EC_STATE_OPERATIONAL (evs n) \<le> 2 * (n + 1))"
    by (rule exI [where x = n])
  have each: "\<forall>v. (fst (set_state_attempt L slave_idx desired_state v)
                 \<longleftrightarrow> attempt_succeeds L slave_idx desired_state v)
              \<and> trace (snd (set_state_attempt L slave_idx desired_state v)) =
                  trace v @ attempt_events L slave_idx desired_state v"
    by (simp add: set_state_attempt_trace attempt_succeeds_eq)
  from res runs each show ?thesis
    unfolding ok_def evs_def attempt_events_def by simp
qed


lemma fixed_lib_attempt_fails:
  "check_ret \<le> 0 \<Longrightarrow>
     fst (set_state_attempt (fixed_lib a check_ret al d img) s ds w) = False"
  by (simp add: set_state_attempt_unfold request_state_unfold try_intermediate_unfold Let_def
      do_statecheck_def fixed_lib_def)

lemma fixed_lib_set_state_fails:
  "L = fixed_lib a check_ret al d img \<Longrightarrow> check_ret \<le> 0 \<Longrightarrow>
     fst (set_state_loop L s ds k w) = -1"
proof (induction L s ds k w rule: set_state_loop.induct)
  case (1 L s ds k w)
  show ?case
  proof (cases "k < max_retries")
    case False
    then show ?thesis by (simp add: set_state_loop.simps)
  next
    case True
    let ?a = "set_state_attempt L s ds w"
    have f: "fst ?a = False"
      using fixed_lib_attempt_fails [OF "1.prems"(2)] "1.prems"(1) by simp
    then have pa: "(False, snd ?a) = ?a" by (metis prod.collapse)
    from "1.IH" [OF True pa refl "1.prems"] f True show ?thesis
      by (simp add: set_state_loop_step)
  qed
qed

lemma settling_lib_retry:
  "\<not> attempt_succeeds (settling_lib 1) 1 EC_STATE_PRE_OP (world0 0)"
  "attempt_succeeds (settling_lib 1) 1 EC_STATE_PRE_OP
     (attempt_start (settling_lib 1) 1 EC_STATE_PRE_OP (world0 0) 1)"
  by (simp_all add: attempt_succeeds_def set_state_attempt_unfold request_state_unfold
      try_intermediate_unfold Let_def do_statecheck_def do_writestate_def usleep_def
      set_slave_state_def settling_lib_def world0_def
      EC_STATE_PRE_OP_def EC_STATE_OPERATIONAL_def EC_STATE_INIT_def)

lemma fixed_lib_escalation_succeeds:
  "attempt_succeeds (fixed_lib 1 1 EC_STATE_PRE_OP 3 (image0 0)) 1 EC_STATE_OPERATIONAL (world0 ())"
  by (simp add: attempt_succeeds_def request_state_unfold Let_def do_statecheck_def
      fixed_lib_def safe_op_check_def final_op_check_def
      EC_STATE_PRE_OP_def EC_STATE_OPERATIONAL_def)

theorem set_state_retries_and_escalation_witness:
  "fst (soem_interface_set_ethercat_state (fixed_lib 1 0 EC_STATE_PRE_OP 3 (image0 0)) 1
          EC_STATE_OPERATIONAL (world0 ())) = -1
   \<and> attempts_of 1 EC_STATE_OPERATIONAL
        (trace (snd (soem_interface_set_ethercat_state
                       (fixed_lib 1 0 EC_STATE_PRE_OP 3 (image0 0)) 1 EC_STATE_OPERATIONAL
                       (world0 ())))) = 5
   \<and> requests_of 1 EC_STATE_SAFE_OP
        (trace (snd (soem_interface_set_ethercat_state
                       (fixed_lib 1 0 EC_STATE_PRE_OP 3 (image0 0)) 1 EC_STATE_OPERATIONAL
                       (world0 ())))) \<le> 5
   \<and> requests_of 1 EC_STATE_OPERATIONAL
        (trace (snd (soem_interface_set_ethercat_state
                       (fixed_lib 1 0 EC_STATE_PRE_OP 3 (image0 0)) 1 EC_STATE_OPERATIONAL
                       (world0 ())))) \<le> 10
   \<and> fst (soem_interface_set_ethercat_state (fixed_lib 1 1 EC_STATE_PRE_OP 3 (image0 0)) 1
            EC_STATE_OPERATIONAL (world0 ())) = 0
   \<and> trace (snd (soem_interface_set_ethercat_state (fixed_lib 1 1 EC_STATE_PRE_OP 3 (image0 0)) 1
                    EC_STATE_OPERATIONAL (world0 ()))) =
       [Writestate 1 EC_STATE_OPERATIONAL, Usleep 20000,
        Statecheck 1 EC_STATE_OPERATIONAL EC_TIMEOUTSTATE,
        Writestate 1 EC_STATE_SAFE_OP, Usleep 200000,
        Statecheck 1 EC_STATE_SAFE_OP (EC_TIMEOUTSTATE * 2),
        Writestate 1 EC_STATE_OPERATIONAL, Usleep 200000,
        Statecheck 1 EC_STATE_OPERATIONAL (EC_TIMEOUTSTATE * 2)]
   \<and> fst (soem_interface_set_ethercat_state (settling_lib 1) 1 EC_STATE_PRE_OP (world0 0)) = 0
   \<and> trace (snd (soem_interface_set_ethercat_state (settling_lib 1) 1 EC_STATE_PRE_OP
                    (world0 0))) =
       [Writestate 1 EC_STATE_PRE_OP, Usleep 20000, Statecheck 1 EC_STATE_PRE_OP EC_TIMEOUTSTATE,
        Usleep 50000,
        Writestate 1 EC_STATE_PRE_OP, Usleep 20000, Statecheck 1 EC_STATE_PRE_OP EC_TIMEOUTSTATE]"
proof -
  let ?L0 = "fixed_lib 1 0 EC_STATE_PRE_OP 3 (image0 0)"
  let ?L1 = "fixed_lib 1 1 EC_STATE_PRE_OP 3 (image0 0)"
  let ?L2 = "settling_lib 1"
  let ?w = "world0 () :: (unit, int) world"
  let ?v = "world0 0 :: (nat, int) world"
  let ?run0 = "soem_interface_set_ethercat_state ?L0 1 EC_STATE_OPERATIONAL ?w"
  let ?run1 = "soem_interface_set_ethercat_state ?L1 1 EC_STATE_OPERATIONAL ?w"
  let ?run2 = "soem_interface_set_ethercat_state ?L2 1 EC_STATE_PRE_OP ?v"
  have tr: "trace ?w = []" "trace ?v = []" by (simp_all add: world0_def)
  have p0: "?run0 = (fst ?run0, snd ?run0)" and p1: "?run1 = (fst ?run1, snd ?run1)"
    and p2: "?run2 = (fst ?run2, snd ?run2)"
    by simp_all
  note a = set_state_retries_and_escalation [OF p0]
  note b = set_state_retries_and_escalation [OF p1]
  note c = set_state_retries_and_escalation [OF p2]
  have r0: "fst ?run0 = -1"
    using fixed_lib_set_state_fails [OF refl, of 0 1 EC_STATE_PRE_OP 3 "image0 0"]
    by (simp add: soem_interface_set_ethercat_state_def)
  from conjunct1 [OF conjunct2 [OF a]] obtain n where n:
    "fst ?run0 = -1 \<longleftrightarrow>
       \<not> attempt_succeeds ?L0 1 EC_STATE_OPERATIONAL
           (attempt_start ?L0 1 EC_STATE_OPERATIONAL ?w n) \<and> n = 4"
    "trace (snd ?run0) = trace ?w @ run_events ?L0 1 EC_STATE_OPERATIONAL ?w n"
    "attempts_of 1 EC_STATE_OPERATIONAL (run_events ?L0 1 EC_STATE_OPERATIONAL ?w n) = n + 1"
    "requests_of 1 EC_STATE_SAFE_OP (run_events ?L0 1 EC_STATE_OPERATIONAL ?w n) \<le> n + 1"
    "requests_of 1 EC_STATE_OPERATIONAL (run_events ?L0 1 EC_STATE_OPERATIONAL ?w n)
       \<le> 2 * (n + 1)"
    by blast
  from n(1) r0 have n4: "n = 4" by simp
  have first: "attempts_of 1 EC_STATE_OPERATIONAL (trace (snd ?run0)) = 5"
    "requests_of 1 EC_STATE_SAFE_OP (trace (snd ?run0)) \<le> 5"
    "requests_of 1 EC_STATE_OPERATIONAL (trace (snd ?run0)) \<le> 10"
    using n(3,4,5) unfolding n(2) tr n4 by simp_all
  from conjunct1 [OF conjunct2 [OF b]] obtain m where m:
    "\<forall>k<m. \<not> attempt_succeeds ?L1 1 EC_STATE_OPERATIONAL
                (attempt_start ?L1 1 EC_STATE_OPERATIONAL ?w k)"
    "fst ?run1 = 0 \<longleftrightarrow> attempt_succeeds ?L1 1 EC_STATE_OPERATIONAL
                          (attempt_start ?L1 1 EC_STATE_OPERATIONAL ?w m)"
    "snd ?run1 = snd (set_state_attempt ?L1 1 EC_STATE_OPERATIONAL
                        (attempt_start ?L1 1 EC_STATE_OPERATIONAL ?w m))"
    by blast
  have m0: "m = 0"
  proof (rule ccontr)
    assume "m \<noteq> 0"
    then have "0 < m" by simp
    with m(1) have "\<not> attempt_succeeds ?L1 1 EC_STATE_OPERATIONAL
                        (attempt_start ?L1 1 EC_STATE_OPERATIONAL ?w 0)" by blast
    with fixed_lib_escalation_succeeds show False by simp
  qed
  have r1: "fst ?run1 = 0" using m(2) fixed_lib_escalation_succeeds unfolding m0 by simp
  have req: "\<not> fst (request_state ?L1 1 EC_STATE_OPERATIONAL ?w)"
    "state (ec_slave (snd (request_state ?L1 1 EC_STATE_OPERATIONAL ?w)) 1) AND 0x0F
       = EC_STATE_PRE_OP"
    "safe_op_check ?L1 1 (snd (request_state ?L1 1 EC_STATE_OPERATIONAL ?w)) = 1"
    by (simp_all add: request_state_unfold Let_def do_statecheck_def fixed_lib_def
        safe_op_check_def EC_STATE_PRE_OP_def EC_STATE_OPERATIONAL_def)
  from conjunct2 [OF conjunct2 [OF b]]
  have "trace (snd (set_state_attempt ?L1 1 EC_STATE_OPERATIONAL ?w)) =
       trace ?w @
       [Writestate 1 EC_STATE_OPERATIONAL, Usleep 20000,
        Statecheck 1 EC_STATE_OPERATIONAL EC_TIMEOUTSTATE]
       @ (if \<not> fst (request_state ?L1 1 EC_STATE_OPERATIONAL ?w)
             \<and> EC_STATE_OPERATIONAL = EC_STATE_OPERATIONAL
             \<and> state (ec_slave (snd (request_state ?L1 1 EC_STATE_OPERATIONAL ?w)) 1)
                   AND 0x0F = EC_STATE_PRE_OP
          then [Writestate 1 EC_STATE_SAFE_OP, Usleep 200000,
                Statecheck 1 EC_STATE_SAFE_OP (EC_TIMEOUTSTATE * 2)]
               @ (if safe_op_check ?L1 1 (snd (request_state ?L1 1 EC_STATE_OPERATIONAL ?w)) > 0
                  then [Writestate 1 EC_STATE_OPERATIONAL, Usleep 200000,
                        Statecheck 1 EC_STATE_OPERATIONAL (EC_TIMEOUTSTATE * 2)]
                  else [])
          else [])"
    by blast
  with req tr have t1: "trace (snd ?run1) =
       [Writestate 1 EC_STATE_OPERATIONAL, Usleep 20000,
        Statecheck 1 EC_STATE_OPERATIONAL EC_TIMEOUTSTATE,
        Writestate 1 EC_STATE_SAFE_OP, Usleep 200000,
        Statecheck 1 EC_STATE_SAFE_OP (EC_TIMEOUTSTATE * 2),
        Writestate 1 EC_STATE_OPERATIONAL, Usleep 200000,
        Statecheck 1 EC_STATE_OPERATIONAL (EC_TIMEOUTSTATE * 2)]"
    unfolding m(3) m0 by simp
  from conjunct1 [OF conjunct2 [OF c]] obtain j where j:
    "\<forall>k<j. \<not> attempt_succeeds ?L2 1 EC_STATE_PRE_OP
                (attempt_start ?L2 1 EC_STATE_PRE_OP ?v k)"
    "fst ?run2 = 0 \<longleftrightarrow> attempt_succeeds ?L2 1 EC_STATE_PRE_OP
                          (attempt_start ?L2 1 EC_STATE_PRE_OP ?v j)"
    "fst ?run2 = -1 \<longleftrightarrow> \<not> attempt_succeeds ?L2 1 EC_STATE_PRE_OP
                          (attempt_start ?L2 1 EC_STATE_PRE_OP ?v j) \<and> j = 4"
    "trace (snd ?run2) = trace ?v @ run_events ?L2 1 EC_STATE_PRE_OP ?v j"
    by blast
  have res2: "fst ?run2 = 0 \<or> fst ?run2 = -1" using conjunct1 [OF c] .
  have j1: "j = 1"
  proof -
    have "j \<noteq> 0"
    proof
      assume z: "j = 0"
      with j(2,3) settling_lib_retry(1) have "fst ?run2 \<noteq> 0" "fst ?run2 \<noteq> -1" by simp_all
      with res2 show False by simp
    qed
    moreover have "\<not> 1 < j"
    proof
      assume "1 < j"
      with j(1) have "\<not> attempt_succeeds ?L2 1 EC_STATE_PRE_OP
                          (attempt_start ?L2 1 EC_STATE_PRE_OP ?v 1)" by blast
      with settling_lib_retry(2) show False by simp
    qed
    ultimately show ?thesis by simp
  qed
  have r2: "fst ?run2 = 0" using j(2) settling_lib_retry(2) unfolding j1 by simp
  have pre: "EC_STATE_PRE_OP \<noteq> EC_STATE_OPERATIONAL" by (rule ec_states_distinct(3))
  have t2: "trace (snd ?run2) =
       [Writestate 1 EC_STATE_PRE_OP, Usleep 20000, Statecheck 1 EC_STATE_PRE_OP EC_TIMEOUTSTATE,
        Usleep 50000,
        Writestate 1 EC_STATE_PRE_OP, Usleep 20000, Statecheck 1 EC_STATE_PRE_OP EC_TIMEOUTSTATE]"
    using j(4) tr(2) unfolding j1
    by (simp add: attempt_events_plain [OF pre] del: attempt_start.simps)
  from r0 first r1 t1 r2 t2 show ?thesis by simp
qed

text \<open>With a library whose \<^verbatim>\<open>ec_statecheck\<close> returns 0 and reports PRE\_OP, an attempt at
  OPERATIONAL fails with PRE\_OP observed, requests SAFE\_OP once, and ends there: no second
  request of OPERATIONAL follows.\<close>

theorem escalation_without_second_request:
  "\<not> fst (request_state (fixed_lib 1 0 EC_STATE_PRE_OP 3 (image0 0)) 1 EC_STATE_OPERATIONAL
            (world0 ()))
   \<and> state (ec_slave (snd (request_state (fixed_lib 1 0 EC_STATE_PRE_OP 3 (image0 0)) 1
                             EC_STATE_OPERATIONAL (world0 ()))) 1) AND 0x0F = EC_STATE_PRE_OP
   \<and> trace (snd (set_state_attempt (fixed_lib 1 0 EC_STATE_PRE_OP 3 (image0 0)) 1
                    EC_STATE_OPERATIONAL (world0 ()))) =
       [Writestate 1 EC_STATE_OPERATIONAL, Usleep 20000,
        Statecheck 1 EC_STATE_OPERATIONAL EC_TIMEOUTSTATE,
        Writestate 1 EC_STATE_SAFE_OP, Usleep 200000,
        Statecheck 1 EC_STATE_SAFE_OP (EC_TIMEOUTSTATE * 2)]"
proof -
  let ?L = "fixed_lib 1 0 EC_STATE_PRE_OP 3 (image0 0)"
  let ?w = "world0 () :: (unit, int) world"
  have req: "\<not> fst (request_state ?L 1 EC_STATE_OPERATIONAL ?w)"
    "state (ec_slave (snd (request_state ?L 1 EC_STATE_OPERATIONAL ?w)) 1) AND 0x0F
       = EC_STATE_PRE_OP"
    "safe_op_check ?L 1 (snd (request_state ?L 1 EC_STATE_OPERATIONAL ?w)) = 0"
    by (simp_all add: request_state_unfold Let_def do_statecheck_def fixed_lib_def
        safe_op_check_def EC_STATE_PRE_OP_def EC_STATE_OPERATIONAL_def)
  have tr: "trace ?w = []" by (simp add: world0_def)
  have "trace (snd (set_state_attempt ?L 1 EC_STATE_OPERATIONAL ?w)) =
       [Writestate 1 EC_STATE_OPERATIONAL, Usleep 20000,
        Statecheck 1 EC_STATE_OPERATIONAL EC_TIMEOUTSTATE,
        Writestate 1 EC_STATE_SAFE_OP, Usleep 200000,
        Statecheck 1 EC_STATE_SAFE_OP (EC_TIMEOUTSTATE * 2)]"
    unfolding set_state_attempt_trace attempt_events_def tr using req by simp
  with req(1,2) show ?thesis by simp
qed

section \<open>PDO mapping negotiation\<close>

declare check_mapping_entries.simps [simp del]
declare write_mapping_objects.simps [simp del]

lemma write_sdo_simps [simp]:
  "trace (snd (soem_interface_write_sdo L s i sub sz v w)) = trace w @ [SDOwrite s i sub sz v]"
  "ec_slave (snd (soem_interface_write_sdo L s i sub sz v w)) = ec_slave w"
  by (simp_all add: soem_interface_write_sdo_def split: prod.splits)

lemma read_sdo_simps [simp]:
  "trace (snd (soem_interface_read_sdo L s i sub sz w)) = trace w @ [SDOread s i sub sz]"
  "ec_slave (snd (soem_interface_read_sdo L s i sub sz w)) = ec_slave w"
  by (simp_all add: soem_interface_read_sdo_def split: prod.splits)

lemma run_write_steps_append:
  "run_write_steps L s (xs @ ys) w =
     (case run_write_steps L s xs w of
        (True, w') \<Rightarrow> run_write_steps L s ys w'
      | (False, w') \<Rightarrow> (False, w'))"
  by (induction L s xs w rule: run_write_steps.induct) (auto split: prod.splits)

lemma write_mapping_objects_steps:
  "write_mapping_objects L s m ms n i w =
     (case run_write_steps L s
             (map (\<lambda>j. ((m, of_nat (j + 1), 4, ms ! j), 20000)) [i..<unat n]) w of
        (True, w') \<Rightarrow> (0, w')
      | (False, w') \<Rightarrow> (-1, w'))"
proof (induction L s m ms n i w rule: write_mapping_objects.induct)
  case (1 L s m ms n i w)
  show ?case
  proof (cases "i < unat n")
    case False
    then show ?thesis by (simp add: write_mapping_objects.simps)
  next
    case True
    obtain rc w' where wr: "soem_interface_write_sdo L s m (of_nat (i + 1)) 4 (ms ! i) w = (rc, w')"
      by (cases "soem_interface_write_sdo L s m (of_nat (i + 1)) 4 (ms ! i) w")
    have up: "[i..<unat n] = i # [i + 1..<unat n]"
      using True by (simp add: upt_conv_Cons)
    show ?thesis
    proof (cases "rc = 0")
      case False
      with True wr up show ?thesis
        by (subst write_mapping_objects.simps) simp
    next
      case rc: True
      from "1.IH" [OF True wr [symmetric]] rc
      have "write_mapping_objects L s m ms n (i + 1) (usleep 20000 w') =
              (case run_write_steps L s
                 (map (\<lambda>j. ((m, of_nat (j + 1), 4, ms ! j), 20000)) [i + 1..<unat n])
                 (usleep 20000 w') of
                 (True, w') \<Rightarrow> (0, w') | (False, w') \<Rightarrow> (-1, w'))"
        by simp
      with True wr up rc show ?thesis
        by (subst write_mapping_objects.simps) simp
    qed
  qed
qed

lemma verify_is_read_back:
  "verify_pdo_mapping L s m n w = read_back_count L s m n w"
  by (simp add: verify_pdo_mapping_def read_back_count_def soem_interface_read_sdo_def Let_def
      split: prod.splits)

lemma rewrite_refines_spec:
  "rewrite_pdo_mapping L s a m ms n w = negotiate_rewrite_spec L s a m ms n w"
  by (simp add: rewrite_pdo_mapping_def negotiate_rewrite_spec_def mapping_write_steps_def
      run_write_steps_append write_mapping_objects_steps verify_is_read_back
      zero_val_def original_assign_val_def
      split: prod.splits bool.splits)

lemma run_write_steps_trace:
  "run_write_steps L s steps w = (ok, w') \<Longrightarrow>
     ec_slave w' = ec_slave w
     \<and> (\<exists>k evs. trace w' = trace w @ evs \<and> k \<le> length steps
           \<and> filter is_SDOwrite evs = map (step_event s) (take k steps)
           \<and> list_all (\<lambda>e. \<not> is_state_request e) evs
           \<and> (ok \<longrightarrow> k = length steps)
           \<and> (\<not> ok \<longrightarrow> 1 \<le> k \<and> last evs = step_event s (steps ! (k - 1))))"
proof (induction L s steps w arbitrary: ok w' rule: run_write_steps.induct)
  case (1 L s w)
  then show ?case by simp
next
  case (2 L s index subindex sz v pause steps w)
  let ?st = "((index, subindex, sz, v), pause)"
  let ?wr = "soem_interface_write_sdo L s index subindex sz v w"
  have tr1: "trace (snd ?wr) = trace w @ [SDOwrite s index subindex sz v]"
    and sl1: "ec_slave (snd ?wr) = ec_slave w" by simp_all
  have ev: "step_event s ?st = SDOwrite s index subindex sz v"
    by (simp add: step_event_def)
  show ?case
  proof (cases "fst ?wr = 0")
    case False
    with "2.prems" have res: "ok = False" "w' = snd ?wr"
      by (auto split: prod.splits)
    have "trace w' = trace w @ [SDOwrite s index subindex sz v]
        \<and> (1::nat) \<le> length (?st # steps)
        \<and> filter is_SDOwrite [SDOwrite s index subindex sz v]
             = map (step_event s) (take 1 (?st # steps))
        \<and> list_all (\<lambda>e. \<not> is_state_request e) [SDOwrite s index subindex sz v]
        \<and> (ok \<longrightarrow> (1::nat) = length (?st # steps))
        \<and> (\<not> ok \<longrightarrow> (1::nat) \<le> 1
              \<and> last [SDOwrite s index subindex sz v] = step_event s ((?st # steps) ! (1 - 1)))"
      using res tr1 ev by simp
    then show ?thesis using res sl1 by blast
  next
    case True
    then have wr: "(0, snd ?wr) = ?wr" by (metis prod.collapse)
    from True "2.prems" have run: "run_write_steps L s steps (usleep pause (snd ?wr)) = (ok, w')"
      by (auto split: prod.splits)
    have z: "\<not> (0::int) \<noteq> 0" by simp
    from "2.IH" [OF wr z run] obtain k evs where ih:
      "ec_slave w' = ec_slave (usleep pause (snd ?wr))"
      "trace w' = trace (usleep pause (snd ?wr)) @ evs" "k \<le> length steps"
      "filter is_SDOwrite evs = map (step_event s) (take k steps)"
      "list_all (\<lambda>e. \<not> is_state_request e) evs"
      "ok \<longrightarrow> k = length steps"
      "\<not> ok \<longrightarrow> 1 \<le> k \<and> last evs = step_event s (steps ! (k - 1))"
      by blast
    let ?evs = "[SDOwrite s index subindex sz v, Usleep pause] @ evs"
    have "trace w' = trace w @ ?evs" using ih(2) tr1 by simp
    moreover have "Suc k \<le> length (?st # steps)" using ih(3) by simp
    moreover have "filter is_SDOwrite ?evs = map (step_event s) (take (Suc k) (?st # steps))"
      using ih(4) ev by simp
    moreover have "list_all (\<lambda>e. \<not> is_state_request e) ?evs" using ih(5) by simp
    moreover have "ok \<longrightarrow> Suc k = length (?st # steps)" using ih(6) by simp
    moreover have "\<not> ok \<longrightarrow> 1 \<le> Suc k \<and> last ?evs = step_event s ((?st # steps) ! (Suc k - 1))"
    proof
      assume "\<not> ok"
      with ih(7) have k: "1 \<le> k" and l: "last evs = step_event s (steps ! (k - 1))" by simp_all
      from k ih(4) ih(3) have "evs \<noteq> []" by (cases steps) auto
      with l k show "1 \<le> Suc k \<and> last ?evs = step_event s ((?st # steps) ! (Suc k - 1))"
        by (cases k) simp_all
    qed
    moreover have "ec_slave w' = ec_slave w" using ih(1) sl1 by simp
    ultimately show ?thesis by blast
  qed
qed

lemma read_back_count_trace:
  "trace (snd (read_back_count L s m n w)) = trace w @ [SDOread s m 0 1]"
  "ec_slave (snd (read_back_count L s m n w)) = ec_slave w"
  "fst (read_back_count L s m n w) = 0 \<or> fst (read_back_count L s m n w) = -1"
  by (simp_all add: read_back_count_def split: prod.splits)

lemma negotiate_rewrite_spec_trace:
  assumes "negotiate_rewrite_spec L s a m ms n w = (r, w')"
  shows "(r = 0 \<or> r = -1) \<and> ec_slave w' = ec_slave w
     \<and> (\<exists>k evs. trace w' = trace w @ evs
           \<and> k \<le> length (mapping_write_steps a m ms n)
           \<and> filter is_SDOwrite evs = map (step_event s) (take k (mapping_write_steps a m ms n))
           \<and> list_all (\<lambda>e. \<not> is_state_request e) evs
           \<and> (r = 0 \<longrightarrow> k = length (mapping_write_steps a m ms n)
                 \<and> last evs = SDOread s m 0 1)
           \<and> (k < length (mapping_write_steps a m ms n) \<longrightarrow>
                 r = -1 \<and> 1 \<le> k
                 \<and> last evs = step_event s (mapping_write_steps a m ms n ! (k - 1))))"
proof -
  let ?steps = "mapping_write_steps a m ms n"
  obtain ok w1 where rw: "run_write_steps L s ?steps w = (ok, w1)"
    by (cases "run_write_steps L s ?steps w")
  from run_write_steps_trace [OF rw] obtain k evs where t:
    "ec_slave w1 = ec_slave w"
    "trace w1 = trace w @ evs" "k \<le> length ?steps"
    "filter is_SDOwrite evs = map (step_event s) (take k ?steps)"
    "list_all (\<lambda>e. \<not> is_state_request e) evs"
    "ok \<longrightarrow> k = length ?steps"
    "\<not> ok \<longrightarrow> 1 \<le> k \<and> last evs = step_event s (?steps ! (k - 1))"
    by blast
  show ?thesis
  proof (cases ok)
    case False
    with assms rw have res: "r = -1" "w' = w1"
      by (simp_all add: negotiate_rewrite_spec_def)
    from False t(7) have "1 \<le> k" "last evs = step_event s (?steps ! (k - 1))" by simp_all
    with res t show ?thesis by (intro conjI exI [of _ k] exI [of _ evs]) simp_all
  next
    case True
    with assms rw have res: "(r, w') = read_back_count L s m n w1"
      by (simp add: negotiate_rewrite_spec_def)
    then have r: "r = fst (read_back_count L s m n w1)" and w': "w' = snd (read_back_count L s m n w1)"
      by (metis fst_conv, metis snd_conv)
    let ?evs = "evs @ [SDOread s m 0 1]"
    have "trace w' = trace w @ ?evs" using w' t(2) by (simp add: read_back_count_trace)
    moreover have "filter is_SDOwrite ?evs = map (step_event s) (take k ?steps)"
      using t(4) by simp
    moreover have "list_all (\<lambda>e. \<not> is_state_request e) ?evs" using t(5) by simp
    moreover have "k = length ?steps" using True t(6) by simp
    moreover have "last ?evs = SDOread s m 0 1" by simp
    moreover have "r = 0 \<or> r = -1" using r read_back_count_trace(3) [of L s m n w1] by simp
    moreover have "ec_slave w' = ec_slave w" using w' t(1) by (simp add: read_back_count_trace)
    ultimately show ?thesis by (intro conjI exI [of _ k] exI [of _ ?evs]) simp_all
  qed
qed

lemma check_mapping_entries_step:
  "check_mapping_entries L s m ms n i w =
     (if i < unat n then
        (let res = soem_interface_read_sdo L s m (of_nat (i + 1)) 4 w
         in if fst (fst res) = 0 \<and> snd (fst res) = ms ! i
            then check_mapping_entries L s m ms n (i + 1) (snd res)
            else (False, snd res))
      else (True, w))"
  by (subst check_mapping_entries.simps) (simp add: Let_def split: prod.splits)


lemma check_mapping_entries_done:
  assumes "\<not> i < unat n"
  shows "check_mapping_entries L s m ms n i w = (True, w)"
  using assms by (subst check_mapping_entries_step) simp

lemma check_mapping_entries_next:
  assumes "i < unat n"
  shows "check_mapping_entries L s m ms n i w =
      (if fst (fst (soem_interface_read_sdo L s m (of_nat (i + 1)) 4 w)) = 0
          \<and> snd (fst (soem_interface_read_sdo L s m (of_nat (i + 1)) 4 w)) = ms ! i
       then check_mapping_entries L s m ms n (i + 1)
              (snd (soem_interface_read_sdo L s m (of_nat (i + 1)) 4 w))
       else (False, snd (soem_interface_read_sdo L s m (of_nat (i + 1)) 4 w)))"
  using assms by (subst check_mapping_entries_step) (simp add: Let_def)

lemma check_mapping_entries_trace:
  "check_mapping_entries L s m ms n i w = (ok, w') \<Longrightarrow>
     ec_slave w' = ec_slave w
     \<and> (\<exists>evs. trace w' = trace w @ evs \<and> filter is_SDOwrite evs = []
           \<and> list_all (\<lambda>e. \<not> is_state_request e) evs
           \<and> (ok \<longrightarrow> evs = map (\<lambda>j. SDOread s m (of_nat (j + 1)) 4) [i..<unat n]))"
proof (induction k \<equiv> "unat n - i" arbitrary: i w)
  case 0
  from "0.hyps" have fin: "\<not> i < unat n" by simp
  from "0.prems" have "ok = True \<and> w' = w"
    unfolding check_mapping_entries_done [OF fin] by simp
  with fin show ?case by simp
next
  case (Suc k)
  from Suc.hyps(2) have lt: "i < unat n" and k: "k = unat n - (i + 1)" by simp_all
  define res where "res = soem_interface_read_sdo L s m (of_nat (i + 1)) 4 w"
  have tr1: "trace (snd res) = trace w @ [SDOread s m (of_nat (i + 1)) 4]"
    and sl1: "ec_slave (snd res) = ec_slave w" unfolding res_def by simp_all
  have up: "[i..<unat n] = i # [i + 1..<unat n]" using lt by (simp add: upt_conv_Cons)
  from Suc.prems have eq:
    "(if fst (fst res) = 0 \<and> snd (fst res) = ms ! i
      then check_mapping_entries L s m ms n (i + 1) (snd res) else (False, snd res)) = (ok, w')"
    unfolding check_mapping_entries_next [OF lt] res_def .
  show ?case
  proof (cases "fst (fst res) = 0 \<and> snd (fst res) = ms ! i")
    case False
    from eq have "(False, snd res) = (ok, w')" unfolding if_not_P [OF False] .
    then have r: "\<not> ok" "w' = snd res" by simp_all
    have A: "ec_slave w' = ec_slave w" unfolding r(2) by (rule sl1)
    have "trace w' = trace w @ [SDOread s m (of_nat (i + 1)) 4]
        \<and> filter is_SDOwrite [SDOread s m (of_nat (i + 1)) 4] = []
        \<and> list_all (\<lambda>e. \<not> is_state_request e) [SDOread s m (of_nat (i + 1)) 4]
        \<and> (ok \<longrightarrow> [SDOread s m (of_nat (i + 1)) 4]
               = map (\<lambda>j. SDOread s m (of_nat (j + 1)) 4) [i..<unat n])"
      using r(1) tr1 r(2) by simp
    then have "\<exists>evs. trace w' = trace w @ evs \<and> filter is_SDOwrite evs = []
           \<and> list_all (\<lambda>e. \<not> is_state_request e) evs
           \<and> (ok \<longrightarrow> evs = map (\<lambda>j. SDOread s m (of_nat (j + 1)) 4) [i..<unat n])"
      by (rule exI [where x = "[SDOread s m (of_nat (i + 1)) 4]"])
    with A show ?thesis by (rule conjI)
  next
    case True
    from eq have run: "check_mapping_entries L s m ms n (i + 1) (snd res) = (ok, w')"
      unfolding if_P [OF True] .
    note ih0 = Suc.hyps(1) [OF k run]
    from ih0 have A: "ec_slave w' = ec_slave w" using sl1 by simp
    from ih0 have "\<exists>evs. trace w' = trace (snd res) @ evs \<and>
       filter is_SDOwrite evs = [] \<and> list_all (\<lambda>e. \<not> is_state_request e) evs \<and>
       (ok \<longrightarrow> evs = map (\<lambda>j. SDOread s m (of_nat (j + 1)) 4) [i + 1..<unat n])"
      by (rule conjunct2)
    then obtain evs where ih:
      "trace w' = trace (snd res) @ evs \<and>
       filter is_SDOwrite evs = [] \<and> list_all (\<lambda>e. \<not> is_state_request e) evs \<and>
       (ok \<longrightarrow> evs = map (\<lambda>j. SDOread s m (of_nat (j + 1)) 4) [i + 1..<unat n])"
      ..
    have "trace w' = trace w @ (SDOread s m (of_nat (i + 1)) 4 # evs)
        \<and> filter is_SDOwrite (SDOread s m (of_nat (i + 1)) 4 # evs) = []
        \<and> list_all (\<lambda>e. \<not> is_state_request e) (SDOread s m (of_nat (i + 1)) 4 # evs)
        \<and> (ok \<longrightarrow> SDOread s m (of_nat (i + 1)) 4 # evs
               = map (\<lambda>j. SDOread s m (of_nat (j + 1)) 4) [i..<unat n])"
      unfolding up using ih tr1 by simp
    then have "\<exists>evs. trace w' = trace w @ evs \<and> filter is_SDOwrite evs = []
           \<and> list_all (\<lambda>e. \<not> is_state_request e) evs
           \<and> (ok \<longrightarrow> evs = map (\<lambda>j. SDOread s m (of_nat (j + 1)) 4) [i..<unat n])"
      by (rule exI [where x = "SDOread s m (of_nat (i + 1)) 4 # evs"])
    with A show ?thesis by (rule conjI)
  qed
qed

lemma current_mapping_matches_unfold:
  "current_mapping_matches L s m ms n w =
     (let res = soem_interface_read_sdo L s m 0 1 w
      in if fst (fst res) = 0 \<and> (ucast (snd (fst res)) :: 8 word) = n
         then check_mapping_entries L s m ms n 0 (snd res)
         else (False, snd res))"
  by (auto simp add: current_mapping_matches_def Let_def split: prod.splits)


lemma current_mapping_matches_trace:
  assumes "current_mapping_matches L s m ms n w = (ok, w')"
  shows "ec_slave w' = ec_slave w
     \<and> (\<exists>evs. trace w' = trace w @ evs \<and> filter is_SDOwrite evs = []
           \<and> list_all (\<lambda>e. \<not> is_state_request e) evs
           \<and> (ok \<longrightarrow> evs = SDOread s m 0 1 # map (\<lambda>j. SDOread s m (of_nat (j + 1)) 4) [0..<unat n]))"
proof -
  define res where "res = soem_interface_read_sdo L s m 0 1 w"
  have tr1: "trace (snd res) = trace w @ [SDOread s m 0 1]"
    and sl1: "ec_slave (snd res) = ec_slave w" unfolding res_def by simp_all
  from assms have eq:
    "(if fst (fst res) = 0 \<and> (ucast (snd (fst res)) :: 8 word) = n
      then check_mapping_entries L s m ms n 0 (snd res) else (False, snd res)) = (ok, w')"
    unfolding current_mapping_matches_unfold Let_def res_def .
  show ?thesis
  proof (cases "fst (fst res) = 0 \<and> (ucast (snd (fst res)) :: 8 word) = n")
    case False
    from eq have "(False, snd res) = (ok, w')" unfolding if_not_P [OF False] .
    then have r: "\<not> ok" "w' = snd res" by simp_all
    have A: "ec_slave w' = ec_slave w" unfolding r(2) by (rule sl1)
    have "trace w' = trace w @ [SDOread s m 0 1]
        \<and> filter is_SDOwrite [SDOread s m 0 1] = []
        \<and> list_all (\<lambda>e. \<not> is_state_request e) [SDOread s m 0 1]
        \<and> (ok \<longrightarrow> [SDOread s m 0 1]
              = SDOread s m 0 1 # map (\<lambda>j. SDOread s m (of_nat (j + 1)) 4) [0..<unat n])"
      using r(1) tr1 r(2) by simp
    then have "\<exists>evs. trace w' = trace w @ evs \<and> filter is_SDOwrite evs = []
           \<and> list_all (\<lambda>e. \<not> is_state_request e) evs
           \<and> (ok \<longrightarrow> evs = SDOread s m 0 1 # map (\<lambda>j. SDOread s m (of_nat (j + 1)) 4) [0..<unat n])"
      by (rule exI [where x = "[SDOread s m 0 1]"])
    with A show ?thesis by (rule conjI)
  next
    case True
    from eq have run: "check_mapping_entries L s m ms n 0 (snd res) = (ok, w')"
      unfolding if_P [OF True] .
    note ih0 = check_mapping_entries_trace [OF run]
    from ih0 have A: "ec_slave w' = ec_slave w" using sl1 by simp
    from ih0 have "\<exists>evs. trace w' = trace (snd res) @ evs \<and>
       filter is_SDOwrite evs = [] \<and> list_all (\<lambda>e. \<not> is_state_request e) evs \<and>
       (ok \<longrightarrow> evs = map (\<lambda>j. SDOread s m (of_nat (j + 1)) 4) [0..<unat n])"
      by (rule conjunct2)
    then obtain evs where ih:
      "trace w' = trace (snd res) @ evs \<and>
       filter is_SDOwrite evs = [] \<and> list_all (\<lambda>e. \<not> is_state_request e) evs \<and>
       (ok \<longrightarrow> evs = map (\<lambda>j. SDOread s m (of_nat (j + 1)) 4) [0..<unat n])"
      ..
    have "trace w' = trace w @ (SDOread s m 0 1 # evs)
        \<and> filter is_SDOwrite (SDOread s m 0 1 # evs) = []
        \<and> list_all (\<lambda>e. \<not> is_state_request e) (SDOread s m 0 1 # evs)
        \<and> (ok \<longrightarrow> SDOread s m 0 1 # evs
              = SDOread s m 0 1 # map (\<lambda>j. SDOread s m (of_nat (j + 1)) 4) [0..<unat n])"
      using ih tr1 by simp
    then have "\<exists>evs. trace w' = trace w @ evs \<and> filter is_SDOwrite evs = []
           \<and> list_all (\<lambda>e. \<not> is_state_request e) evs
           \<and> (ok \<longrightarrow> evs = SDOread s m 0 1 # map (\<lambda>j. SDOread s m (of_nat (j + 1)) 4) [0..<unat n])"
      by (rule exI [where x = "SDOread s m 0 1 # evs"])
    with A show ?thesis by (rule conjI)
  qed
qed

lemma configure_unfold:
  "soem_interface_configure_pdo_mapping_enhanced L s a m ms n w =
     (let st = soem_interface_set_ethercat_state L s EC_STATE_PRE_OP w
      in if fst st \<noteq> 0 then (-1, snd st)
         else (let cm = current_mapping_matches L s m ms n (usleep 100000 (snd st))
               in if fst cm then (0, snd cm)
                  else negotiate_rewrite_spec L s a m ms n (snd cm)))"
  by (simp add: soem_interface_configure_pdo_mapping_enhanced_def Let_def rewrite_refines_spec
      split: prod.splits)


lemma set_state_no_sdo:
  assumes "soem_interface_set_ethercat_state L s d w = (r, w')"
  shows "\<exists>evs. trace w' = trace w @ evs \<and> filter is_SDOwrite evs = []"
proof -
  from assms have "set_state_loop L s d 0 w = (r, w')"
    by (simp add: soem_interface_set_ethercat_state_def)
  from set_state_loop_props [OF this] obtain evs where
    "trace w' = trace w @ evs" "list_all (\<lambda>e. \<not> is_SDO e) evs"
    by blast
  moreover from this(2) have "filter is_SDOwrite evs = []"
  proof (induction evs)
    case Nil
    then show ?case by simp
  next
    case (Cons e evs)
    then show ?case by (cases e) simp_all
  qed
  ultimately show ?thesis by blast
qed


text \<open>
  C4 (amended). When the current mapping does not match the target list, the negotiation
  performs the SDO writes of the list in order: 0 to the assignment object, 0 to the entry
  count of the mapping object, each of the N entries to subindices 1 to N, N to the entry
  count, then the constant 1 to the assignment object. It then reads the entry count back
  and fails unless it equals N. A write that fails ends the negotiation with -1 as the last
  event: no later write is issued and nothing is reverted.
\<close>

theorem pdo_rewrite_sequence:
  assumes len: "length mapped_objects = unat num_mapped_objects"
    and pre: "soem_interface_set_ethercat_state L slave_idx EC_STATE_PRE_OP w = (0, w1)"
    and nomatch: "current_mapping_matches L slave_idx pdo_map_idx mapped_objects
                    num_mapped_objects (usleep 100000 w1) = (False, w2)"
    and run: "soem_interface_configure_pdo_mapping_enhanced L slave_idx pdo_assign_idx
                pdo_map_idx mapped_objects num_mapped_objects w = (r, w')"
  shows "(r, w') = negotiate_rewrite_spec L slave_idx pdo_assign_idx pdo_map_idx
                     mapped_objects num_mapped_objects w2
       \<and> (r = 0 \<or> r = -1)
       \<and> (\<exists>k evs. trace w' = trace w2 @ evs
            \<and> k \<le> length (mapping_write_steps pdo_assign_idx pdo_map_idx mapped_objects
                            num_mapped_objects)
            \<and> filter is_SDOwrite evs =
                map (step_event slave_idx)
                  (take k (mapping_write_steps pdo_assign_idx pdo_map_idx mapped_objects
                             num_mapped_objects))
            \<and> (r = 0 \<longrightarrow>
                  k = length (mapping_write_steps pdo_assign_idx pdo_map_idx mapped_objects
                                num_mapped_objects)
                \<and> last evs = SDOread slave_idx pdo_map_idx 0 1)
            \<and> (k < length (mapping_write_steps pdo_assign_idx pdo_map_idx mapped_objects
                              num_mapped_objects) \<longrightarrow>
                  r = -1 \<and> 1 \<le> k
                \<and> last evs = step_event slave_idx
                     (mapping_write_steps pdo_assign_idx pdo_map_idx mapped_objects
                        num_mapped_objects ! (k - 1))))"
proof -
  from pre nomatch run have eq:
    "negotiate_rewrite_spec L slave_idx pdo_assign_idx pdo_map_idx mapped_objects
       num_mapped_objects w2 = (r, w')"
    by (simp add: configure_unfold Let_def)
  from negotiate_rewrite_spec_trace [OF eq] eq show ?thesis by auto
qed


lemma matching_mapping_no_writes:
  assumes len: "length mapped_objects = unat num_mapped_objects"
    and pre: "soem_interface_set_ethercat_state L slave_idx EC_STATE_PRE_OP w = (0, w1)"
    and match: "current_mapping_matches L slave_idx pdo_map_idx mapped_objects
                  num_mapped_objects (usleep 100000 w1) = (True, w2)"
  shows "soem_interface_configure_pdo_mapping_enhanced L slave_idx pdo_assign_idx pdo_map_idx
           mapped_objects num_mapped_objects w = (0, w2)
       \<and> filter is_SDOwrite (trace w2) = filter is_SDOwrite (trace w)
       \<and> trace w2 = trace w1 @ Usleep 100000 # SDOread slave_idx pdo_map_idx 0 1
            # map (\<lambda>j. SDOread slave_idx pdo_map_idx (of_nat (j + 1)) 4)
                [0..<unat num_mapped_objects]"
proof -
  from pre match have res:
    "soem_interface_configure_pdo_mapping_enhanced L slave_idx pdo_assign_idx pdo_map_idx
           mapped_objects num_mapped_objects w = (0, w2)"
    by (simp add: configure_unfold Let_def)
  from set_state_no_sdo [OF pre] obtain e1 where e1:
    "trace w1 = trace w @ e1" "filter is_SDOwrite e1 = []" by blast
  from current_mapping_matches_trace [OF match] obtain e2 where e2:
    "trace w2 = trace (usleep 100000 w1) @ e2" "filter is_SDOwrite e2 = []"
    "e2 = SDOread slave_idx pdo_map_idx 0 1
            # map (\<lambda>j. SDOread slave_idx pdo_map_idx (of_nat (j + 1)) 4)
                [0..<unat num_mapped_objects]"
    by auto
  from e1 e2(1,2) have "filter is_SDOwrite (trace w2) = filter is_SDOwrite (trace w)" by simp
  moreover from e2(1,3) have "trace w2 = trace w1 @ Usleep 100000 # SDOread slave_idx pdo_map_idx 0 1
            # map (\<lambda>j. SDOread slave_idx pdo_map_idx (of_nat (j + 1)) 4)
                [0..<unat num_mapped_objects]" by simp
  ultimately show ?thesis using res by simp
qed

lemma od_write_sdo:
  "fst (soem_interface_write_sdo od_lib s i sub sz v w) = 0"
  "od (lib (snd (soem_interface_write_sdo od_lib s i sub sz v w))) = (od (lib w))((i, sub) := v)"
  "al_state (lib (snd (soem_interface_write_sdo od_lib s i sub sz v w))) = al_state (lib w)"
  by (simp_all add: soem_interface_write_sdo_def od_lib_def)

lemma od_read_sdo:
  "fst (soem_interface_read_sdo od_lib s i sub sz w) = (0, od (lib w) (i, sub))"
  "lib (snd (soem_interface_read_sdo od_lib s i sub sz w)) = lib w"
  by (simp_all add: soem_interface_read_sdo_def od_lib_def)

lemma od_run_write_steps:
  "fst (run_write_steps od_lib s steps w) = True
   \<and> od (lib (snd (run_write_steps od_lib s steps w))) = store_steps (od (lib w)) steps"
proof (induction steps arbitrary: w)
  case Nil
  show ?case by simp
next
  case (Cons st steps)
  obtain index subindex sz v pause where st: "st = ((index, subindex, sz, v), pause)"
    by (cases st) auto
  obtain rc w' where wr: "soem_interface_write_sdo od_lib s index subindex sz v w = (rc, w')"
    by (cases "soem_interface_write_sdo od_lib s index subindex sz v w")
  from od_write_sdo(1,2) [of s index subindex sz v w] wr
  have rc: "rc = 0" and o1: "od (lib w') = (od (lib w))((index, subindex) := v)"
    by simp_all
  have step: "run_write_steps od_lib s (((index, subindex, sz, v), pause) # steps) w =
                run_write_steps od_lib s steps (usleep pause w')"
    using wr rc by simp
  have o2: "od (lib (usleep pause w')) = (od (lib w))((index, subindex) := v)"
    using o1 by simp
  from Cons.IH [of "usleep pause w'", unfolded o2] show ?case
    unfolding st step store_steps.simps .
qed

lemma store_steps_append:
  "store_steps f (xs @ ys) = store_steps (store_steps f xs) ys"
proof (induction xs arbitrary: f)
  case Nil
  show ?case by simp
next
  case (Cons st xs)
  obtain index subindex sz v pause where st: "st = ((index, subindex, sz, v), pause)"
    by (cases st) auto
  show ?case unfolding st append_Cons store_steps.simps by (rule Cons.IH)
qed

lemma word8_of_nat_eq:
  "a < 256 \<Longrightarrow> b < 256 \<Longrightarrow> ((of_nat a :: 8 word) = of_nat b) = (a = b)"
  by (simp add: word_of_nat_eq_iff take_bit_nat_eq_self)

lemma store_entries_other:
  "(\<forall>j<k. key \<noteq> (m, of_nat (j + 1))) \<Longrightarrow>
     store_steps f (map (\<lambda>j. ((m, of_nat (j + 1), 4, ms ! j), 20000)) [0..<k]) key = f key"
  by (induction k) (simp_all add: store_steps_append del: of_nat_Suc of_nat_add)

lemma store_entries_written:
  "k \<le> 255 \<Longrightarrow> j < k \<Longrightarrow>
     store_steps f (map (\<lambda>j. ((m, of_nat (j + 1), 4, ms ! j), 20000)) [0..<k])
       (m, of_nat (j + 1)) = ms ! j"
proof (induction k)
  case 0
  then show ?case by simp
next
  case (Suc k)
  show ?case
  proof (cases "j = k")
    case True
    then show ?thesis by (simp add: store_steps_append del: of_nat_Suc of_nat_add)
  next
    case False
    with Suc.prems have jk: "j < k" "k \<le> 255" and b: "j + 1 < 256" "k + 1 < 256"
      and ne: "j + 1 \<noteq> k + 1" by simp_all
    have "(of_nat (j + 1) :: 8 word) \<noteq> of_nat (k + 1)"
      unfolding word8_of_nat_eq [OF b] by (rule ne)
    with Suc.IH [OF jk(2) jk(1)] show ?thesis
      by (simp add: store_steps_append del: of_nat_Suc of_nat_add)
  qed
qed

lemma store_mapping_write_steps:
  assumes "j < unat n"
  shows "store_steps f (mapping_write_steps a m ms n) (m, of_nat (j + 1)) = ms ! j"
    and "store_steps f (mapping_write_steps a m ms n) (a, 0) = 1"
    and "a \<noteq> m \<Longrightarrow> store_steps f (mapping_write_steps a m ms n) (m, 0) = ucast n"
proof -
  have "unat n < 2 ^ LENGTH(8)" by (rule unsigned_less)
  then have n: "unat n \<le> 255" by simp
  have b: "j + 1 < 256" "(0::nat) < 256" using assms n by simp_all
  have "(of_nat (j + 1) :: 8 word) \<noteq> of_nat 0"
    unfolding word8_of_nat_eq [OF b] by simp
  then have nz: "(of_nat (j + 1) :: 8 word) \<noteq> 0" by (simp del: of_nat_Suc of_nat_add)
  show "store_steps f (mapping_write_steps a m ms n) (m, of_nat (j + 1)) = ms ! j"
    using nz store_entries_written [OF n assms]
    by (simp add: mapping_write_steps_def store_steps_append del: of_nat_Suc of_nat_add)
  show "store_steps f (mapping_write_steps a m ms n) (a, 0) = 1"
    by (simp add: mapping_write_steps_def store_steps_append)
  show "a \<noteq> m \<Longrightarrow> store_steps f (mapping_write_steps a m ms n) (m, 0) = ucast n"
    by (simp add: mapping_write_steps_def store_steps_append)
qed

lemma all_from_split:
  "i < n \<Longrightarrow> (\<forall>j. i \<le> j \<and> j < n \<longrightarrow> P j) = (P i \<and> (\<forall>j. i + 1 \<le> j \<and> j < n \<longrightarrow> P j))"
  for i n :: nat
proof
  assume "i < n" "\<forall>j. i \<le> j \<and> j < n \<longrightarrow> P j"
  then show "P i \<and> (\<forall>j. i + 1 \<le> j \<and> j < n \<longrightarrow> P j)" by simp
next
  assume i: "i < n" and r: "P i \<and> (\<forall>j. i + 1 \<le> j \<and> j < n \<longrightarrow> P j)"
  show "\<forall>j. i \<le> j \<and> j < n \<longrightarrow> P j"
  proof (intro allI impI)
    fix j assume j: "i \<le> j \<and> j < n"
    show "P j"
    proof (cases "j = i")
      case True
      with r show ?thesis by simp
    next
      case False
      with j have "i + 1 \<le> j \<and> j < n" by simp
      with r show ?thesis by simp
    qed
  qed
qed

lemma od_check_entries:
  "fst (check_mapping_entries od_lib s m ms n i w) =
     (\<forall>j. i \<le> j \<and> j < unat n \<longrightarrow> od (lib w) (m, of_nat (j + 1)) = ms ! j)
   \<and> lib (snd (check_mapping_entries od_lib s m ms n i w)) = lib w"
proof (induction k \<equiv> "unat n - i" arbitrary: i w)
  case 0
  from "0.hyps" have fin: "\<not> i < unat n" by simp
  show ?case unfolding check_mapping_entries_done [OF fin] using fin by auto
next
  case (Suc k)
  from Suc.hyps(2) have lt: "i < unat n" and k: "k = unat n - (i + 1)" by simp_all
  define res where "res = soem_interface_read_sdo od_lib s m (of_nat (i + 1)) 4 w"
  have r: "fst (fst res) = 0" "snd (fst res) = od (lib w) (m, of_nat (i + 1))"
    "lib (snd res) = lib w"
    unfolding res_def by (simp_all add: od_read_sdo)
  have eq: "check_mapping_entries od_lib s m ms n i w =
    (if fst (fst res) = 0 \<and> snd (fst res) = ms ! i
      then check_mapping_entries od_lib s m ms n (i + 1) (snd res) else (False, snd res))"
    unfolding check_mapping_entries_next [OF lt] res_def ..
  note sp = all_from_split [OF lt, of "\<lambda>j. od (lib w) (m, of_nat (j + 1)) = ms ! j"]
  show ?case
  proof (cases "od (lib w) (m, of_nat (i + 1)) = ms ! i")
    case False
    then have c: "\<not> (fst (fst res) = 0 \<and> snd (fst res) = ms ! i)" using r by simp
    show ?thesis unfolding eq if_not_P [OF c] sp using False r(3) by simp
  next
    case True
    then have c: "fst (fst res) = 0 \<and> snd (fst res) = ms ! i" using r by simp
    from Suc.hyps(1) [OF k, of "snd res"] show ?thesis
      unfolding eq if_P [OF c] sp r(3) using True by simp
  qed
qed

lemma od_matches:
  "fst (current_mapping_matches od_lib s m ms n w) =
     ((ucast (od (lib w) (m, 0)) :: 8 word) = n
      \<and> (\<forall>j. 0 \<le> j \<and> j < unat n \<longrightarrow> od (lib w) (m, of_nat (j + 1)) = ms ! j))
   \<and> lib (snd (current_mapping_matches od_lib s m ms n w)) = lib w"
proof -
  define res where "res = soem_interface_read_sdo od_lib s m 0 1 w"
  have r: "fst (fst res) = 0" "snd (fst res) = od (lib w) (m, 0)" "lib (snd res) = lib w"
    unfolding res_def by (simp_all add: od_read_sdo)
  have eq: "current_mapping_matches od_lib s m ms n w =
    (if fst (fst res) = 0 \<and> (ucast (snd (fst res)) :: 8 word) = n
      then check_mapping_entries od_lib s m ms n 0 (snd res) else (False, snd res))"
    unfolding current_mapping_matches_unfold Let_def res_def ..
  show ?thesis
  proof (cases "(ucast (od (lib w) (m, 0)) :: 8 word) = n")
    case False
    then have c: "\<not> (fst (fst res) = 0 \<and> (ucast (snd (fst res)) :: 8 word) = n)"
      using r by simp
    show ?thesis unfolding eq if_not_P [OF c] using False r(3) by simp
  next
    case True
    then have c: "fst (fst res) = 0 \<and> (ucast (snd (fst res)) :: 8 word) = n"
      using r by simp
    from od_check_entries [of s m ms n 0 "snd res"] show ?thesis
      unfolding eq if_P [OF c] r(3) using True by simp
  qed
qed

lemma od_read_back:
  "fst (read_back_count od_lib s m n w) = (if (ucast (od (lib w) (m, 0)) :: 8 word) = n then 0 else -1)"
  "lib (snd (read_back_count od_lib s m n w)) = lib w"
  by (simp_all add: read_back_count_def od_lib_def)

lemma od_request_state:
  "fst (request_state od_lib s d w) = (0 < uint d \<and> d AND 0x0F = d)"
  "od (lib (snd (request_state od_lib s d w))) = od (lib w)"
  "state (ec_slave (snd (request_state od_lib s d w)) s) = d"
  "al_state (lib (snd (request_state od_lib s d w))) = d"
  by (simp_all add: request_state_unfold Let_def do_statecheck_def do_writestate_def
      od_lib_def usleep_def set_slave_state_def)

lemma od_try_intermediate:
  "od (lib (snd (try_intermediate_safe_op od_lib s d w))) = od (lib w)"
  by (simp add: try_intermediate_unfold Let_def do_statecheck_def do_writestate_def
      od_lib_def usleep_def set_slave_state_def)

lemma od_set_state_attempt:
  "od (lib (snd (set_state_attempt od_lib s d w))) = od (lib w)"
  by (simp add: set_state_attempt_unfold od_request_state od_try_intermediate)

lemma od_set_state_loop:
  "L = od_lib \<Longrightarrow> od (lib (snd (set_state_loop L s d k w))) = od (lib w)"
proof (induction L s d k w rule: set_state_loop.induct)
  case (1 L s d k w)
  show ?case
  proof (cases "k < max_retries")
    case False
    then show ?thesis by (simp add: set_state_loop.simps)
  next
    case True
    let ?a = "set_state_attempt L s d w"
    have oa: "od (lib (snd ?a)) = od (lib w)"
      using od_set_state_attempt "1.prems" by simp
    show ?thesis
    proof (cases "fst ?a")
      case ok: True
      with True oa show ?thesis by (simp add: set_state_loop_step)
    next
      case failed: False
      then have pa: "(False, snd ?a) = ?a" by (metis prod.collapse)
      from "1.IH" [OF True pa refl "1.prems"] failed True oa show ?thesis
        by (simp add: set_state_loop_step)
    qed
  qed
qed

lemma od_set_state:
  "od (lib (snd (soem_interface_set_ethercat_state od_lib s d w))) = od (lib w)"
  by (simp add: soem_interface_set_ethercat_state_def od_set_state_loop)

lemma od_set_state_pre_op:
  "fst (soem_interface_set_ethercat_state od_lib s EC_STATE_PRE_OP w) = 0"
  "state (ec_slave (snd (soem_interface_set_ethercat_state od_lib s EC_STATE_PRE_OP w)) s)
     = EC_STATE_PRE_OP"
  "al_state (lib (snd (soem_interface_set_ethercat_state od_lib s EC_STATE_PRE_OP w)))
     = EC_STATE_PRE_OP"
proof -
  have ok: "fst (request_state od_lib s EC_STATE_PRE_OP w)"
    by (simp add: od_request_state EC_STATE_PRE_OP_def)
  then have "soem_interface_set_ethercat_state od_lib s EC_STATE_PRE_OP w =
               (0, snd (request_state od_lib s EC_STATE_PRE_OP w))"
    by (simp add: soem_interface_set_ethercat_state_def set_state_loop_step max_retries_def
        set_state_attempt_unfold)
  then show "fst (soem_interface_set_ethercat_state od_lib s EC_STATE_PRE_OP w) = 0"
    "state (ec_slave (snd (soem_interface_set_ethercat_state od_lib s EC_STATE_PRE_OP w)) s)
       = EC_STATE_PRE_OP"
    "al_state (lib (snd (soem_interface_set_ethercat_state od_lib s EC_STATE_PRE_OP w)))
       = EC_STATE_PRE_OP"
    by (simp_all add: od_request_state)
qed

lemma set_state_first_request:
  assumes "soem_interface_set_ethercat_state L s d w = (r, w')"
  shows "\<exists>evs. trace w' = trace w @ Writestate s d # evs"
proof -
  from assms have loop: "set_state_loop L s d 0 w = (r, w')"
    by (simp add: soem_interface_set_ethercat_state_def)
  let ?a = "set_state_attempt L s d w"
  have "\<exists>rest. attempt_events L s d w = Writestate s d # rest"
    by (simp add: attempt_events_def)
  then obtain rest where ta: "trace (snd ?a) = trace w @ Writestate s d # rest"
    using set_state_attempt_trace [of L s d w] by auto
  have lt: "0 < max_retries" by (simp add: max_retries_def)
  show ?thesis
  proof (cases "fst ?a")
    case True
    with loop lt have "w' = snd ?a" by (simp add: set_state_loop_step)
    with ta have "trace w' = trace w @ Writestate s d # rest" by simp
    then show ?thesis by (rule exI)
  next
    case False
    let ?w1 = "if 0 + 1 < max_retries then usleep 50000 (snd ?a) else snd ?a"
    from False loop lt have run: "set_state_loop L s d (0 + 1) ?w1 = (r, w')"
      by (simp add: set_state_loop_step)
    have "\<exists>evs. trace w' = trace ?w1 @ evs"
      using set_state_loop_props [OF run] by (elim conjE exE) (rule exI)
    then obtain evs where e: "trace w' = trace ?w1 @ evs" ..
    have "trace ?w1 = trace w @ Writestate s d # rest @ [Usleep 50000]"
      using ta by (simp add: max_retries_def)
    with e have "trace w' = trace w @ Writestate s d # (rest @ [Usleep 50000] @ evs)" by simp
    then show ?thesis by (rule exI)
  qed
qed

lemma configure_state_requests:
  assumes run: "soem_interface_configure_pdo_mapping_enhanced L s a m ms n w = (r, w')"
    and pre: "soem_interface_set_ethercat_state L s EC_STATE_PRE_OP w = (rc, w1)"
  shows "ec_slave w' = ec_slave w1
       \<and> (rc \<noteq> 0 \<longrightarrow> r = -1 \<and> w' = w1)
       \<and> (\<exists>e2. trace w' = trace w1 @ e2 \<and> list_all (\<lambda>e. \<not> is_state_request e) e2)"
proof (cases "rc = 0")
  case False
  with run pre have "r = -1" "w' = w1" by (simp_all add: configure_unfold Let_def)
  moreover have "trace w1 = trace w1 @ [] \<and> list_all (\<lambda>e. \<not> is_state_request e) []" by simp
  then have "\<exists>e2. trace w1 = trace w1 @ e2 \<and> list_all (\<lambda>e. \<not> is_state_request e) e2"
    by (rule exI)
  ultimately show ?thesis by simp
next
  case True
  obtain ok w2 where cm: "current_mapping_matches L s m ms n (usleep 100000 w1) = (ok, w2)"
    by (cases "current_mapping_matches L s m ms n (usleep 100000 w1)")
  note t2 = current_mapping_matches_trace [OF cm]
  from t2 have s2: "ec_slave w2 = ec_slave w1" by simp
  from t2 have "\<exists>evs. trace w2 = trace (usleep 100000 w1) @ evs
       \<and> filter is_SDOwrite evs = [] \<and> list_all (\<lambda>e. \<not> is_state_request e) evs
       \<and> (ok \<longrightarrow> evs = SDOread s m 0 1 # map (\<lambda>j. SDOread s m (of_nat (j + 1)) 4) [0..<unat n])"
    by (rule conjunct2)
  then obtain e2 where e2: "trace w2 = trace (usleep 100000 w1) @ e2
       \<and> filter is_SDOwrite e2 = [] \<and> list_all (\<lambda>e. \<not> is_state_request e) e2
       \<and> (ok \<longrightarrow> e2 = SDOread s m 0 1 # map (\<lambda>j. SDOread s m (of_nat (j + 1)) 4) [0..<unat n])"
    ..
  show ?thesis
  proof (cases ok)
    case ok: True
    with run pre cm \<open>rc = 0\<close> have "w' = w2" by (simp add: configure_unfold Let_def)
    with e2 have "trace w' = trace w1 @ (Usleep 100000 # e2)
        \<and> list_all (\<lambda>e. \<not> is_state_request e) (Usleep 100000 # e2)" by simp
    then have "\<exists>e2. trace w' = trace w1 @ e2 \<and> list_all (\<lambda>e. \<not> is_state_request e) e2"
      by (rule exI)
    with s2 \<open>w' = w2\<close> \<open>rc = 0\<close> show ?thesis by simp
  next
    case False
    with run pre cm \<open>rc = 0\<close> have neg: "negotiate_rewrite_spec L s a m ms n w2 = (r, w')"
      by (simp add: configure_unfold Let_def)
    note t3 = negotiate_rewrite_spec_trace [OF neg]
    from t3 have s3: "ec_slave w' = ec_slave w2" by simp
    from t3 obtain k e3 where e3: "trace w' = trace w2 @ e3"
      "list_all (\<lambda>e. \<not> is_state_request e) e3"
      by (elim conjE exE)
    from e2 e3 have "trace w' = trace w1 @ (Usleep 100000 # e2 @ e3)
        \<and> list_all (\<lambda>e. \<not> is_state_request e) (Usleep 100000 # e2 @ e3)" by simp
    then have "\<exists>e2. trace w' = trace w1 @ e2 \<and> list_all (\<lambda>e. \<not> is_state_request e) e2"
      by (rule exI)
    with s2 s3 \<open>rc = 0\<close> show ?thesis by simp
  qed
qed

lemma store_mapping_assign:
  "store_steps f (mapping_write_steps a m ms n) (a, 0) = 1"
  "a \<noteq> m \<Longrightarrow> store_steps f (mapping_write_steps a m ms n) (m, 0) = ucast n"
  by (simp_all add: mapping_write_steps_def store_steps_append)

lemma ucast_8_32_8: "(ucast (ucast n :: 32 word) :: 8 word) = n" for n :: "8 word"
  by (rule ucast_up_ucast_id) (simp add: is_up)

lemma od_negotiate_rewrite:
  "od (lib (snd (negotiate_rewrite_spec od_lib s a m ms n w))) =
     store_steps (od (lib w)) (mapping_write_steps a m ms n)"
  "fst (negotiate_rewrite_spec od_lib s a m ms n w) =
     (if (ucast (store_steps (od (lib w)) (mapping_write_steps a m ms n) (m, 0)) :: 8 word) = n
      then 0 else -1)"
proof -
  define run where "run = run_write_steps od_lib s (mapping_write_steps a m ms n) w"
  have r: "fst run = True"
    "od (lib (snd run)) = store_steps (od (lib w)) (mapping_write_steps a m ms n)"
    unfolding run_def using od_run_write_steps [of s "mapping_write_steps a m ms n" w]
    by simp_all
  have "negotiate_rewrite_spec od_lib s a m ms n w =
          (case run of (True, w') \<Rightarrow> read_back_count od_lib s m n w'
                     | (False, w') \<Rightarrow> (-1, w'))"
    unfolding negotiate_rewrite_spec_def run_def ..
  also have "\<dots> = read_back_count od_lib s m n (snd run)"
    using r(1) by (cases run) simp
  finally have eq:
    "negotiate_rewrite_spec od_lib s a m ms n w = read_back_count od_lib s m n (snd run)" .
  show "od (lib (snd (negotiate_rewrite_spec od_lib s a m ms n w))) =
     store_steps (od (lib w)) (mapping_write_steps a m ms n)"
    unfolding eq od_read_back(2) by (rule r(2))
  show "fst (negotiate_rewrite_spec od_lib s a m ms n w) =
     (if (ucast (store_steps (od (lib w)) (mapping_write_steps a m ms n) (m, 0)) :: 8 word) = n
      then 0 else -1)"
    unfolding eq od_read_back(1) r(2) ..
qed

lemma od_matches_stored:
  "fst (current_mapping_matches od_lib s m ms n w) = mapping_stored (od (lib w)) m ms n"
  "od (lib (snd (current_mapping_matches od_lib s m ms n w))) = od (lib w)"
  using od_matches [of s m ms n w] by (simp_all add: mapping_stored_def)

lemma od_configure_cases:
  "soem_interface_configure_pdo_mapping_enhanced od_lib s a m ms n w =
     (if mapping_stored (od (lib w)) m ms n
      then (0, snd (current_mapping_matches od_lib s m ms n
                      (usleep 100000 (snd (soem_interface_set_ethercat_state od_lib s
                                             EC_STATE_PRE_OP w)))))
      else negotiate_rewrite_spec od_lib s a m ms n
             (snd (current_mapping_matches od_lib s m ms n
                     (usleep 100000 (snd (soem_interface_set_ethercat_state od_lib s
                                            EC_STATE_PRE_OP w))))))"
proof -
  define st where "st = soem_interface_set_ethercat_state od_lib s EC_STATE_PRE_OP w"
  define cm where "cm = current_mapping_matches od_lib s m ms n (usleep 100000 (snd st))"
  have st0: "fst st = 0" and ost: "od (lib (snd st)) = od (lib w)"
    unfolding st_def by (simp_all add: od_set_state_pre_op od_set_state)
  have fcm: "fst cm = mapping_stored (od (lib w)) m ms n"
    unfolding cm_def od_matches_stored using ost by simp
  have "soem_interface_configure_pdo_mapping_enhanced od_lib s a m ms n w =
          (if fst cm then (0, snd cm) else negotiate_rewrite_spec od_lib s a m ms n (snd cm))"
    unfolding configure_unfold Let_def st_def [symmetric] cm_def [symmetric] using st0 by simp
  then have "soem_interface_configure_pdo_mapping_enhanced od_lib s a m ms n w =
          (if mapping_stored (od (lib w)) m ms n then (0, snd cm)
           else negotiate_rewrite_spec od_lib s a m ms n (snd cm))"
    unfolding fcm .
  then show ?thesis unfolding cm_def st_def .
qed

lemma od_configure_leaves_mapping:
  assumes first: "soem_interface_configure_pdo_mapping_enhanced od_lib s a m ms n w = (0, w1)"
  shows "mapping_stored (od (lib w1)) m ms n"
proof (cases "mapping_stored (od (lib w)) m ms n")
  case True
  with first have "w1 = snd (current_mapping_matches od_lib s m ms n
                      (usleep 100000 (snd (soem_interface_set_ethercat_state od_lib s
                                             EC_STATE_PRE_OP w))))"
    by (simp add: od_configure_cases)
  then have "od (lib w1) = od (lib w)"
    by (simp add: od_matches_stored od_set_state)
  with True show ?thesis by simp
next
  case False
  define v where "v = snd (current_mapping_matches od_lib s m ms n
                     (usleep 100000 (snd (soem_interface_set_ethercat_state od_lib s
                                            EC_STATE_PRE_OP w))))"
  from False first have neg: "negotiate_rewrite_spec od_lib s a m ms n v = (0, w1)"
    unfolding v_def by (simp add: od_configure_cases)
  define f where "f = store_steps (od (lib v)) (mapping_write_steps a m ms n)"
  from neg od_negotiate_rewrite [of s a m ms n v]
  have o1: "od (lib w1) = f" and c: "(ucast (f (m, 0)) :: 8 word) = n"
    unfolding f_def by (simp_all split: if_splits)
  have "\<And>j. j < unat n \<Longrightarrow> f (m, of_nat (j + 1)) = ms ! j"
    unfolding f_def by (rule store_mapping_write_steps(1))
  with c show ?thesis unfolding o1 mapping_stored_def by simp
qed

lemma od_second_call:
  assumes len: "length ms = unat n"
    and first: "soem_interface_configure_pdo_mapping_enhanced od_lib s a m ms n w = (0, w1)"
  shows "fst (soem_interface_configure_pdo_mapping_enhanced od_lib s a m ms n w1) = 0
       \<and> filter is_SDOwrite (trace (snd (soem_interface_configure_pdo_mapping_enhanced
                                           od_lib s a m ms n w1)))
           = filter is_SDOwrite (trace w1)"
proof -
  define st where "st = soem_interface_set_ethercat_state od_lib s EC_STATE_PRE_OP w1"
  define cm where "cm = current_mapping_matches od_lib s m ms n (usleep 100000 (snd st))"
  have stored: "mapping_stored (od (lib w1)) m ms n"
    using od_configure_leaves_mapping [OF first] .
  have "fst st = 0" unfolding st_def by (rule od_set_state_pre_op(1))
  then have st0: "st = (0, snd st)" by (cases st) simp
  have "fst cm = mapping_stored (od (lib w1)) m ms n"
    unfolding cm_def st_def od_matches_stored by (simp add: od_set_state)
  with stored have "fst cm" by simp
  then have cm1: "cm = (True, snd cm)" by (cases cm) simp
  note pre = st0 [unfolded st_def]
  note match = cm1 [unfolded cm_def st_def]
  note mm = matching_mapping_no_writes [OF len pre match, of a]
  note c = conjunct1 [OF mm]
  note f = conjunct1 [OF conjunct2 [OF mm]]
  show ?thesis unfolding c fst_conv snd_conv f by simp
qed

lemma od_first_call:
  assumes "\<not> mapping_stored (od (lib w)) m ms n"
  shows "od (lib (snd (soem_interface_configure_pdo_mapping_enhanced od_lib s a m ms n w))) (a, 0) = 1"
    and "a \<noteq> m \<Longrightarrow> fst (soem_interface_configure_pdo_mapping_enhanced od_lib s a m ms n w) = 0"
proof -
  define v where "v = snd (current_mapping_matches od_lib s m ms n
                     (usleep 100000 (snd (soem_interface_set_ethercat_state od_lib s
                                            EC_STATE_PRE_OP w))))"
  have eq: "soem_interface_configure_pdo_mapping_enhanced od_lib s a m ms n w =
              negotiate_rewrite_spec od_lib s a m ms n v"
    unfolding v_def od_configure_cases if_not_P [OF assms] ..
  show "od (lib (snd (soem_interface_configure_pdo_mapping_enhanced od_lib s a m ms n w))) (a, 0) = 1"
    unfolding eq od_negotiate_rewrite(1) by (rule store_mapping_assign(1))
  show "a \<noteq> m \<Longrightarrow> fst (soem_interface_configure_pdo_mapping_enhanced od_lib s a m ms n w) = 0"
    unfolding eq od_negotiate_rewrite(2) by (simp add: store_mapping_assign(2) ucast_8_32_8)
qed

lemma drive0_facts:
  "\<not> mapping_stored (od (lib (world0 drive0))) 0x1600 rxpdo_mapping 4"
  "od (lib (world0 drive0)) (0x1C12, 0) = 2"
  "trace (world0 drive0) = []"
  "state (ec_slave (world0 drive0) 1) = EC_STATE_INIT"
  "length rxpdo_mapping = unat (4 :: 8 word)"
  by (simp_all add: mapping_stored_def world0_def drive0_def rxpdo_mapping_def)

lemma rx_write_sequence:
  "map (step_event 1) (mapping_write_steps 0x1C12 0x1600 rxpdo_mapping 4) =
     [SDOwrite 1 0x1C12 0 1 0, SDOwrite 1 0x1600 0 1 0,
      SDOwrite 1 0x1600 1 4 0x60400010, SDOwrite 1 0x1600 2 4 0x60600008,
      SDOwrite 1 0x1600 3 4 0x60710010, SDOwrite 1 0x1600 4 4 0x607A0020,
      SDOwrite 1 0x1600 0 1 4, SDOwrite 1 0x1C12 0 1 1]"
proof -
  have "[0..<unat (4 :: 8 word)] = [0, 1, 2, 3]" by (simp add: upt_rec)
  then show ?thesis
    by (simp add: mapping_write_steps_def step_event_def rxpdo_mapping_def)
qed

lemma rejecting_set_state:
  "soem_interface_set_ethercat_state rejecting_lib 1 EC_STATE_PRE_OP (world0 drive0) =
     (0, snd (request_state rejecting_lib 1 EC_STATE_PRE_OP (world0 drive0)))"
proof -
  have ok: "fst (request_state rejecting_lib 1 EC_STATE_PRE_OP (world0 drive0))"
    by (simp add: request_state_unfold Let_def do_statecheck_def do_writestate_def usleep_def
        set_slave_state_def rejecting_lib_def od_lib_def world0_def EC_STATE_PRE_OP_def)
  then show ?thesis
    by (simp add: soem_interface_set_ethercat_state_def set_state_loop_step max_retries_def
        set_state_attempt_unfold)
qed

lemma rejecting_first_write:
  "od (lib (world0 drive0)) (0x1C12, 0) = 2
   \<and> fst (soem_interface_configure_pdo_mapping_enhanced rejecting_lib 1 0x1C12 0x1600
            rxpdo_mapping 4 (world0 drive0)) = -1
   \<and> od (lib (snd (soem_interface_configure_pdo_mapping_enhanced rejecting_lib 1 0x1C12 0x1600
                      rxpdo_mapping 4 (world0 drive0)))) (0x1C12, 0) = 2
   \<and> filter is_SDOwrite
        (trace (snd (soem_interface_configure_pdo_mapping_enhanced rejecting_lib 1 0x1C12 0x1600
                       rxpdo_mapping 4 (world0 drive0)))) = [SDOwrite 1 0x1C12 0 1 0]"
  unfolding soem_interface_configure_pdo_mapping_enhanced_def rejecting_set_state
  by (simp add: request_state_unfold Let_def do_statecheck_def do_writestate_def usleep_def
        set_slave_state_def rejecting_lib_def od_lib_def world0_def drive0_def
        current_mapping_matches_def soem_interface_read_sdo_def rewrite_pdo_mapping_def
        soem_interface_write_sdo_def zero_val_def EC_STATE_PRE_OP_def
        EC_TIMEOUTSTATE_def)

text \<open>On a drive whose assignment object holds 2, a successful negotiation leaves 1 in it:
  the value written last is the constant 1, not the value the object held before. And on
  the same drive with every SDO write refused, the negotiation fails at its first write
  and the assignment object still holds 2: the mapping is not left disabled.\<close>

theorem assignment_object_not_restored:
  "od (lib (world0 drive0)) (0x1C12, 0) = 2
   \<and> fst (soem_interface_configure_pdo_mapping_enhanced od_lib 1 0x1C12 0x1600 rxpdo_mapping 4
            (world0 drive0)) = 0
   \<and> od (lib (snd (soem_interface_configure_pdo_mapping_enhanced od_lib 1 0x1C12 0x1600
                      rxpdo_mapping 4 (world0 drive0)))) (0x1C12, 0) = 1
   \<and> fst (soem_interface_configure_pdo_mapping_enhanced rejecting_lib 1 0x1C12 0x1600
            rxpdo_mapping 4 (world0 drive0)) = -1
   \<and> od (lib (snd (soem_interface_configure_pdo_mapping_enhanced rejecting_lib 1 0x1C12 0x1600
                      rxpdo_mapping 4 (world0 drive0)))) (0x1C12, 0) = 2
   \<and> filter is_SDOwrite
        (trace (snd (soem_interface_configure_pdo_mapping_enhanced rejecting_lib 1 0x1C12 0x1600
                       rxpdo_mapping 4 (world0 drive0)))) = [SDOwrite 1 0x1C12 0 1 0]"
  using od_first_call [OF drive0_facts(1), where s = 1 and a = "0x1C12"] drive0_facts(2)
    rejecting_first_write
  by simp

lemma configure_prefix_no_writes:
  assumes pre: "soem_interface_set_ethercat_state L s EC_STATE_PRE_OP w = (rc, w1)"
    and cm: "current_mapping_matches L s m ms n (usleep 100000 w1) = (ok, w2)"
  shows "filter is_SDOwrite (trace w2) = filter is_SDOwrite (trace w)"
proof -
  from set_state_no_sdo [OF pre] obtain e1 where e1:
    "trace w1 = trace w @ e1 \<and> filter is_SDOwrite e1 = []" ..
  from conjunct2 [OF current_mapping_matches_trace [OF cm]] obtain e2 where e2:
    "trace w2 = trace (usleep 100000 w1) @ e2 \<and> filter is_SDOwrite e2 = []
       \<and> list_all (\<lambda>e. \<not> is_state_request e) e2
       \<and> (ok \<longrightarrow> e2 = SDOread s m 0 1 # map (\<lambda>j. SDOread s m (of_nat (j + 1)) 4) [0..<unat n])"
    ..
  from e1 e2 show ?thesis by simp
qed

theorem pdo_rewrite_sequence_witness:
  "fst (soem_interface_configure_pdo_mapping_enhanced od_lib 1 0x1C12 0x1600 rxpdo_mapping 4
          (world0 drive0)) = 0
   \<and> filter is_SDOwrite (trace (snd (soem_interface_configure_pdo_mapping_enhanced od_lib 1
                                        0x1C12 0x1600 rxpdo_mapping 4 (world0 drive0)))) =
       [SDOwrite 1 0x1C12 0 1 0, SDOwrite 1 0x1600 0 1 0,
        SDOwrite 1 0x1600 1 4 0x60400010, SDOwrite 1 0x1600 2 4 0x60600008,
        SDOwrite 1 0x1600 3 4 0x60710010, SDOwrite 1 0x1600 4 4 0x607A0020,
        SDOwrite 1 0x1600 0 1 4, SDOwrite 1 0x1C12 0 1 1]
   \<and> last (trace (snd (soem_interface_configure_pdo_mapping_enhanced od_lib 1
                         0x1C12 0x1600 rxpdo_mapping 4 (world0 drive0)))) = SDOread 1 0x1600 0 1"
proof -
  let ?w = "world0 drive0 :: (od_drive, int) world"
  let ?st = "soem_interface_set_ethercat_state od_lib 1 EC_STATE_PRE_OP ?w"
  let ?cm = "current_mapping_matches od_lib 1 0x1600 rxpdo_mapping 4 (usleep 100000 (snd ?st))"
  let ?conf = "soem_interface_configure_pdo_mapping_enhanced od_lib 1 0x1C12 0x1600
                 rxpdo_mapping 4 ?w"
  let ?steps = "mapping_write_steps 0x1C12 0x1600 rxpdo_mapping 4"
  have "fst ?st = 0" by (rule od_set_state_pre_op(1))
  then have pre: "?st = (0, snd ?st)" by (cases ?st) simp
  have "fst ?cm = mapping_stored (od (lib ?w)) 0x1600 rxpdo_mapping 4"
    unfolding od_matches_stored by (simp add: od_set_state)
  with drive0_facts(1) have "\<not> fst ?cm" by (simp only: simp_thms)
  then have nomatch: "?cm = (False, snd ?cm)" by (cases ?cm) simp
  have run: "?conf = (fst ?conf, snd ?conf)" by (rule prod.collapse [symmetric])
  have r0: "fst ?conf = 0"
    by (rule od_first_call(2) [OF drive0_facts(1)]) simp
  have p0: "filter is_SDOwrite (trace (snd ?cm)) = []"
    unfolding configure_prefix_no_writes [OF pre nomatch] drive0_facts(3) by simp
  note main = pdo_rewrite_sequence [OF drive0_facts(5) pre nomatch run]
  note tr = conjunct2 [OF conjunct2 [OF main]]
  from tr obtain k evs where e: "trace (snd ?conf) = trace (snd ?cm) @ evs"
    "filter is_SDOwrite evs = map (step_event 1) (take k ?steps)"
    "fst ?conf = 0 \<longrightarrow> k = length ?steps \<and> last evs = SDOread 1 0x1600 0 1"
    by (elim exE conjE)
  from e(3) r0 have k: "k = length ?steps" and l: "last evs = SDOread 1 0x1600 0 1"
    by (simp_all only: simp_thms)
  from e(2) have w: "filter is_SDOwrite evs = map (step_event 1) ?steps"
    unfolding k take_all_iff [THEN iffD2, OF order_refl] .
  note w' = w [unfolded rx_write_sequence]
  from w' have ne: "evs \<noteq> []" by auto
  have a: "filter is_SDOwrite (trace (snd ?conf)) =
       [SDOwrite 1 0x1C12 0 1 0, SDOwrite 1 0x1600 0 1 0,
        SDOwrite 1 0x1600 1 4 0x60400010, SDOwrite 1 0x1600 2 4 0x60600008,
        SDOwrite 1 0x1600 3 4 0x60710010, SDOwrite 1 0x1600 4 4 0x607A0020,
        SDOwrite 1 0x1600 0 1 4, SDOwrite 1 0x1C12 0 1 1]"
    unfolding e(1) filter_append p0 w' by (rule append_Nil)
  have b: "last (trace (snd ?conf)) = SDOread 1 0x1600 0 1"
    unfolding e(1) last_appendR [OF ne] by (rule l)
  show ?thesis by (rule conjI [OF r0 conjI [OF a b]])
qed

text \<open>
  C5. Idempotence. If, after PRE\_OP is confirmed, the entry count read from the drive
  equals the target count and every entry read back equals the target entry, the
  negotiation returns 0 having issued only those reads and no SDO write. Hence, on a drive
  that stores what is written to it, a second negotiation with the same target list after
  a successful first one returns 0 and issues no SDO write.
\<close>

theorem matching_mapping_is_left_alone:
  assumes len: "length mapped_objects = unat num_mapped_objects"
  shows "(soem_interface_set_ethercat_state L slave_idx EC_STATE_PRE_OP w = (0, w1)
          \<and> current_mapping_matches L slave_idx pdo_map_idx mapped_objects
                num_mapped_objects (usleep 100000 w1) = (True, w2)
          \<longrightarrow> soem_interface_configure_pdo_mapping_enhanced L slave_idx pdo_assign_idx
                pdo_map_idx mapped_objects num_mapped_objects w = (0, w2)
              \<and> filter is_SDOwrite (trace w2) = filter is_SDOwrite (trace w)
              \<and> trace w2 = trace w1 @ Usleep 100000 # SDOread slave_idx pdo_map_idx 0 1
                    # map (\<lambda>j. SDOread slave_idx pdo_map_idx (of_nat (j + 1)) 4)
                        [0..<unat num_mapped_objects])
       \<and> (soem_interface_configure_pdo_mapping_enhanced od_lib slave_idx pdo_assign_idx
              pdo_map_idx mapped_objects num_mapped_objects v = (0, v1)
          \<longrightarrow> fst (soem_interface_configure_pdo_mapping_enhanced od_lib slave_idx
                     pdo_assign_idx pdo_map_idx mapped_objects num_mapped_objects v1) = 0
              \<and> filter is_SDOwrite
                   (trace (snd (soem_interface_configure_pdo_mapping_enhanced od_lib slave_idx
                                  pdo_assign_idx pdo_map_idx mapped_objects
                                  num_mapped_objects v1)))
                  = filter is_SDOwrite (trace v1))"
proof (rule conjI)
  show "soem_interface_set_ethercat_state L slave_idx EC_STATE_PRE_OP w = (0, w1)
          \<and> current_mapping_matches L slave_idx pdo_map_idx mapped_objects
                num_mapped_objects (usleep 100000 w1) = (True, w2)
          \<longrightarrow> soem_interface_configure_pdo_mapping_enhanced L slave_idx pdo_assign_idx
                pdo_map_idx mapped_objects num_mapped_objects w = (0, w2)
              \<and> filter is_SDOwrite (trace w2) = filter is_SDOwrite (trace w)
              \<and> trace w2 = trace w1 @ Usleep 100000 # SDOread slave_idx pdo_map_idx 0 1
                    # map (\<lambda>j. SDOread slave_idx pdo_map_idx (of_nat (j + 1)) 4)
                        [0..<unat num_mapped_objects]"
  proof (rule impI, elim conjE)
    assume pre: "soem_interface_set_ethercat_state L slave_idx EC_STATE_PRE_OP w = (0, w1)"
      and match: "current_mapping_matches L slave_idx pdo_map_idx mapped_objects
                num_mapped_objects (usleep 100000 w1) = (True, w2)"
    show "soem_interface_configure_pdo_mapping_enhanced L slave_idx pdo_assign_idx
                pdo_map_idx mapped_objects num_mapped_objects w = (0, w2)
              \<and> filter is_SDOwrite (trace w2) = filter is_SDOwrite (trace w)
              \<and> trace w2 = trace w1 @ Usleep 100000 # SDOread slave_idx pdo_map_idx 0 1
                    # map (\<lambda>j. SDOread slave_idx pdo_map_idx (of_nat (j + 1)) 4)
                        [0..<unat num_mapped_objects]"
      by (rule matching_mapping_no_writes [OF len pre match])
  qed
next
  show "soem_interface_configure_pdo_mapping_enhanced od_lib slave_idx pdo_assign_idx
              pdo_map_idx mapped_objects num_mapped_objects v = (0, v1)
          \<longrightarrow> fst (soem_interface_configure_pdo_mapping_enhanced od_lib slave_idx
                     pdo_assign_idx pdo_map_idx mapped_objects num_mapped_objects v1) = 0
              \<and> filter is_SDOwrite
                   (trace (snd (soem_interface_configure_pdo_mapping_enhanced od_lib slave_idx
                                  pdo_assign_idx pdo_map_idx mapped_objects
                                  num_mapped_objects v1)))
                  = filter is_SDOwrite (trace v1)"
    by (rule impI) (rule od_second_call [OF len])
qed

theorem matching_mapping_is_left_alone_witness:
  "fst (soem_interface_configure_pdo_mapping_enhanced od_lib 1 0x1C12 0x1600 rxpdo_mapping 4
          (world0 drive0)) = 0
   \<and> fst (soem_interface_configure_pdo_mapping_enhanced od_lib 1 0x1C12 0x1600 rxpdo_mapping 4
          (snd (soem_interface_configure_pdo_mapping_enhanced od_lib 1 0x1C12 0x1600
                  rxpdo_mapping 4 (world0 drive0)))) = 0
   \<and> filter is_SDOwrite
        (trace (snd (soem_interface_configure_pdo_mapping_enhanced od_lib 1 0x1C12 0x1600
           rxpdo_mapping 4
           (snd (soem_interface_configure_pdo_mapping_enhanced od_lib 1 0x1C12 0x1600
                   rxpdo_mapping 4 (world0 drive0))))))
       = filter is_SDOwrite
           (trace (snd (soem_interface_configure_pdo_mapping_enhanced od_lib 1 0x1C12 0x1600
                          rxpdo_mapping 4 (world0 drive0))))"
proof -
  let ?w = "world0 drive0 :: (od_drive, int) world"
  let ?conf = "soem_interface_configure_pdo_mapping_enhanced od_lib 1 0x1C12 0x1600
                 rxpdo_mapping 4 ?w"
  have r0: "fst ?conf = 0"
    by (rule od_first_call(2) [OF drive0_facts(1)]) simp
  then have first: "?conf = (0, snd ?conf)" by (cases ?conf) simp
  note main = matching_mapping_is_left_alone [OF drive0_facts(5),
      where L = od_lib and w = ?w and ?w1.0 = ?w and ?w2.0 = ?w and slave_idx = 1
        and pdo_map_idx = "0x1600" and pdo_assign_idx = "0x1C12" and v = ?w and ?v1.0 = "snd ?conf"]
  note second = mp [OF conjunct2 [OF main] first]
  show ?thesis by (rule conjI [OF r0 second])
qed

text \<open>
  C6 (amended). The negotiation itself requests PRE\_OP through the slave-state controller
  before any SDO transfer: its first library call writes the state PRE\_OP, and when PRE\_OP
  is not confirmed it returns -1 at once. After that call it makes no state request and
  leaves the slave entry as the controller left it.
\<close>

theorem negotiation_requests_pre_op_first:
  assumes run: "soem_interface_configure_pdo_mapping_enhanced L slave_idx pdo_assign_idx
                  pdo_map_idx mapped_objects num_mapped_objects w = (r, w')"
    and pre: "soem_interface_set_ethercat_state L slave_idx EC_STATE_PRE_OP w = (rc, w1)"
  shows "(\<exists>e1. trace w1 = trace w @ Writestate slave_idx EC_STATE_PRE_OP # e1
            \<and> set e1 \<subseteq> {Writestate slave_idx EC_STATE_PRE_OP, Usleep 20000,
                          Statecheck slave_idx EC_STATE_PRE_OP EC_TIMEOUTSTATE, Usleep 50000})
       \<and> (\<exists>e2. trace w' = trace w1 @ e2 \<and> list_all (\<lambda>e. \<not> is_state_request e) e2)
       \<and> ec_slave w' = ec_slave w1
       \<and> (rc \<noteq> 0 \<longrightarrow> r = -1 \<and> w' = w1)"
proof -
  from pre have loop: "set_state_loop L slave_idx EC_STATE_PRE_OP 0 w = (rc, w1)"
    by (simp add: soem_interface_set_ethercat_state_def)
  note props = conjunct2 [OF conjunct2 [OF conjunct2 [OF set_state_loop_props [OF loop]]]]
  from props obtain evs where evs: "trace w1 = trace w @ evs"
    "EC_STATE_PRE_OP \<noteq> EC_STATE_OPERATIONAL \<longrightarrow>
       set evs \<subseteq> {Writestate slave_idx EC_STATE_PRE_OP, Usleep 20000,
                    Statecheck slave_idx EC_STATE_PRE_OP EC_TIMEOUTSTATE, Usleep 50000}"
    by (elim exE conjE)
  from set_state_first_request [OF pre] obtain e1 where
    e1: "trace w1 = trace w @ Writestate slave_idx EC_STATE_PRE_OP # e1" ..
  from evs(1) e1 have "evs = Writestate slave_idx EC_STATE_PRE_OP # e1" by simp
  with evs(2) ec_states_distinct(3) have
    "set e1 \<subseteq> {Writestate slave_idx EC_STATE_PRE_OP, Usleep 20000,
                 Statecheck slave_idx EC_STATE_PRE_OP EC_TIMEOUTSTATE, Usleep 50000}"
    by simp
  with e1 have "trace w1 = trace w @ Writestate slave_idx EC_STATE_PRE_OP # e1
            \<and> set e1 \<subseteq> {Writestate slave_idx EC_STATE_PRE_OP, Usleep 20000,
                          Statecheck slave_idx EC_STATE_PRE_OP EC_TIMEOUTSTATE, Usleep 50000}"
    by (rule conjI)
  then have first: "\<exists>e1. trace w1 = trace w @ Writestate slave_idx EC_STATE_PRE_OP # e1
            \<and> set e1 \<subseteq> {Writestate slave_idx EC_STATE_PRE_OP, Usleep 20000,
                          Statecheck slave_idx EC_STATE_PRE_OP EC_TIMEOUTSTATE, Usleep 50000}"
    by (rule exI)
  note rest = configure_state_requests [OF run pre]
  show ?thesis
    by (rule conjI [OF first conjI [OF conjunct2 [OF conjunct2 [OF rest]]
          conjI [OF conjunct1 [OF rest] conjunct1 [OF conjunct2 [OF rest]]]]])
qed

lemma world_pre_op_facts:
  "state (ec_slave world_pre_op 1) = EC_STATE_PRE_OP"
  "al_state (lib world_pre_op) = EC_STATE_PRE_OP"
  "ALstatuscode (ec_slave world_pre_op 1) = 0x1B"
  "trace world_pre_op = []"
  by (simp_all add: world_pre_op_def world0_def)

lemma od_request_clears_al_status:
  "ALstatuscode (ec_slave (snd (request_state od_lib s d w)) s) = 0"
  by (simp add: request_state_unfold Let_def do_statecheck_def do_writestate_def
      od_lib_def usleep_def set_slave_state_def)

lemma od_set_state_pre_op_al_status:
  "ALstatuscode (ec_slave (snd (soem_interface_set_ethercat_state od_lib s EC_STATE_PRE_OP w)) s) = 0"
proof -
  have ok: "fst (request_state od_lib s EC_STATE_PRE_OP w)"
    by (simp add: od_request_state EC_STATE_PRE_OP_def)
  then have "soem_interface_set_ethercat_state od_lib s EC_STATE_PRE_OP w =
               (0, snd (request_state od_lib s EC_STATE_PRE_OP w))"
    by (simp add: soem_interface_set_ethercat_state_def set_state_loop_step max_retries_def
        set_state_attempt_unfold)
  then show ?thesis by (simp add: od_request_clears_al_status)
qed

text \<open>From a slave in INIT the negotiation requests PRE\_OP as its first library call and
  leaves PRE\_OP in the slave entry. From a slave already in PRE\_OP, with PRE\_OP and the
  AL status code 0x1B in its entry, the negotiation still requests PRE\_OP as its first
  library call and clears the AL status code of the entry.\<close>

theorem negotiation_changes_slave_state:
  "state (ec_slave (world0 drive0) 1) = EC_STATE_INIT
   \<and> state (ec_slave (snd (soem_interface_configure_pdo_mapping_enhanced od_lib 1 0x1C12 0x1600
                             rxpdo_mapping 4 (world0 drive0))) 1) = EC_STATE_PRE_OP
   \<and> EC_STATE_INIT \<noteq> EC_STATE_PRE_OP
   \<and> hd (trace (snd (soem_interface_configure_pdo_mapping_enhanced od_lib 1 0x1C12 0x1600
                       rxpdo_mapping 4 (world0 drive0)))) = Writestate 1 EC_STATE_PRE_OP
   \<and> state (ec_slave world_pre_op 1) = EC_STATE_PRE_OP
   \<and> al_state (lib world_pre_op) = EC_STATE_PRE_OP
   \<and> ALstatuscode (ec_slave world_pre_op 1) = 0x1B
   \<and> hd (trace (snd (soem_interface_configure_pdo_mapping_enhanced od_lib 1 0x1C12 0x1600
                       rxpdo_mapping 4 world_pre_op))) = Writestate 1 EC_STATE_PRE_OP
   \<and> ALstatuscode (ec_slave (snd (soem_interface_configure_pdo_mapping_enhanced od_lib 1 0x1C12
                                    0x1600 rxpdo_mapping 4 world_pre_op)) 1) = 0"
proof -
  let ?w = "world0 drive0 :: (od_drive, int) world"
  let ?st = "soem_interface_set_ethercat_state od_lib 1 EC_STATE_PRE_OP ?w"
  let ?conf = "soem_interface_configure_pdo_mapping_enhanced od_lib 1 0x1C12 0x1600
                 rxpdo_mapping 4 ?w"
  have run: "?conf = (fst ?conf, snd ?conf)" by (rule prod.collapse [symmetric])
  have pre: "?st = (fst ?st, snd ?st)" by (rule prod.collapse [symmetric])
  note rest = configure_state_requests [OF run pre]
  have a: "state (ec_slave (snd ?conf) 1) = EC_STATE_PRE_OP"
    unfolding conjunct1 [OF rest] by (rule od_set_state_pre_op(2))
  from set_state_first_request [OF pre] obtain e1 where
    e1: "trace (snd ?st) = trace ?w @ Writestate 1 EC_STATE_PRE_OP # e1" ..
  from conjunct2 [OF conjunct2 [OF rest]] obtain e2 where
    e2: "trace (snd ?conf) = trace (snd ?st) @ e2 \<and> list_all (\<lambda>e. \<not> is_state_request e) e2" ..
  have b: "hd (trace (snd ?conf)) = Writestate 1 EC_STATE_PRE_OP"
    unfolding conjunct1 [OF e2] e1 drive0_facts(3) by simp
  have c: "EC_STATE_INIT \<noteq> EC_STATE_PRE_OP"
    by (simp add: EC_STATE_INIT_def EC_STATE_PRE_OP_def)
  let ?st' = "soem_interface_set_ethercat_state od_lib 1 EC_STATE_PRE_OP world_pre_op"
  let ?conf' = "soem_interface_configure_pdo_mapping_enhanced od_lib 1 0x1C12 0x1600
                  rxpdo_mapping 4 world_pre_op"
  have run': "?conf' = (fst ?conf', snd ?conf')" by (rule prod.collapse [symmetric])
  have pre': "?st' = (fst ?st', snd ?st')" by (rule prod.collapse [symmetric])
  note rest' = configure_state_requests [OF run' pre']
  have a': "ALstatuscode (ec_slave (snd ?conf') 1) = 0"
    unfolding conjunct1 [OF rest'] by (rule od_set_state_pre_op_al_status)
  from set_state_first_request [OF pre'] obtain e1' where
    e1': "trace (snd ?st') = trace world_pre_op @ Writestate 1 EC_STATE_PRE_OP # e1'" ..
  from conjunct2 [OF conjunct2 [OF rest']] obtain e2' where
    e2': "trace (snd ?conf') = trace (snd ?st') @ e2'
            \<and> list_all (\<lambda>e. \<not> is_state_request e) e2'" ..
  have b': "hd (trace (snd ?conf')) = Writestate 1 EC_STATE_PRE_OP"
    unfolding conjunct1 [OF e2'] e1' world_pre_op_facts(4) by simp
  show ?thesis
    by (rule conjI [OF drive0_facts(4) conjI [OF a conjI [OF c conjI [OF b
          conjI [OF world_pre_op_facts(1) conjI [OF world_pre_op_facts(2)
          conjI [OF world_pre_op_facts(3) conjI [OF b' a']]]]]]]])
qed

theorem negotiation_requests_pre_op_first_witness:
  "(\<exists>e1. trace (snd (soem_interface_set_ethercat_state od_lib 1 EC_STATE_PRE_OP (world0 drive0)))
           = trace (world0 drive0) @ Writestate 1 EC_STATE_PRE_OP # e1)
   \<and> ec_slave (snd (soem_interface_configure_pdo_mapping_enhanced od_lib 1 0x1C12 0x1600
                      rxpdo_mapping 4 (world0 drive0)))
       = ec_slave (snd (soem_interface_set_ethercat_state od_lib 1 EC_STATE_PRE_OP
                          (world0 drive0)))"
proof -
  let ?w = "world0 drive0 :: (od_drive, int) world"
  let ?st = "soem_interface_set_ethercat_state od_lib 1 EC_STATE_PRE_OP ?w"
  let ?conf = "soem_interface_configure_pdo_mapping_enhanced od_lib 1 0x1C12 0x1600
                 rxpdo_mapping 4 ?w"
  have run: "?conf = (fst ?conf, snd ?conf)" by (rule prod.collapse [symmetric])
  have pre: "?st = (fst ?st, snd ?st)" by (rule prod.collapse [symmetric])
  note main = negotiation_requests_pre_op_first [OF run pre]
  from conjunct1 [OF main] obtain e1 where
    "trace (snd ?st) = trace ?w @ Writestate 1 EC_STATE_PRE_OP # e1
       \<and> set e1 \<subseteq> {Writestate 1 EC_STATE_PRE_OP, Usleep 20000,
                     Statecheck 1 EC_STATE_PRE_OP EC_TIMEOUTSTATE, Usleep 50000}" ..
  then have "trace (snd ?st) = trace ?w @ Writestate 1 EC_STATE_PRE_OP # e1" by (rule conjunct1)
  then have a: "\<exists>e1. trace (snd ?st) = trace ?w @ Writestate 1 EC_STATE_PRE_OP # e1"
    by (rule exI)
  show ?thesis
    by (rule conjI [OF a conjunct1 [OF conjunct2 [OF conjunct2 [OF main]]]])
qed

end
